(* ===== verification/Prelude.thy ===== *)
theory Prelude
  imports Main "HOL-Library.Word"
begin

text \<open>
  Shared vocabulary of the development: bytes and Go strings, the little-endian integers
  of \<^verbatim>\<open>encoding/binary\<close>, slices, buffered Go channels with a non-blocking send, results
  that may be an error, and two interfaces that several components implement: a codec
  (an encoder and a decoder that undo each other) and a transition system with its
  reachable states.

  Go values are modelled as follows. A \<^verbatim>\<open>byte\<close> is an 8-bit word, a \<^verbatim>\<open>[]byte\<close> a list of
  them; \<^verbatim>\<open>uint16\<close>, \<^verbatim>\<open>uint32\<close> and \<^verbatim>\<open>uint64\<close> are words of that width, so that arithmetic wraps as it
  does in Go. A Go string is a sequence of bytes and is an Isabelle \<^typ>\<open>string\<close>. A Go
  error is a value of a datatype of the component that returns it; a function that
  returns \<^verbatim>\<open>(T, error)\<close> returns a sum with the error on the left.
\<close>

section \<open>Bytes, strings and results\<close>

type_synonym byte = "8 word"
type_synonym bytes = "8 word list"
type_synonym u16 = "16 word"
type_synonym u32 = "32 word"
type_synonym u64 = "64 word"

text \<open>\<^verbatim>\<open>rand.Read\<close> of a buffer: it fails, or fills every byte of the buffer.\<close>

type_synonym rand_source = "(nat \<Rightarrow> byte) option"

named_theorems le_simps \<open>rewriting of the little-endian integers\<close>
named_theorems frame_simps \<open>shape of encoded frames\<close>

text \<open>Words and the naturals below their modulus.\<close>

lemma unat_lt2p: "unat (w :: 'a::len word) < 2 ^ LENGTH('a)"
  by (rule unsigned_less)

lemma unat_of_nat_len: "n < 2 ^ LENGTH('a) \<Longrightarrow> unat (of_nat n :: 'a::len word) = n"
  by (simp add: unat_of_nat)

lemma unat_byte_less [simp]: "unat (b :: byte) < 256"
  using unat_lt2p [of b] by simp

lemma word_less_Suc: "w \<noteq> - 1 \<Longrightarrow> w < w + (1 :: 'a::len word)"
proof -
  assume "w \<noteq> - 1"
  then have "1 + w \<noteq> 0"
    by (metis add_eq_0_iff)
  then have "unat (1 + w) = Suc (unat w)"
    by (rule unatSuc)
  then show ?thesis
    by (simp add: word_less_nat_alt add.commute)
qed

text \<open>The conversions \<^verbatim>\<open>string(b)\<close> and \<^verbatim>\<open>[]byte(s)\<close>: byte by byte.\<close>

definition string_of_bytes :: "bytes \<Rightarrow> string" where
  "string_of_bytes bs = map (\<lambda>b. char_of (unat b)) bs"

definition bytes_of_string :: "string \<Rightarrow> bytes" where
  "bytes_of_string s = map (\<lambda>c. of_nat (of_char c)) s"

lemma of_char_nat_less [simp]: "(of_char c :: nat) < 256"
  by (metis mod_less_divisor of_char_mod_256 zero_less_numeral)

lemma byte_of_char_of_byte [simp]: "(of_nat (of_char (char_of (unat b) :: char)) :: byte) = b"
  by (simp add: of_char_of)

lemma byte_mod_256 [simp]: "unat (b :: byte) mod 256 = unat b"
  by simp

lemma unat_byte_of_char [simp]: "unat (of_nat (of_char c) :: byte) = of_char c"
proof -
  have "(of_char c :: nat) < 2 ^ LENGTH(8)"
    using of_char_nat_less [of c] by simp
  then show ?thesis by (rule unat_of_nat_len)
qed

lemma bytes_string_inverse [simp]: "bytes_of_string (string_of_bytes bs) = bs"
  by (simp add: bytes_of_string_def string_of_bytes_def comp_def map_idI)

lemma string_bytes_inverse [simp]: "string_of_bytes (bytes_of_string s) = s"
  by (simp add: bytes_of_string_def string_of_bytes_def comp_def)

lemma length_string_of_bytes [simp]: "length (string_of_bytes bs) = length bs"
  by (simp add: string_of_bytes_def)

lemma length_bytes_of_string [simp]: "length (bytes_of_string s) = length s"
  by (simp add: bytes_of_string_def)

lemma string_of_bytes_inject [simp]:
  "string_of_bytes as = string_of_bytes bs \<longleftrightarrow> as = bs"
  by (metis bytes_string_inverse)

text \<open>\<^verbatim>\<open>b[i:j]\<close> of a slice long enough to be cut there.\<close>

definition slice :: "nat \<Rightarrow> nat \<Rightarrow> 'a list \<Rightarrow> 'a list" where
  "slice i j xs = take (j - i) (drop i xs)"

lemma length_slice [simp]: "j \<le> length xs \<Longrightarrow> length (slice i j xs) = j - i"
  by (simp add: slice_def)

lemma slice_append_exact:
  "length as = i \<Longrightarrow> length bs = j - i \<Longrightarrow> slice i j (as @ bs @ cs) = bs"
  by (simp add: slice_def)

text \<open>Results: an error on the left, a value on the right.\<close>

definition is_ok :: "'e + 'a \<Rightarrow> bool" where
  "is_ok r = (case r of Inl _ \<Rightarrow> False | Inr _ \<Rightarrow> True)"

lemma is_ok_simps [simp]: "is_ok (Inr x)" "\<not> is_ok (Inl e)"
  by (simp_all add: is_ok_def)

section \<open>Little-endian integers (encoding/binary)\<close>

text \<open>
  \<^verbatim>\<open>binary.LittleEndian.PutUintN\<close> and \<^verbatim>\<open>UintN\<close>, over the number of bytes: the lowest byte
  comes first.
\<close>

fun le_bytes :: "nat \<Rightarrow> nat \<Rightarrow> bytes" where
  "le_bytes 0 v = []"
| "le_bytes (Suc n) v = of_nat v # le_bytes n (v div 256)"

fun le_val :: "bytes \<Rightarrow> nat" where
  "le_val [] = 0"
| "le_val (b # bs) = unat b + 256 * le_val bs"

lemma length_le_bytes [simp]: "length (le_bytes n v) = n"
  by (induction n arbitrary: v) auto

lemma unat_byte_of_nat: "unat (of_nat v :: byte) = v mod 256"
  by (simp add: unat_of_nat)

lemma le_val_le_bytes: "le_val (le_bytes n v) = v mod 256 ^ n"
proof (induction n arbitrary: v)
  case 0
  then show ?case by simp
next
  case (Suc n)
  have "v mod (256 * 256 ^ n) = 256 * (v div 256 mod 256 ^ n) + v mod 256"
    by (rule mod_mult2_eq)
  with Suc show ?case by (simp add: unat_byte_of_nat)
qed

lemma le_val_bound: "le_val bs < 256 ^ length bs"
proof (induction bs)
  case Nil
  then show ?case by simp
next
  case (Cons b bs)
  have "u + 256 * v < 256 * k" if "u < 256" "v < k" for u v k :: nat
    using that by linarith
  from this [OF unat_byte_less Cons, of b] show ?case by simp
qed

lemma le_bytes_le_val: "le_bytes (length bs) (le_val bs) = bs"
proof (induction bs)
  case Nil
  then show ?case by simp
next
  case (Cons b bs)
  have b: "unat b < 256"
    by simp
  then have "(unat b + 256 * le_val bs) div 256 = le_val bs"
    by simp
  moreover have "(of_nat (unat b + 256 * le_val bs) :: byte) = b"
  proof -
    have "unat (of_nat (unat b + 256 * le_val bs) :: byte) = unat b"
      by (simp add: unat_byte_of_nat del: of_nat_add)
    then show ?thesis by (simp add: word_unat_eq_iff)
  qed
  ultimately show ?case using Cons by (simp del: of_nat_add)
qed

definition PutUint16 :: "u16 \<Rightarrow> bytes" where "PutUint16 w = le_bytes 2 (unat w)"
definition PutUint32 :: "u32 \<Rightarrow> bytes" where "PutUint32 w = le_bytes 4 (unat w)"
definition PutUint64 :: "u64 \<Rightarrow> bytes" where "PutUint64 w = le_bytes 8 (unat w)"
definition Uint16 :: "bytes \<Rightarrow> u16" where "Uint16 bs = of_nat (le_val (take 2 bs))"
definition Uint32 :: "bytes \<Rightarrow> u32" where "Uint32 bs = of_nat (le_val (take 4 bs))"
definition Uint64 :: "bytes \<Rightarrow> u64" where "Uint64 bs = of_nat (le_val (take 8 bs))"

lemma length_PutUint [simp]:
  "length (PutUint16 v) = 2" "length (PutUint32 w) = 4" "length (PutUint64 x) = 8"
  by (simp_all add: PutUint16_def PutUint32_def PutUint64_def)

lemma Uint16_PutUint16 [le_simps]: "Uint16 (PutUint16 w @ bs) = w"
  using unat_lt2p [of w] by (simp add: Uint16_def PutUint16_def le_val_le_bytes)

lemma Uint32_PutUint32 [le_simps]: "Uint32 (PutUint32 w @ bs) = w"
  using unat_lt2p [of w] by (simp add: Uint32_def PutUint32_def le_val_le_bytes)

lemma Uint64_PutUint64 [le_simps]: "Uint64 (PutUint64 w @ bs) = w"
  using unat_lt2p [of w] by (simp add: Uint64_def PutUint64_def le_val_le_bytes)

lemma Uint64_PutUint64_nil [le_simps]: "Uint64 (PutUint64 w) = w"
  using Uint64_PutUint64 [of w "[]"] by simp

lemma Uint16_PutUint16_nil [le_simps]: "Uint16 (PutUint16 w) = w"
  using Uint16_PutUint16 [of w "[]"] by simp

lemma Uint32_PutUint32_nil [le_simps]: "Uint32 (PutUint32 w) = w"
  using Uint32_PutUint32 [of w "[]"] by simp

lemma PutUint16_Uint16 [le_simps]:
  assumes "length bs = 2"
  shows "PutUint16 (Uint16 bs) = bs"
proof -
  have "le_val bs < 2 ^ LENGTH(16)"
    using le_val_bound [of bs] assms by simp
  then have "unat (of_nat (le_val bs) :: u16) = le_val bs"
    by (rule unat_of_nat_len)
  then show ?thesis
    using le_bytes_le_val [of bs] assms by (simp add: PutUint16_def Uint16_def)
qed

lemma PutUint32_Uint32 [le_simps]:
  assumes "length bs = 4"
  shows "PutUint32 (Uint32 bs) = bs"
proof -
  have "le_val bs < 2 ^ LENGTH(32)"
    using le_val_bound [of bs] assms by simp
  then have "unat (of_nat (le_val bs) :: u32) = le_val bs"
    by (rule unat_of_nat_len)
  then show ?thesis
    using le_bytes_le_val [of bs] assms by (simp add: PutUint32_def Uint32_def)
qed

lemma PutUint64_Uint64 [le_simps]:
  assumes "length bs = 8"
  shows "PutUint64 (Uint64 bs) = bs"
proof -
  have "le_val bs < 2 ^ LENGTH(64)"
    using le_val_bound [of bs] assms by simp
  then have "unat (of_nat (le_val bs) :: u64) = le_val bs"
    by (rule unat_of_nat_len)
  then show ?thesis
    using le_bytes_le_val [of bs] assms by (simp add: PutUint64_def Uint64_def)
qed

lemma unat_Uint16: "length bs = 2 \<Longrightarrow> unat (Uint16 bs) = le_val bs"
  using le_val_bound [of bs] by (simp add: Uint16_def unat_of_nat)

section \<open>Buffered channels\<close>

text \<open>
  A buffered Go channel as its queued values and its capacity. The program sends to its
  log, time-log and measurement channels only with \<^verbatim>\<open>select { case ch <- x: default: }\<close>,
  which queues the value when there is room and drops it otherwise.
\<close>

record 'a chan =
  ch_buf :: "'a list"
  ch_cap :: nat

definition make_chan :: "nat \<Rightarrow> 'a chan" where
  "make_chan n = \<lparr>ch_buf = [], ch_cap = n\<rparr>"

definition try_send :: "'a \<Rightarrow> 'a chan \<Rightarrow> 'a chan \<times> bool" where
  "try_send x c =
     (if length (ch_buf c) < ch_cap c then (c\<lparr>ch_buf := ch_buf c @ [x]\<rparr>, True) else (c, False))"

definition chan_recv :: "'a chan \<Rightarrow> ('a \<times> 'a chan) option" where
  "chan_recv c = (case ch_buf c of [] \<Rightarrow> None | x # xs \<Rightarrow> Some (x, c\<lparr>ch_buf := xs\<rparr>))"

definition chan_wf :: "'a chan \<Rightarrow> bool" where
  "chan_wf c \<longleftrightarrow> length (ch_buf c) \<le> ch_cap c"

lemma chan_wf_make [simp]: "chan_wf (make_chan n)"
  by (simp add: chan_wf_def make_chan_def)

section \<open>Interface: a bounded queue that never blocks its producer\<close>

locale bounded_queue =
  fixes send :: "'a \<Rightarrow> 'q \<Rightarrow> 'q \<times> bool"
    and contents :: "'q \<Rightarrow> 'a list"
    and capacity :: "'q \<Rightarrow> nat"
  assumes send_contents:
      "contents (fst (send x q)) = (if snd (send x q) then contents q @ [x] else contents q)"
    and send_capacity: "capacity (fst (send x q)) = capacity q"
    and send_accepts: "snd (send x q) \<longleftrightarrow> length (contents q) < capacity q"
begin

fun send_all :: "'a list \<Rightarrow> 'q \<Rightarrow> 'q" where
  "send_all [] q = q"
| "send_all (x # xs) q = send_all xs (fst (send x q))"

lemma send_bound:
  "length (contents q) \<le> capacity q \<Longrightarrow> length (contents (fst (send x q))) \<le> capacity (fst (send x q))"
  by (auto simp: send_contents send_capacity send_accepts)

lemma send_keeps_queued: "\<exists>ys. contents (fst (send x q)) = contents q @ ys"
  by (simp add: send_contents)

text \<open>The queue keeps the oldest values: what fits is kept in order, the rest is dropped.\<close>

lemma send_all_contents:
  assumes "length (contents q) \<le> capacity q"
  shows "contents (send_all xs q) = contents q @ take (capacity q - length (contents q)) xs"
  using assms
proof (induction xs arbitrary: q)
  case Nil
  then show ?case by simp
next
  case (Cons x xs)
  show ?case
  proof (cases "length (contents q) < capacity q")
    case True
    then obtain k where "capacity q = Suc (length (contents q) + k)"
      by (metis less_iff_Suc_add)
    with True Cons show ?thesis
      by (simp add: send_contents send_capacity send_accepts)
  next
    case False
    with Cons show ?thesis
      by (simp add: send_contents send_capacity send_accepts)
  qed
qed

end

interpretation chan: bounded_queue try_send ch_buf ch_cap
  by unfold_locales (auto simp: try_send_def)

lemma try_send_wf [simp]: "chan_wf c \<Longrightarrow> chan_wf (fst (try_send x c))"
  unfolding chan_wf_def by (rule chan.send_bound)

section \<open>Interface: a window of recent values\<close>

definition last_n :: "nat \<Rightarrow> 'a list \<Rightarrow> 'a list" where
  "last_n n xs = drop (length xs - n) xs"

lemma length_last_n [simp]: "length (last_n n xs) = min n (length xs)"
  by (simp add: last_n_def)

lemma last_n_all [simp]: "length xs \<le> n \<Longrightarrow> last_n n xs = xs"
  by (simp add: last_n_def)

lemma last_n_append: "last_n n (last_n n xs @ ys) = last_n n (xs @ ys)"
  by (cases "n \<le> length xs") (auto simp: last_n_def add.commute)

lemma last_n_snoc: "0 < n \<Longrightarrow> length xs = n \<Longrightarrow> last_n n (xs @ [x]) = tl xs @ [x]"
  by (simp add: last_n_def drop_Suc)

text \<open>A store that keeps the most recent values up to a fixed number.\<close>

locale recent_window =
  fixes add :: "'a \<Rightarrow> 's \<Rightarrow> 's"
    and contents :: "'s \<Rightarrow> 'a list"
    and size_limit :: nat
    and valid :: "'s \<Rightarrow> bool"
  assumes add_contents: "valid s \<Longrightarrow> contents (add x s) = last_n size_limit (contents s @ [x])"
    and add_valid: "valid s \<Longrightarrow> valid (add x s)"
    and valid_size: "valid s \<Longrightarrow> length (contents s) \<le> size_limit"
begin

lemma add_all: "valid s \<Longrightarrow> contents (fold add xs s) = last_n size_limit (contents s @ xs) \<and> valid (fold add xs s)"
proof (induction xs arbitrary: s)
  case Nil
  then show ?case
    by (simp add: valid_size)
next
  case (Cons x xs)
  then show ?case
    using last_n_append [of size_limit "contents s @ [x]" xs] by (simp add: add_contents add_valid)
qed

end

section \<open>Interface: codecs\<close>

text \<open>
  An encoder and a decoder on a set of well-formed values: decoding what was encoded
  gives the value back, and a buffer is accepted only when it is the encoding of the
  value returned.
\<close>

locale codec =
  fixes enc :: "'v \<Rightarrow> 'b list"
    and dec :: "'b list \<Rightarrow> 'e + 'v"
    and valid :: "'v \<Rightarrow> bool"
  assumes dec_enc: "valid v \<Longrightarrow> dec (enc v) = Inr v"
    and enc_dec: "dec bs = Inr v \<Longrightarrow> valid v \<and> enc v = bs"
begin

lemma dec_iff: "dec bs = Inr v \<longleftrightarrow> valid v \<and> bs = enc v"
  using dec_enc enc_dec by blast

lemma enc_inject: "valid v \<Longrightarrow> valid w \<Longrightarrow> enc v = enc w \<longleftrightarrow> v = w"
  by (metis dec_enc sum.inject(2))

lemma accepted_unique: "dec bs = Inr v \<Longrightarrow> dec cs = Inr v \<Longrightarrow> bs = cs"
  using enc_dec by blast

end

section \<open>Interface: transition systems\<close>

locale transition_system =
  fixes init :: "'s \<Rightarrow> bool"
    and step :: "'s \<Rightarrow> 's \<Rightarrow> bool"
begin

inductive reach :: "'s \<Rightarrow> bool" where
  reach_init: "init s \<Longrightarrow> reach s"
| reach_step: "reach s \<Longrightarrow> step s t \<Longrightarrow> reach t"

lemma invariant:
  assumes "reach s"
    and "\<And>s. init s \<Longrightarrow> P s"
    and "\<And>s t. reach s \<Longrightarrow> P s \<Longrightarrow> step s t \<Longrightarrow> P t"
  shows "P s"
  using assms by (induction rule: reach.induct) blast+

end

end
