(* ===== verification/Go_Time.thy ===== *)
theory Go_Time
  imports Prelude
begin

text \<open>
  What the program uses of package \<^verbatim>\<open>time\<close>. An instant is the integer number of nanoseconds
  since the Unix epoch, a duration a number of nanoseconds; \<^verbatim>\<open>Sub\<close> saturates at the range
  of a 64-bit duration. A calendar day is the number of days since the epoch (UTC), with
  its Gregorian date; the layouts \<^verbatim>\<open>2006-01-02\<close> and \<^verbatim>\<open>2006-01-02 15:04:05.000\<close> are printed,
  the former is also parsed. The main fact is that printing a day and parsing it again
  gives the day back, on which the retention of the log folders rests.
\<close>

section \<open>Instants and durations\<close>

type_synonym time = int
type_synonym duration = int

definition Millisecond :: duration where "Millisecond = 1000000"
definition Second :: duration where "Second = 1000000000"
definition Minute :: duration where "Minute = 60 * Second"
definition Hour :: duration where "Hour = 60 * Minute"
definition Day :: duration where "Day = 24 * Hour"

lemmas duration_defs = Millisecond_def Second_def Minute_def Hour_def Day_def

definition maxDuration :: duration where "maxDuration = 2 ^ 63 - 1"
definition minDuration :: duration where "minDuration = - (2 ^ 63)"

definition time_Sub :: "time \<Rightarrow> time \<Rightarrow> duration" where
  "time_Sub t u = max minDuration (min maxDuration (t - u))"

definition UnixMilli :: "time \<Rightarrow> int" where
  "UnixMilli t = t div Millisecond"

text \<open>\<^verbatim>\<open>time.UnixMilli(ms)\<close> and \<^verbatim>\<open>uint64(t.UnixMilli())\<close>.\<close>

definition time_of_ms :: "int \<Rightarrow> time" where
  "time_of_ms ms = ms * Millisecond"

definition ms_word :: "time \<Rightarrow> u64" where
  "ms_word t = word_of_int (UnixMilli t)"

lemma UnixMilli_time_of_ms [simp]: "UnixMilli (time_of_ms ms) = ms"
  by (simp add: UnixMilli_def time_of_ms_def Millisecond_def)

lemma UnixMilli_bounds:
  "UnixMilli t * Millisecond \<le> t \<and> t < UnixMilli t * Millisecond + Millisecond"
  by (simp add: UnixMilli_def Millisecond_def) linarith

lemma sint_word_of_int_64:
  assumes "- (2 ^ 63) \<le> k" "k < 2 ^ 63"
  shows "sint (word_of_int k :: u64) = k"
proof -
  have "sint (word_of_int k :: u64) = signed_take_bit 63 k"
    by (simp add: signed_of_int)
  also have "\<dots> = k"
    using assms by (simp add: signed_take_bit_int_eq_self)
  finally show ?thesis .
qed

section \<open>Dates\<close>

definition leap :: "int \<Rightarrow> bool" where
  "leap y \<longleftrightarrow> 4 dvd y \<and> (\<not> 100 dvd y \<or> 400 dvd y)"

definition month_lengths :: "bool \<Rightarrow> int list" where
  "month_lengths l = [31, if l then 29 else 28, 31, 30, 31, 30, 31, 31, 30, 31, 30, 31]"

text \<open>Days from 1 January of year 1 to 1 January of year \<open>y + 1\<close>, and to the epoch.\<close>

definition days_of_years :: "int \<Rightarrow> int" where
  "days_of_years y = 365 * y + y div 4 - y div 100 + y div 400"

definition unix_epoch_day :: int where
  "unix_epoch_day = 719162"

text \<open>
  The year and the day in it of an absolute day: cycles of 400, 100, 4 and 1 years, where
  the last century and the last year of a cycle may be a day longer.
\<close>

definition year_of_day :: "int \<Rightarrow> int \<times> int" where
  "year_of_day a =
     (let n400 = a div 146097; d = a mod 146097;
          n100 = min 3 (d div 36524); d = d - 36524 * n100;
          n4 = d div 1461; d = d mod 1461;
          n1 = min 3 (d div 365); d = d - 365 * n1
      in (400 * n400 + 100 * n100 + 4 * n4 + n1 + 1, d))"

fun month_of_yday :: "int list \<Rightarrow> int \<Rightarrow> int \<Rightarrow> int \<times> int" where
  "month_of_yday [] m d = (m, d + 1)"
| "month_of_yday (l # ls) m d = (if d < l then (m, d + 1) else month_of_yday ls (m + 1) (d - l))"

text \<open>The Gregorian date of a day, counted from the Unix epoch, and back.\<close>

definition date_of_day :: "int \<Rightarrow> int \<times> int \<times> int" where
  "date_of_day z =
     (let (y, yday) = year_of_day (z + unix_epoch_day);
          (m, d) = month_of_yday (month_lengths (leap y)) 1 yday
      in (y, m, d))"

definition day_of_date :: "int \<Rightarrow> int \<Rightarrow> int \<Rightarrow> int" where
  "day_of_date y m d =
     days_of_years (y - 1) + sum_list (take (nat (m - 1)) (month_lengths (leap y))) + d - 1
     - unix_epoch_day"

definition daysIn :: "int \<Rightarrow> int \<Rightarrow> int" where
  "daysIn m y = month_lengths (leap y) ! nat (m - 1)"

lemma era_quot:
  fixes x k :: int
  assumes "0 < k" "0 \<le> x" "x \<le> 4 * k" "n = min 3 (x div k)"
  shows "0 \<le> n" "n \<le> 3" "0 \<le> x - k * n" "x - k * n \<le> k" "n < 3 \<Longrightarrow> x - k * n < k"
proof -
  have q: "0 \<le> x div k"
    using assms by (simp add: pos_imp_zdiv_nonneg_iff)
  then show "0 \<le> n" "n \<le> 3"
    using assms(4) by simp_all
  have "0 \<le> x - k * n \<and> x - k * n \<le> k \<and> (n < 3 \<longrightarrow> x - k * n < k)"
  proof (cases "3 \<le> x div k")
    case True
    then have "k * 3 \<le> k * (x div k)"
      using assms(1) by (intro mult_left_mono) simp_all
    moreover have "k * (x div k) \<le> x"
      using assms(1) by (simp add: mult_div_mod_eq flip: minus_mod_eq_mult_div)
    ultimately show ?thesis
      using True assms(3,4) by simp
  next
    case False
    then have "x - k * n = x mod k"
      using assms(4) by (simp add: minus_mult_div_eq_mod)
    then show ?thesis
      using assms(1) by (simp add: less_imp_le)
  qed
  then show "0 \<le> x - k * n" "x - k * n \<le> k" "n < 3 \<Longrightarrow> x - k * n < k"
    by blast+
qed

lemma year_of_day_correct:
  assumes "year_of_day a = (y, d)"
  shows "a = days_of_years (y - 1) + d \<and> 0 \<le> d \<and> d < 365 + of_bool (leap y)"
proof -
  define n400 d1 where "n400 = a div 146097" and "d1 = a mod 146097"
  define n100 where "n100 = min 3 (d1 div 36524)"
  define d2 where "d2 = d1 - 36524 * n100"
  define n4 d3 where "n4 = d2 div 1461" and "d3 = d2 mod 1461"
  define n1 where "n1 = min 3 (d3 div 365)"
  note defs = n400_def d1_def n100_def d2_def n4_def d3_def n1_def
  have y: "y = 400 * n400 + 100 * n100 + 4 * n4 + n1 + 1" and d: "d = d3 - 365 * n1"
    using assms unfolding year_of_day_def Let_def defs prod.inject by metis+
  have b1: "0 \<le> d1" "d1 < 146097" "a = 146097 * n400 + d1"
    by (simp_all add: defs)
  have b2: "0 \<le> n100" "n100 \<le> 3" "0 \<le> d2" "d2 \<le> 36524" "n100 < 3 \<Longrightarrow> d2 < 36524"
    using era_quot [OF _ _ _ n100_def] b1(1,2) unfolding d2_def by simp_all
  have b3: "0 \<le> n4" "n4 \<le> 24" "0 \<le> d3" "d3 < 1461"
    using b2 zdiv_mono1 [of d2 36524 1461] by (simp_all add: n4_def d3_def pos_imp_zdiv_nonneg_iff)
  have b3': "d2 = 1461 * n4 + d3"
    by (simp add: n4_def d3_def)
  have b4: "0 \<le> n1" "n1 \<le> 3" "0 \<le> d" "d \<le> 365" "n1 < 3 \<Longrightarrow> d < 365"
    using era_quot [OF _ _ _ n1_def] b3(3,4) unfolding d by simp_all
  have q: "(y - 1) div 4 = 100 * n400 + 25 * n100 + n4"
    "(y - 1) div 100 = 4 * n400 + n100" "(y - 1) div 400 = n400"
    by (rule int_div_pos_eq [where r = n1], use y b4 in simp_all)
      (rule int_div_pos_eq [where r = "4 * n4 + n1"], use y b3 b4 in simp_all,
        rule int_div_pos_eq [where r = "100 * n100 + 4 * n4 + n1"], use y b2 b3 b4 in simp_all)
  have "a = days_of_years (y - 1) + d"
  proof -
    have "days_of_years (y - 1)
        = 365 * (y - 1) + (100 * n400 + 25 * n100 + n4) - (4 * n400 + n100) + n400"
      by (simp only: days_of_years_def q)
    moreover have "365 * (y - 1) + (100 * n400 + 25 * n100 + n4) - (4 * n400 + n100) + n400 + d = a"
      using b1(3) b3' d2_def unfolding y d by simp
    ultimately show ?thesis
      by simp
  qed
  moreover have "leap y" if "d = 365"
  proof -
    have "n1 = 3"
      using that b4 by linarith
    have "n4 < 24 \<or> n100 = 3"
    proof (rule ccontr)
      assume "\<not> ?thesis"
      then have "n4 = 24" "d2 < 36524"
        using b2 b3 by linarith+
      then have "d3 < 1460"
        using b3' by linarith
      with that \<open>n1 = 3\<close> show False
        by (simp add: d)
    qed
    moreover have "y = 4 * (100 * n400 + 25 * n100 + n4 + 1)"
      using \<open>n1 = 3\<close> y by simp
    ultimately have "y = 400 * (n400 + 1) \<or> y = 100 * (4 * n400 + n100) + 4 * (n4 + 1) \<and> n4 < 24"
      using b3 by auto
    then show ?thesis
    proof
      assume "y = 400 * (n400 + 1)"
      then have "400 dvd y"
        by (rule dvdI)
      moreover from this have "4 dvd y"
        by (rule dvd_trans [rotated]) simp
      ultimately show ?thesis by (simp add: leap_def)
    next
      assume y: "y = 100 * (4 * n400 + n100) + 4 * (n4 + 1) \<and> n4 < 24"
      then have "y mod 100 = 4 * (n4 + 1) mod 100"
        by (simp only: mod_mult_self4)
      also have "\<dots> = 4 * (n4 + 1)"
        using b3(1) conjunct2 [OF y] by (simp add: mod_pos_pos_trivial)
      finally have "y mod 100 = 4 * (n4 + 1)" .
      then have "\<not> 100 dvd y"
        using b3 by (simp add: dvd_eq_mod_eq_0)
      moreover have "y = 4 * (25 * (4 * n400 + n100) + n4 + 1)"
        using y by simp
      then have "4 dvd y"
        by (rule dvdI)
      ultimately show ?thesis by (simp add: leap_def)
    qed
  qed
  ultimately show ?thesis
    using b4 by (cases "d = 365") (simp_all add: of_bool_def)
qed

lemma month_of_yday_correct:
  assumes "0 \<le> d" "d < sum_list ls" "month_of_yday ls m d = (m', d')"
  shows "\<exists>k < length ls. m' = m + int k \<and> 1 \<le> d' \<and> d' \<le> ls ! k \<and> d = sum_list (take k ls) + d' - 1"
  using assms
proof (induction ls m d rule: month_of_yday.induct)
  case (1 m d)
  then show ?case by simp
next
  case (2 l ls m d)
  show ?case
  proof (cases "d < l")
    case True
    with 2 show ?thesis by (auto intro!: exI [of _ 0])
  next
    case False
    with 2 obtain k where "k < length ls" "m' = m + 1 + int k" "1 \<le> d'" "d' \<le> ls ! k"
      "d - l = sum_list (take k ls) + d' - 1"
      by auto
    then show ?thesis by (auto intro!: exI [of _ "Suc k"])
  qed
qed

lemma sum_month_lengths: "sum_list (month_lengths l) = 365 + of_bool l"
  by (simp add: month_lengths_def)

lemma length_month_lengths [simp]: "length (month_lengths l) = 12"
  by (simp add: month_lengths_def)

lemma date_of_day_correct:
  assumes "date_of_day z = (y, m, d)"
  shows "day_of_date y m d = z \<and> 1 \<le> m \<and> m \<le> 12 \<and> 1 \<le> d \<and> d \<le> daysIn m y"
proof -
  from assms obtain yday where yd: "year_of_day (z + unix_epoch_day) = (y, yday)"
    and md: "month_of_yday (month_lengths (leap y)) 1 yday = (m, d)"
    by (auto simp: date_of_day_def split: prod.splits)
  from year_of_day_correct [OF yd]
  have z: "z + unix_epoch_day = days_of_years (y - 1) + yday"
    and b: "0 \<le> yday" "yday < sum_list (month_lengths (leap y))"
    by (auto simp: sum_month_lengths)
  from month_of_yday_correct [OF b md]
  obtain k where "k < 12" "m = 1 + int k" "1 \<le> d" "d \<le> month_lengths (leap y) ! k"
    "yday = sum_list (take k (month_lengths (leap y))) + d - 1"
    by auto
  with z show ?thesis
    by (simp add: day_of_date_def daysIn_def)
qed

section \<open>Printing and parsing\<close>

definition digit :: "int \<Rightarrow> char" where
  "digit n = char_of (48 + nat n)"

definition undigit :: "char \<Rightarrow> int option" where
  "undigit c = (let n = of_char c in if 48 \<le> n \<and> n \<le> 57 then Some (int n - 48) else None)"

definition pad2 :: "int \<Rightarrow> string" where
  "pad2 n = [digit (n div 10 mod 10), digit (n mod 10)]"

definition pad3 :: "int \<Rightarrow> string" where
  "pad3 n = [digit (n div 100 mod 10), digit (n div 10 mod 10), digit (n mod 10)]"

definition pad4 :: "int \<Rightarrow> string" where
  "pad4 n = [digit (n div 1000 mod 10), digit (n div 100 mod 10), digit (n div 10 mod 10), digit (n mod 10)]"

text \<open>The day of an instant (UTC), \<^verbatim>\<open>2006-01-02\<close> for years of four digits.\<close>

definition day_of_time :: "time \<Rightarrow> int" where
  "day_of_time t = t div Day"

definition format_date :: "int \<Rightarrow> string" where
  "format_date z = (let (y, m, d) = date_of_day z in pad4 y @ ''-'' @ pad2 m @ ''-'' @ pad2 d)"

definition format_day :: "time \<Rightarrow> string" where
  "format_day t = format_date (day_of_time t)"

text \<open>\<^verbatim>\<open>15:04:05.000\<close>: the fraction is cut, not rounded.\<close>

definition format_clock :: "time \<Rightarrow> string" where
  "format_clock t =
     (let ns = t mod Day; s = ns div Second in
      pad2 (s div 3600) @ '':'' @ pad2 (s div 60 mod 60) @ '':'' @ pad2 (s mod 60) @ ''.''
      @ pad3 (ns div Millisecond mod 1000))"

definition format_stamp :: "time \<Rightarrow> string" where
  "format_stamp t = format_day t @ '' '' @ format_clock t"

text \<open>
  \<^verbatim>\<open>time.Parse("2006-01-02", s)\<close>: four, two and two digits between hyphens, a month of 1 to 12
  and a day of that month; anything else is an error.
\<close>

fun parse_num :: "string \<Rightarrow> int \<Rightarrow> int option" where
  "parse_num [] acc = Some acc"
| "parse_num (c # cs) acc = (case undigit c of None \<Rightarrow> None | Some v \<Rightarrow> parse_num cs (10 * acc + v))"

definition parse_date :: "string \<Rightarrow> int option" where
  "parse_date s =
     (if length s = 10 \<and> s ! 4 = CHR ''-'' \<and> s ! 7 = CHR ''-''
      then case (parse_num (slice 0 4 s) 0, parse_num (slice 5 7 s) 0, parse_num (slice 8 10 s) 0) of
          (Some y, Some m, Some d) \<Rightarrow>
            if 1 \<le> m \<and> m \<le> 12 \<and> 1 \<le> d \<and> d \<le> daysIn m y then Some (day_of_date y m d) else None
        | _ \<Rightarrow> None
      else None)"

lemma undigit_digit: "0 \<le> n \<Longrightarrow> n < 10 \<Longrightarrow> undigit (digit n) = Some n"
  by (simp add: undigit_def digit_def of_char_of Let_def)

lemma parse_pad2: "0 \<le> n \<Longrightarrow> n < 100 \<Longrightarrow> parse_num (pad2 n) 0 = Some n"
  by (simp add: pad2_def undigit_digit)

lemma parse_digits4:
  assumes "0 \<le> a" "a < 10" "0 \<le> b" "b < 10" "0 \<le> c" "c < 10" "0 \<le> d" "d < 10"
  shows "parse_num [digit a, digit b, digit c, digit d] 0 = Some (10 * (10 * (10 * a + b) + c) + d)"
  using assms by (simp add: undigit_digit)

lemma parse_pad4:
  assumes "0 \<le> n" "n < 10000"
  shows "parse_num (pad4 n) 0 = Some n"
proof -
  have q: "n div 100 = n div 10 div 10" "n div 1000 = n div 10 div 10 div 10"
    using zdiv_zmult2_eq [of 10 n 10] zdiv_zmult2_eq [of 10 n 100] zdiv_zmult2_eq [of 10 "n div 10" 10]
    by simp_all
  have "10 * (10 * (10 * (c mod 10) + b mod 10) + a mod 10) + n mod 10 = n"
    if "a = n div 10" "b = a div 10" "c = b div 10" for a b c
  proof -
    have e: "10 * c + b mod 10 = b" "10 * b + a mod 10 = a" "10 * a + n mod 10 = n"
      using that by simp_all
    have c: "c mod 10 = c"
      using assms that by (intro mod_pos_pos_trivial) linarith+
    show ?thesis
      unfolding c unfolding e(1) unfolding e(2) by (rule e(3))
  qed
  from this [OF refl refl refl] show ?thesis
    unfolding q(2) [symmetric] unfolding q(1) [symmetric] pad4_def
    by (subst parse_digits4) (simp_all only: pos_mod_sign pos_mod_bound zero_less_numeral)
qed

lemma length_pads [simp]: "length (pad2 n) = 2" "length (pad4 n) = 4"
  by (simp_all add: pad2_def pad4_def)

definition printable_day :: "int \<Rightarrow> bool" where
  "printable_day z \<longleftrightarrow> 0 \<le> fst (date_of_day z) \<and> fst (date_of_day z) \<le> 9999"

lemma daysIn_le: "1 \<le> m \<Longrightarrow> m \<le> 12 \<Longrightarrow> daysIn m y \<le> 31"
proof -
  assume "1 \<le> m" "m \<le> 12"
  then have "nat (m - 1) < length (month_lengths (leap y))"
    by simp
  then have "daysIn m y \<in> set (month_lengths (leap y))"
    unfolding daysIn_def by (rule nth_mem)
  then show ?thesis
    by (auto simp: month_lengths_def split: if_splits)
qed

lemma parse_date_format_date:
  assumes "printable_day z"
  shows "parse_date (format_date z) = Some z"
proof -
  obtain y m d where ymd: "date_of_day z = (y, m, d)"
    by (cases "date_of_day z") auto
  note c = date_of_day_correct [OF ymd]
  have y: "0 \<le> y" "y < 10000"
    using assms ymd by (auto simp: printable_day_def)
  have "d \<le> 31"
    using c daysIn_le [of m y] by simp
  let ?s = "pad4 y @ ''-'' @ pad2 m @ ''-'' @ pad2 d"
  have parts: "slice 0 4 ?s = pad4 y" "slice 5 7 ?s = pad2 m" "slice 8 10 ?s = pad2 d"
    "length ?s = 10" "?s ! 4 = CHR ''-''" "?s ! 7 = CHR ''-''"
    by (simp_all add: slice_def pad4_def pad2_def)
  have nums: "parse_num (pad4 y) 0 = Some y" "parse_num (pad2 m) 0 = Some m" "parse_num (pad2 d) 0 = Some d"
    using c y \<open>d \<le> 31\<close> by (auto intro: parse_pad4 parse_pad2)
  have "format_date z = ?s"
    by (simp add: format_date_def ymd)
  then show ?thesis
    using c by (simp only: parse_date_def parts nums) simp
qed

end
