(* ===== verification/Database.thy ===== *)
theory Database
  imports Go_Time "HOL-Library.AList"
begin

text \<open>
  The tables of \<^verbatim>\<open>src/migrations/0001_init.sql\<close> that the stores read and write, and
  the effect of the SQL statements they use. A table is an association list from its
  primary key to the other columns; a nullable column is an option. Uniqueness and foreign
  keys are checked as the schema declares them (\<^verbatim>\<open>updated_by\<close> is set to null and sessions are
  deleted when their user is), and their violation is an error of the statement. Any
  statement may also fail for a reason outside the schema: \<open>db_fault\<close> of the environment of
  the call, which also has the clock of the database (\<open>db_now\<close>, SQL \<^verbatim>\<open>now()\<close>) and the clock of
  the server (\<open>go_now\<close>). The rounding of stored times to microseconds is not modelled.
\<close>

section \<open>Interface: tables with a primary key\<close>

locale keyed_table =
  fixes find :: "'t \<Rightarrow> 'k \<Rightarrow> 'r option"
    and put :: "'k \<Rightarrow> 'r \<Rightarrow> 't \<Rightarrow> 't"
    and remove :: "'k \<Rightarrow> 't \<Rightarrow> 't"
    and rows :: "'t \<Rightarrow> ('k \<times> 'r) set"
    and good :: "'t \<Rightarrow> bool"
  assumes find_put: "find (put k r t) j = (if j = k then Some r else find t j)"
    and find_remove: "find (remove k t) j = (if j = k then None else find t j)"
    and rows_find: "good t \<Longrightarrow> (k, r) \<in> rows t \<longleftrightarrow> find t k = Some r"
    and good_put: "good t \<Longrightarrow> good (put k r t)"
    and good_remove: "good t \<Longrightarrow> good (remove k t)"
begin

lemma rows_put: "good t \<Longrightarrow> rows (put k r t) = insert (k, r) {(j, q) \<in> rows t. j \<noteq> k}"
  by (auto simp: rows_find good_put find_put split: if_splits)

lemma rows_remove: "good t \<Longrightarrow> rows (remove k t) = {(j, q) \<in> rows t. j \<noteq> k}"
  by (auto simp: rows_find good_remove find_remove split: if_splits)

lemma put_all:
  "good t \<Longrightarrow> (\<forall>(j, q) \<in> rows t. P j q) \<Longrightarrow> P k r \<Longrightarrow> \<forall>(j, q) \<in> rows (put k r t). P j q"
  by (auto simp: rows_put)

lemma remove_all: "good t \<Longrightarrow> (\<forall>(j, q) \<in> rows t. P j q) \<Longrightarrow> \<forall>(j, q) \<in> rows (remove k t). P j q"
  by (auto simp: rows_remove)

end

interpretation alist: keyed_table map_of AList.update AList.delete set "\<lambda>t. distinct (map fst t)"
  by unfold_locales (auto simp: update_conv' delete_conv' distinct_update distinct_delete)

section \<open>Rows\<close>

type_synonym uuid = string

record device_row =
  password_hash :: string
  public_key :: "string option"
  registered_at :: time
  deleted_at :: "time option"
  in_service :: bool
  updated_by :: "uuid option"
  updated_at :: time
  last_seen_at :: "time option"

datatype Role = RoleUser | RolePrivileged | RoleAdmin

definition IsPrivileged :: "Role \<Rightarrow> bool" where
  "IsPrivileged r \<longleftrightarrow> r = RolePrivileged \<or> r = RoleAdmin"

definition IsAdmin :: "Role \<Rightarrow> bool" where
  "IsAdmin r \<longleftrightarrow> r = RoleAdmin"

text \<open>The role column holds a string; the three constants of \<^verbatim>\<open>models.Role\<close> are the valid ones.\<close>

definition role_name :: "Role \<Rightarrow> string" where
  "role_name r = (case r of RoleUser \<Rightarrow> ''user'' | RolePrivileged \<Rightarrow> ''privileged'' | RoleAdmin \<Rightarrow> ''admin'')"

definition parse_role :: "string \<Rightarrow> Role option" where
  "parse_role s =
     (if s = ''user'' then Some RoleUser else if s = ''privileged'' then Some RolePrivileged
      else if s = ''admin'' then Some RoleAdmin else None)"

lemma parse_role_name [simp]: "parse_role (role_name r) = Some r"
  by (cases r) (simp_all add: parse_role_def role_name_def)

record user_row =
  username :: string
  user_password_hash :: string
  role :: Role
  created_at :: time

record session_row =
  user_id :: uuid
  expires_at :: time

record database =
  devices :: "(string \<times> device_row) list"
  users :: "(uuid \<times> user_row) list"
  sessions :: "(string \<times> session_row) list"

datatype store_error =
    ErrAuthFailed | ErrNotFound
  | DbFailed | UniqueViolation | ForeignKeyViolation | ScanFailed
  | BcryptFailed | RandFailed

record db_env =
  db_fault :: bool
  db_now :: time
  go_now :: time

section \<open>Statements\<close>

text \<open>The result of a statement: an error, or the number of affected rows and the new tables.\<close>

type_synonym sql_result = "store_error + nat \<times> database"

definition has_user :: "database \<Rightarrow> uuid option \<Rightarrow> bool" where
  "has_user db u = (case u of None \<Rightarrow> True | Some i \<Rightarrow> map_of (users db) i \<noteq> None)"

text \<open>\<^verbatim>\<open>UPDATE devices SET ... WHERE id = $1 AND P\<close>, the identifier unchanged.\<close>

definition update_device ::
  "string \<Rightarrow> (device_row \<Rightarrow> bool) \<Rightarrow> (device_row \<Rightarrow> device_row) \<Rightarrow> database \<Rightarrow> sql_result" where
  "update_device devid P f db =
     (case map_of (devices db) devid of
        None \<Rightarrow> Inr (0, db)
      | Some r \<Rightarrow>
          if \<not> P r then Inr (0, db)
          else if \<not> has_user db (updated_by (f r)) then Inl ForeignKeyViolation
          else Inr (1, db\<lparr>devices := AList.update devid (f r) (devices db)\<rparr>))"

definition Exec :: "db_env \<Rightarrow> (database \<Rightarrow> sql_result) \<Rightarrow> database \<Rightarrow> sql_result" where
  "Exec e stmt db = (if db_fault e then Inl DbFailed else stmt db)"

text \<open>The integrity of the tables.\<close>

definition db_inv :: "database \<Rightarrow> bool" where
  "db_inv db \<longleftrightarrow>
     distinct (map fst (devices db)) \<and> distinct (map fst (users db)) \<and> distinct (map fst (sessions db)) \<and>
     distinct (map (\<lambda>(i, u). username u) (users db)) \<and>
     (\<forall>(i, r) \<in> set (devices db). public_key r \<noteq> None \<and> has_user db (updated_by r)) \<and>
     (\<forall>(t, s) \<in> set (sessions db). has_user db (Some (user_id s)))"

definition empty_db :: database where
  "empty_db = \<lparr>devices = [], users = [], sessions = []\<rparr>"

lemma db_inv_empty: "db_inv empty_db"
  by (simp add: db_inv_def empty_db_def)

lemma has_user_devices [simp]: "has_user (db\<lparr>devices := ds\<rparr>) u = has_user db u"
  by (simp add: has_user_def split: option.split)

lemma has_user_sessions [simp]: "has_user (db\<lparr>sessions := ss\<rparr>) u = has_user db u"
  by (simp add: has_user_def split: option.split)

lemma db_inv_devices:
  assumes "db_inv db" "distinct (map fst ds)"
    "\<forall>(i, r) \<in> set ds. public_key r \<noteq> None \<and> has_user db (updated_by r)"
  shows "db_inv (db\<lparr>devices := ds\<rparr>)"
  using assms by (simp add: db_inv_def)

lemma db_inv_device:
  "db_inv db \<Longrightarrow> map_of (devices db) i = Some r \<Longrightarrow> public_key r \<noteq> None \<and> has_user db (updated_by r)"
  by (auto simp: db_inv_def dest: map_of_SomeD)

lemma db_inv_put:
  assumes "db_inv db" "public_key r \<noteq> None" "has_user db (updated_by r)"
  shows "db_inv (db\<lparr>devices := AList.update i r (devices db)\<rparr>)"
  using assms alist.put_all [of "devices db" "\<lambda>i r. public_key r \<noteq> None \<and> has_user db (updated_by r)"]
  by (intro db_inv_devices) (auto simp: db_inv_def distinct_update)

lemma update_device_inv:
  assumes "db_inv db" "update_device i P f db = Inr (n, db')"
    "\<And>r. public_key r \<noteq> None \<Longrightarrow> public_key (f r) \<noteq> None"
  shows "db_inv db'"
  using assms db_inv_device [OF assms(1), of i]
  by (auto simp: update_device_def intro!: db_inv_put split: option.splits if_splits)

end
