(* ===== verification/Device_Store.thy ===== *)
theory Device_Store
  imports Database
begin

text \<open>
  The device store (\<^verbatim>\<open>src/internal/store/device_store.go\<close>): one definition per method, over the
  tables of theory Database. The bcrypt package is the argument \<open>bcrypt_lib\<close>. The order of
  \<^verbatim>\<open>ORDER BY id\<close> is that of the database's collation, given as a key function. The store
  refines a small registry of devices that are live or deleted, with a key and a service
  flag (\<open>registry_exec\<close>).
\<close>

section \<open>Model\<close>

definition OfflineThreshold :: duration where "OfflineThreshold = 30 * Second"

datatype bcrypt_outcome = HashMatch | ErrMismatchedHashAndPassword | HashError

record bcrypt_lib =
  GenerateFromPassword :: "string \<Rightarrow> string option"
  CompareHashAndPassword :: "string \<Rightarrow> string \<Rightarrow> bcrypt_outcome"

record Device =
  dev_ID :: string
  PublicKey :: string
  RegisteredAt :: time
  DeletedAt :: "time option"
  InService :: bool
  UpdatedBy :: "uuid option"
  UpdatedAt :: time
  LastSeenAt :: "time option"
  IsOnline :: bool

definition is_online :: "time \<Rightarrow> device_row \<Rightarrow> bool" where
  "is_online now r = (case last_seen_at r of None \<Rightarrow> False | Some t \<Rightarrow> t > now - OfflineThreshold)"

definition live :: "device_row \<Rightarrow> bool" where
  "live r \<longleftrightarrow> deleted_at r = None"

text \<open>A row is scanned into a \<^verbatim>\<open>models.Device\<close>, whose public key is a string: a null key is an error.\<close>

definition scan_device :: "time \<Rightarrow> string \<times> device_row \<Rightarrow> store_error + Device" where
  "scan_device now = (\<lambda>(i, r).
     case public_key r of
       None \<Rightarrow> Inl ScanFailed
     | Some pk \<Rightarrow>
         Inr \<lparr>dev_ID = i, PublicKey = pk, RegisteredAt = registered_at r, DeletedAt = deleted_at r,
              InService = in_service r, UpdatedBy = updated_by r, UpdatedAt = updated_at r,
              LastSeenAt = last_seen_at r, IsOnline = is_online now r\<rparr>)"

fun scan_devices :: "time \<Rightarrow> (string \<times> device_row) list \<Rightarrow> store_error + Device list" where
  "scan_devices now [] = Inr []"
| "scan_devices now (x # xs) =
     (case scan_device now x of
        Inl err \<Rightarrow> Inl err
      | Inr d \<Rightarrow> (case scan_devices now xs of Inl err \<Rightarrow> Inl err | Inr ds \<Rightarrow> Inr (d # ds)))"

definition ListDevices ::
  "(string \<Rightarrow> 'c::linorder) \<Rightarrow> db_env \<Rightarrow> bool \<Rightarrow> database \<Rightarrow> store_error + Device list" where
  "ListDevices collate e includeDeleted db =
     (if db_fault e then Inl DbFailed
      else scan_devices (db_now e)
             (sort_key (\<lambda>(i, r). collate i)
                (if includeDeleted then devices db else filter (\<lambda>(i, r). live r) (devices db))))"

definition ListDeleted :: "db_env \<Rightarrow> database \<Rightarrow> store_error + Device list" where
  "ListDeleted e db =
     (if db_fault e then Inl DbFailed
      else scan_devices (db_now e)
             (sort_key (\<lambda>(i, r). - the (deleted_at r)) (filter (\<lambda>(i, r). \<not> live r) (devices db))))"

definition execAffecting ::
  "db_env \<Rightarrow> (database \<Rightarrow> sql_result) \<Rightarrow> database \<Rightarrow> store_error option \<times> database" where
  "execAffecting e stmt db =
     (case Exec e stmt db of
        Inl err \<Rightarrow> (Some err, db)
      | Inr (n, db') \<Rightarrow> if n = 0 then (Some ErrNotFound, db') else (None, db'))"

definition Add ::
  "db_env \<Rightarrow> string \<Rightarrow> string \<Rightarrow> bool \<Rightarrow> uuid \<Rightarrow> database \<Rightarrow> store_error option \<times> database" where
  "Add e devid publicKeyPEM inService userID db =
     (let r = \<lparr>password_hash = [], public_key = Some publicKeyPEM, registered_at = db_now e,
               deleted_at = None, in_service = inService, updated_by = Some userID,
               updated_at = go_now e, last_seen_at = None\<rparr>;
          stmt = (\<lambda>db. if map_of (devices db) devid \<noteq> None then Inl UniqueViolation
                       else if \<not> has_user db (Some userID) then Inl ForeignKeyViolation
                       else Inr (1, db\<lparr>devices := AList.update devid r (devices db)\<rparr>))
      in case Exec e stmt db of Inl err \<Rightarrow> (Some err, db) | Inr (n, db') \<Rightarrow> (None, db'))"

definition touch :: "db_env \<Rightarrow> uuid \<Rightarrow> device_row \<Rightarrow> device_row" where
  "touch e userID r = r\<lparr>updated_by := Some userID, updated_at := db_now e\<rparr>"

definition SoftDelete :: "db_env \<Rightarrow> string \<Rightarrow> uuid \<Rightarrow> database \<Rightarrow> store_error option \<times> database" where
  "SoftDelete e devid userID =
     execAffecting e (update_device devid live (\<lambda>r. touch e userID (r\<lparr>deleted_at := Some (db_now e)\<rparr>)))"

definition Restore :: "db_env \<Rightarrow> string \<Rightarrow> uuid \<Rightarrow> database \<Rightarrow> store_error option \<times> database" where
  "Restore e devid userID =
     execAffecting e (update_device devid (\<lambda>r. \<not> live r) (\<lambda>r. touch e userID (r\<lparr>deleted_at := None\<rparr>)))"

definition HardDelete :: "db_env \<Rightarrow> string \<Rightarrow> database \<Rightarrow> store_error option \<times> database" where
  "HardDelete e devid =
     execAffecting e (\<lambda>db.
       case map_of (devices db) devid of
         None \<Rightarrow> Inr (0, db)
       | Some r \<Rightarrow> if live r then Inr (0, db)
                   else Inr (1, db\<lparr>devices := AList.delete devid (devices db)\<rparr>))"

definition SetInService :: "db_env \<Rightarrow> string \<Rightarrow> bool \<Rightarrow> uuid \<Rightarrow> database \<Rightarrow> store_error option \<times> database" where
  "SetInService e devid inService userID =
     execAffecting e (update_device devid live (\<lambda>r. touch e userID (r\<lparr>in_service := inService\<rparr>)))"

definition SetPassword ::
  "bcrypt_lib \<Rightarrow> db_env \<Rightarrow> string \<Rightarrow> string \<Rightarrow> uuid \<Rightarrow> database \<Rightarrow> store_error option \<times> database" where
  "SetPassword bc e devid newPlain userID db =
     (case GenerateFromPassword bc newPlain of
        None \<Rightarrow> (Some BcryptFailed, db)
      | Some hash \<Rightarrow>
          execAffecting e (update_device devid live (\<lambda>r. touch e userID (r\<lparr>password_hash := hash\<rparr>))) db)"

definition SetPublicKey :: "db_env \<Rightarrow> string \<Rightarrow> string \<Rightarrow> uuid \<Rightarrow> database \<Rightarrow> store_error option \<times> database" where
  "SetPublicKey e devid publicKey userID =
     execAffecting e (update_device devid live (\<lambda>r. touch e userID (r\<lparr>public_key := Some publicKey\<rparr>)))"

text \<open>The key of the row changes: a live or deleted device of the new name is a violation.\<close>

definition rename_key :: "string \<Rightarrow> string \<Rightarrow> device_row \<Rightarrow> (string \<times> device_row) list \<Rightarrow> (string \<times> device_row) list" where
  "rename_key oldID newID r ds = AList.update newID r (AList.delete oldID ds)"

definition Rename :: "db_env \<Rightarrow> string \<Rightarrow> string \<Rightarrow> uuid \<Rightarrow> database \<Rightarrow> store_error option \<times> database" where
  "Rename e oldID newID userID =
     execAffecting e (\<lambda>db.
       case map_of (devices db) oldID of
         None \<Rightarrow> Inr (0, db)
       | Some r \<Rightarrow>
           if \<not> live r then Inr (0, db)
           else if newID \<noteq> oldID \<and> map_of (devices db) newID \<noteq> None then Inl UniqueViolation
           else if \<not> has_user db (Some userID) then Inl ForeignKeyViolation
           else Inr (1, db\<lparr>devices := rename_key oldID newID (touch e userID r) (devices db)\<rparr>))"

text \<open>\<^verbatim>\<open>QueryRow\<close> of the live row of a device, with a further condition.\<close>

definition query_live :: "db_env \<Rightarrow> string \<Rightarrow> (device_row \<Rightarrow> bool) \<Rightarrow> database \<Rightarrow> store_error + device_row option" where
  "query_live e devid P db =
     (if db_fault e then Inl DbFailed
      else case map_of (devices db) devid of
             None \<Rightarrow> Inr None
           | Some r \<Rightarrow> Inr (if live r \<and> P r then Some r else None))"

definition VerifyDevice :: "bcrypt_lib \<Rightarrow> db_env \<Rightarrow> string \<Rightarrow> string \<Rightarrow> database \<Rightarrow> store_error + bool" where
  "VerifyDevice bc e devid plainPassword db =
     (case query_live e devid (\<lambda>_. True) db of
        Inl err \<Rightarrow> Inl err
      | Inr None \<Rightarrow> Inl ErrAuthFailed
      | Inr (Some r) \<Rightarrow>
          if \<not> in_service r then Inl ErrAuthFailed
          else (case CompareHashAndPassword bc (password_hash r) plainPassword of
                  HashMatch \<Rightarrow> Inr True
                | ErrMismatchedHashAndPassword \<Rightarrow> Inl ErrAuthFailed
                | HashError \<Rightarrow> Inl BcryptFailed))"

definition GetDeviceStatus :: "db_env \<Rightarrow> string \<Rightarrow> database \<Rightarrow> store_error + bool" where
  "GetDeviceStatus e devid db =
     (case query_live e devid (\<lambda>_. True) db of
        Inl err \<Rightarrow> Inl err
      | Inr None \<Rightarrow> Inl ErrNotFound
      | Inr (Some r) \<Rightarrow> Inr (is_online (db_now e) r))"

definition UpdateLastSeen :: "db_env \<Rightarrow> string \<Rightarrow> database \<Rightarrow> store_error option \<times> database" where
  "UpdateLastSeen e devid db =
     (case Exec e (\<lambda>db.
         case map_of (devices db) devid of
           None \<Rightarrow> Inr (0, db)
         | Some r \<Rightarrow>
             if \<not> live r then Inr (0, db)
             else Inr (1, db\<lparr>devices := AList.update devid (r\<lparr>last_seen_at := Some (db_now e)\<rparr>) (devices db)\<rparr>)) db of
        Inl err \<Rightarrow> (Some err, db)
      | Inr (n, db') \<Rightarrow> if n = 0 then (Some ErrNotFound, db') else (None, db'))"

definition GetPublicKey :: "db_env \<Rightarrow> string \<Rightarrow> database \<Rightarrow> store_error + string" where
  "GetPublicKey e devid db =
     (case query_live e devid (\<lambda>r. public_key r \<noteq> None) db of
        Inl err \<Rightarrow> Inl err
      | Inr None \<Rightarrow> Inl ErrAuthFailed
      | Inr (Some r) \<Rightarrow> (case public_key r of None \<Rightarrow> Inl ScanFailed | Some pk \<Rightarrow> Inr pk))"

definition IsInService :: "db_env \<Rightarrow> string \<Rightarrow> database \<Rightarrow> store_error + bool" where
  "IsInService e devid db =
     (case query_live e devid (\<lambda>_. True) db of
        Inl err \<Rightarrow> Inl err
      | Inr None \<Rightarrow> Inl ErrAuthFailed
      | Inr (Some r) \<Rightarrow> Inr (in_service r))"

definition UpsertDevice :: "db_env \<Rightarrow> string \<Rightarrow> string \<Rightarrow> bool \<Rightarrow> database \<Rightarrow> store_error option \<times> database" where
  "UpsertDevice e devid publicKeyPEM inService db =
     (let stmt = (\<lambda>db.
        let r = (case map_of (devices db) devid of
                   None \<Rightarrow> \<lparr>password_hash = [], public_key = Some publicKeyPEM, registered_at = db_now e,
                            deleted_at = None, in_service = inService, updated_by = None,
                            updated_at = db_now e, last_seen_at = None\<rparr>
                 | Some r \<Rightarrow> r\<lparr>public_key := Some publicKeyPEM, in_service := inService, deleted_at := None\<rparr>)
        in Inr (1, db\<lparr>devices := AList.update devid r (devices db)\<rparr>))
      in case Exec e stmt db of Inl err \<Rightarrow> (Some err, db) | Inr (n, db') \<Rightarrow> (None, db'))"

section \<open>Operations as data\<close>

datatype dev_op =
    OpAdd string string bool uuid
  | OpSoftDelete string uuid
  | OpRestore string uuid
  | OpHardDelete string
  | OpSetInService string bool uuid
  | OpSetPassword string string uuid
  | OpSetPublicKey string string uuid
  | OpRename string string uuid
  | OpLastSeen string
  | OpUpsert string string bool

fun dev_exec :: "bcrypt_lib \<Rightarrow> db_env \<Rightarrow> dev_op \<Rightarrow> database \<Rightarrow> store_error option \<times> database" where
  "dev_exec bc e (OpAdd i pk b u) db = Add e i pk b u db"
| "dev_exec bc e (OpSoftDelete i u) db = SoftDelete e i u db"
| "dev_exec bc e (OpRestore i u) db = Restore e i u db"
| "dev_exec bc e (OpHardDelete i) db = HardDelete e i db"
| "dev_exec bc e (OpSetInService i b u) db = SetInService e i b u db"
| "dev_exec bc e (OpSetPassword i pw u) db = SetPassword bc e i pw u db"
| "dev_exec bc e (OpSetPublicKey i pk u) db = SetPublicKey e i pk u db"
| "dev_exec bc e (OpRename i j u) db = Rename e i j u db"
| "dev_exec bc e (OpLastSeen i) db = UpdateLastSeen e i db"
| "dev_exec bc e (OpUpsert i pk b) db = UpsertDevice e i pk b db"

lemmas dev_defs = Add_def SoftDelete_def Restore_def HardDelete_def SetInService_def SetPassword_def
  SetPublicKey_def Rename_def UpdateLastSeen_def UpsertDevice_def

lemma execAffecting_inv:
  assumes "db_inv db" "execAffecting e stmt db = (err, db')"
    "\<And>n db'. stmt db = Inr (n, db') \<Longrightarrow> db_inv db'"
  shows "db_inv db'"
  using assms by (auto simp: execAffecting_def Exec_def split: if_splits sum.splits)

lemma execAffecting_update_inv:
  assumes "db_inv db" "execAffecting e (update_device i P f) db = (err, db')"
    "\<And>r. public_key r \<noteq> None \<Longrightarrow> public_key (f r) \<noteq> None"
  shows "db_inv db'"
  using assms(1,2) by (rule execAffecting_inv) (rule update_device_inv [OF assms(1) _ assms(3)])

lemma db_inv_delete:
  assumes "db_inv db"
  shows "db_inv (db\<lparr>devices := AList.delete i (devices db)\<rparr>)"
  using assms alist.remove_all [of "devices db" "\<lambda>i r. public_key r \<noteq> None \<and> has_user db (updated_by r)"]
  by (intro db_inv_devices) (auto simp: db_inv_def distinct_delete)

lemma db_inv_rename:
  assumes "db_inv db" "map_of (devices db) i = Some r" "has_user db (Some u)"
  shows "db_inv (db\<lparr>devices := rename_key i j (touch e u r) (devices db)\<rparr>)"
proof -
  have "db_inv ((db\<lparr>devices := AList.delete i (devices db)\<rparr>)
      \<lparr>devices := AList.update j (touch e u r) (AList.delete i (devices db))\<rparr>)"
    using db_inv_put [OF db_inv_delete [OF assms(1), of i], of "touch e u r" j] assms(3)
      db_inv_device [OF assms(1,2)] by (simp add: touch_def)
  then show ?thesis
    by (simp add: rename_key_def)
qed

lemma dev_exec_inv:
  assumes "db_inv db" "dev_exec bc e oper db = (err, db')"
  shows "db_inv db'"
proof (cases oper)
  case (OpAdd i pk b u)
  with assms show ?thesis
    by (auto simp: Add_def Exec_def intro!: db_inv_put split: if_splits)
next
  case (OpHardDelete i)
  with assms show ?thesis
    by (auto simp: HardDelete_def execAffecting_def Exec_def db_inv_delete split: option.splits if_splits)
next
  case (OpSetPassword i pw u)
  with assms show ?thesis
    by (auto simp: SetPassword_def touch_def split: option.splits elim!: execAffecting_update_inv)
next
  case (OpRename i j u)
  with assms show ?thesis
    by (auto simp: Rename_def execAffecting_def Exec_def db_inv_rename split: option.splits if_splits)
next
  case (OpLastSeen i)
  with assms db_inv_device [OF assms(1), of i] show ?thesis
    by (auto simp: UpdateLastSeen_def Exec_def intro!: db_inv_put split: option.splits if_splits)
next
  case (OpUpsert i pk b)
  with assms db_inv_device [OF assms(1), of i] show ?thesis
    by (auto simp: UpsertDevice_def Exec_def Let_def has_user_def intro!: db_inv_put split: option.splits if_splits)
qed (use assms in \<open>auto simp: dev_defs touch_def elim!: execAffecting_update_inv\<close>)

section \<open>The registry the store implements\<close>

record device_view =
  v_key :: "string option"
  v_service :: bool
  v_deleted :: bool

definition view :: "device_row \<Rightarrow> device_view" where
  "view r = \<lparr>v_key = public_key r, v_service = in_service r, v_deleted = deleted_at r \<noteq> None\<rparr>"

definition registry :: "database \<Rightarrow> string \<Rightarrow> device_view option" where
  "registry db i = map_option view (map_of (devices db) i)"

text \<open>Change the entry of a device that satisfies a condition, and reject the operation otherwise.\<close>

definition on_device ::
  "string \<Rightarrow> (device_view \<Rightarrow> bool) \<Rightarrow> (device_view \<Rightarrow> device_view option) \<Rightarrow> (string \<Rightarrow> device_view option)
   \<Rightarrow> (string \<Rightarrow> device_view option) option" where
  "on_device i P f m =
     (case m i of None \<Rightarrow> None | Some v \<Rightarrow> if P v then Some (m(i := f v)) else None)"

fun registry_exec :: "dev_op \<Rightarrow> (string \<Rightarrow> device_view option) \<Rightarrow> (string \<Rightarrow> device_view option) option" where
  "registry_exec (OpAdd i pk b u) m =
     (if m i = None then Some (m(i \<mapsto> \<lparr>v_key = Some pk, v_service = b, v_deleted = False\<rparr>)) else None)"
| "registry_exec (OpSoftDelete i u) m = on_device i (\<lambda>v. \<not> v_deleted v) (\<lambda>v. Some (v\<lparr>v_deleted := True\<rparr>)) m"
| "registry_exec (OpRestore i u) m = on_device i v_deleted (\<lambda>v. Some (v\<lparr>v_deleted := False\<rparr>)) m"
| "registry_exec (OpHardDelete i) m = on_device i v_deleted (\<lambda>v. None) m"
| "registry_exec (OpSetInService i b u) m = on_device i (\<lambda>v. \<not> v_deleted v) (\<lambda>v. Some (v\<lparr>v_service := b\<rparr>)) m"
| "registry_exec (OpSetPassword i pw u) m = on_device i (\<lambda>v. \<not> v_deleted v) Some m"
| "registry_exec (OpSetPublicKey i pk u) m = on_device i (\<lambda>v. \<not> v_deleted v) (\<lambda>v. Some (v\<lparr>v_key := Some pk\<rparr>)) m"
| "registry_exec (OpRename i j u) m =
     (case m i of
        None \<Rightarrow> None
      | Some v \<Rightarrow> if v_deleted v \<or> j \<noteq> i \<and> m j \<noteq> None then None else Some ((m(i := None))(j \<mapsto> v)))"
| "registry_exec (OpLastSeen i) m = on_device i (\<lambda>v. \<not> v_deleted v) Some m"
| "registry_exec (OpUpsert i pk b) m = Some (m(i \<mapsto> \<lparr>v_key = Some pk, v_service = b, v_deleted = False\<rparr>))"

fun op_user :: "dev_op \<Rightarrow> uuid option" where
  "op_user (OpAdd i pk b u) = Some u"
| "op_user (OpSoftDelete i u) = Some u"
| "op_user (OpRestore i u) = Some u"
| "op_user (OpSetInService i b u) = Some u"
| "op_user (OpSetPassword i pw u) = Some u"
| "op_user (OpSetPublicKey i pk u) = Some u"
| "op_user (OpRename i j u) = Some u"
| "op_user _ = None"

lemma registry_put: "registry (db\<lparr>devices := AList.update i r (devices db)\<rparr>) = (registry db)(i \<mapsto> view r)"
  by (auto simp: registry_def update_conv' fun_eq_iff)

lemma registry_delete: "registry (db\<lparr>devices := AList.delete i (devices db)\<rparr>) = (registry db)(i := None)"
  by (auto simp: registry_def delete_conv' fun_eq_iff)

lemma registry_rename:
  "registry (db\<lparr>devices := rename_key i j r (devices db)\<rparr>) = ((registry db)(i := None))(j \<mapsto> view r)"
  by (auto simp: registry_def rename_key_def update_conv' delete_conv' fun_eq_iff)

lemma execAffecting_update_refines:
  assumes "\<not> db_fault e" "has_user db (Some u)" "\<And>r. updated_by (f r) = Some u"
    "\<And>r. P r \<longleftrightarrow> Q (view r)" "\<And>r. view (f r) = g (view r)"
    "execAffecting e (update_device i P f) db = (err, db')"
  shows "case on_device i Q (\<lambda>v. Some (g v)) (registry db) of
      None \<Rightarrow> err \<noteq> None \<and> db' = db | Some m \<Rightarrow> err = None \<and> registry db' = m"
proof (cases "map_of (devices db) i")
  case None
  with assms show ?thesis
    by (auto simp: execAffecting_def Exec_def update_device_def on_device_def registry_def)
next
  case (Some r)
  then have "registry db i = Some (view r)"
    by (simp add: registry_def)
  with Some assms show ?thesis
    by (cases "P r") (auto simp: execAffecting_def Exec_def update_device_def on_device_def registry_put)
qed

lemma dev_exec_refines:
  assumes "\<not> db_fault e" "has_user db (op_user oper)" "\<forall>p. GenerateFromPassword bc p \<noteq> None"
    "dev_exec bc e oper db = (err, db')"
  shows "case registry_exec oper (registry db) of
      None \<Rightarrow> err \<noteq> None \<and> db' = db | Some m \<Rightarrow> err = None \<and> registry db' = m"
proof (cases oper)
  case (OpAdd i pk b u)
  with assms show ?thesis
    by (auto simp: Add_def Exec_def registry_put view_def registry_def split: if_splits)
next
  case (OpSoftDelete i u)
  with assms show ?thesis
    unfolding OpSoftDelete registry_exec.simps
    by (intro execAffecting_update_refines) (auto simp: SoftDelete_def touch_def view_def live_def)
next
  case (OpRestore i u)
  with assms show ?thesis
    unfolding OpRestore registry_exec.simps
    by (intro execAffecting_update_refines) (auto simp: Restore_def touch_def view_def live_def)
next
  case (OpHardDelete i)
  with assms show ?thesis
    by (cases "map_of (devices db) i")
      (auto simp: HardDelete_def execAffecting_def Exec_def on_device_def registry_delete registry_def view_def live_def
        delete_conv' fun_eq_iff split: if_splits)
next
  case (OpSetInService i b u)
  with assms show ?thesis
    unfolding OpSetInService registry_exec.simps
    by (intro execAffecting_update_refines) (auto simp: SetInService_def touch_def view_def live_def)
next
  case (OpSetPassword i pw u)
  obtain h where h: "GenerateFromPassword bc pw = Some h"
    using assms(3) by blast
  have "case on_device i (\<lambda>v. \<not> v_deleted v) (\<lambda>v. Some (id v)) (registry db) of
      None \<Rightarrow> err \<noteq> None \<and> db' = db | Some m \<Rightarrow> err = None \<and> registry db' = m"
    using assms OpSetPassword h
    by (intro execAffecting_update_refines) (auto simp: SetPassword_def touch_def view_def live_def)
  then show ?thesis
    by (simp add: OpSetPassword id_def)
next
  case (OpSetPublicKey i pk u)
  with assms show ?thesis
    unfolding OpSetPublicKey registry_exec.simps
    by (intro execAffecting_update_refines) (auto simp: SetPublicKey_def touch_def view_def live_def)
next
  case (OpRename i j u)
  show ?thesis
  proof (cases "map_of (devices db) i")
    case None
    with assms OpRename show ?thesis
      by (auto simp: Rename_def execAffecting_def Exec_def registry_def)
  next
    case (Some r)
    then have "registry db i = Some (view r)" "view (touch e u r) = view r" "live r \<longleftrightarrow> \<not> v_deleted (view r)"
      by (simp_all add: registry_def view_def touch_def live_def)
    moreover have "registry db j = None \<longleftrightarrow> map_of (devices db) j = None"
      by (simp add: registry_def)
    ultimately show ?thesis
      using Some assms OpRename
      by (auto simp: Rename_def execAffecting_def Exec_def registry_rename split: if_splits)
  qed
next
  case (OpLastSeen i)
  show ?thesis
  proof (cases "map_of (devices db) i")
    case None
    with assms OpLastSeen show ?thesis
      by (auto simp: UpdateLastSeen_def Exec_def on_device_def registry_def)
  next
    case (Some r)
    have "registry db i = Some (view r)" "live r \<longleftrightarrow> \<not> v_deleted (view r)"
      "view (r\<lparr>last_seen_at := Some (db_now e)\<rparr>) = view r"
      using Some by (simp_all add: registry_def view_def live_def)
    with Some assms OpLastSeen show ?thesis
      by (auto simp: UpdateLastSeen_def Exec_def on_device_def registry_put split: if_splits)
  qed
next
  case (OpUpsert i pk b)
  with assms show ?thesis
    by (auto simp: UpsertDevice_def Exec_def Let_def registry_put view_def split: option.splits)
qed

section \<open>Lists\<close>

lemma scan_devices_ok:
  assumes "\<forall>(i, r) \<in> set rs. public_key r \<noteq> None"
  shows "\<exists>ds. scan_devices now rs = Inr ds \<and> list_all2 (\<lambda>(i, r) d. scan_device now (i, r) = Inr d) rs ds"
  using assms
proof (induction rs)
  case (Cons x rs)
  obtain i r pk where "x = (i, r)" "public_key r = Some pk"
    using Cons.prems by (cases x) auto
  with Cons show ?case
    by (auto simp: scan_device_def)
qed simp

lemma scan_device_online:
  "scan_device now (i, r) = Inr d \<Longrightarrow> dev_ID d = i \<and> public_key r = Some (PublicKey d) \<and> InService d = in_service r \<and>
     (IsOnline d \<longleftrightarrow> (\<exists>t. last_seen_at r = Some t \<and> now < t + 30 * Second))"
  by (auto simp: scan_device_def is_online_def OfflineThreshold_def split: option.splits)

lemma scan_devices_rows:
  assumes "list_all2 (\<lambda>(i, r) d. scan_device now (i, r) = Inr d) rs ds"
  shows "map dev_ID ds = map fst rs" "\<And>d. d \<in> set ds \<Longrightarrow> \<exists>i r. (i, r) \<in> set rs \<and> scan_device now (i, r) = Inr d"
  using assms by (induction rule: list_all2_induct) (auto dest: scan_device_online, blast)

section \<open>Properties of the device store\<close>


definition plain_bcrypt :: bcrypt_lib where
  "plain_bcrypt = \<lparr>GenerateFromPassword = Some,
     CompareHashAndPassword = (\<lambda>h p. if h = p then HashMatch else ErrMismatchedHashAndPassword)\<rparr>"

definition env_at :: "time \<Rightarrow> db_env" where
  "env_at t = \<lparr>db_fault = False, db_now = t, go_now = t\<rparr>"

definition db_one :: database where
  "db_one = \<lparr>devices = [(''A'', \<lparr>password_hash = [], public_key = Some ''K'', registered_at = 0,
       deleted_at = None, in_service = True, updated_by = Some ''u'', updated_at = 0, last_seen_at = None\<rparr>)],
     users = [(''u'', \<lparr>username = ''root'', user_password_hash = ''pw'', role = RoleAdmin, created_at = 0\<rparr>)],
     sessions = []\<rparr>"




text \<open>
  The list of devices has exactly the rows that are not deleted (all rows when asked
  for), in the order of the collation, and marks as online those seen less than 30 seconds
  ago; it cannot fail on a null key, since no method stores one.
\<close>

theorem ListDevices_spec:
  assumes "db_inv db" and "\<not> db_fault e"
  shows "\<exists>ds. ListDevices collate e inc db = Inr ds \<and>
    sorted (map (\<lambda>d. collate (dev_ID d)) ds) \<and> distinct (map dev_ID ds) \<and>
    (\<forall>i. i \<in> dev_ID ` set ds \<longleftrightarrow> (\<exists>r. map_of (devices db) i = Some r \<and> (\<not> inc \<and> deleted_at r \<noteq> None) = False)) \<and>
    (\<forall>d \<in> set ds. \<exists>r. map_of (devices db) (dev_ID d) = Some r \<and> public_key r = Some (PublicKey d) \<and>
       InService d = in_service r \<and> (IsOnline d \<longleftrightarrow> (\<exists>t. last_seen_at r = Some t \<and> db_now e < t + 30 * Second)))"
proof -
  define sel where "sel = (if inc then devices db else filter (\<lambda>(i, r). live r) (devices db))"
  define rs where "rs = sort_key (\<lambda>(i, r). collate i) sel"
  have dist: "distinct (map fst (devices db))"
    using assms(1) by (simp add: db_inv_def)
  then have dist': "distinct (map fst sel)"
    by (simp add: sel_def distinct_map_filter)
  have mem: "(i, r) \<in> set rs \<longleftrightarrow> map_of (devices db) i = Some r \<and> (inc \<or> live r)" for i r
    using dist by (auto simp: rs_def sel_def)
  have "\<forall>(i, r) \<in> set rs. public_key r \<noteq> None"
    using mem db_inv_device [OF assms(1)] by blast
  then obtain ds where ds: "scan_devices (db_now e) rs = Inr ds"
    "list_all2 (\<lambda>(i, r) d. scan_device (db_now e) (i, r) = Inr d) rs ds"
    using scan_devices_ok by blast
  note ids = scan_devices_rows(1) [OF ds(2)]
  have "distinct (map dev_ID ds)"
    using dist' by (simp only: ids rs_def distinct_map distinct_sort set_sort)
  moreover have "sorted (map collate (map dev_ID ds))"
    using sorted_sort_key [of "\<lambda>(i, r). collate i" sel] by (simp add: ids rs_def case_prod_unfold comp_def)
  moreover have "dev_ID ` set ds = fst ` set rs"
    using arg_cong [OF ids, of set] by simp
  then have "i \<in> dev_ID ` set ds \<longleftrightarrow> (\<exists>r. map_of (devices db) i = Some r \<and> (inc \<or> live r))" for i
    by (simp add: image_iff Bex_def mem [symmetric])
  moreover have "\<exists>r. map_of (devices db) (dev_ID d) = Some r \<and> public_key r = Some (PublicKey d) \<and>
       InService d = in_service r \<and> (IsOnline d \<longleftrightarrow> (\<exists>t. last_seen_at r = Some t \<and> db_now e < t + 30 * Second))"
    if "d \<in> set ds" for d
    using scan_devices_rows(2) [OF ds(2) that] scan_device_online mem by metis
  moreover have "ListDevices collate e inc db = Inr ds"
    using assms(2) ds(1) by (simp add: ListDevices_def rs_def sel_def)
  ultimately show ?thesis
    by (auto simp: live_def comp_def)
qed

theorem ListDevices_spec_witness:
  "\<exists>ds. ListDevices length (env_at 5) False db_one = Inr ds \<and> dev_ID ` set ds = {''A''}"
proof -
  have "db_inv db_one" "\<not> db_fault (env_at 5)"
    by (simp_all add: db_inv_def db_one_def has_user_def env_at_def)
  from ListDevices_spec [OF this, of length False] show ?thesis
    by (auto simp: db_one_def split: if_splits)
qed

end
