(* ===== verification/Challenge.thy ===== *)
theory Challenge
  imports Prelude Go_Time
begin

text \<open>
  The challenges of the authorization handshake and the verification of their signatures
  (\<^verbatim>\<open>src/internal/tcp/crypto.go\<close>). A challenge is 32 random bytes and the Unix time in
  milliseconds, little-endian; it is valid for five minutes. The random source, the PEM
  and X.509 parsers, SHA-256 and the RSA verification are code outside the repository and
  are the fields of the record \<open>crypto_lib\<close>, over a type of RSA keys; what a device uses of them,
  the parsers of private keys and the signature, are the fields of \<open>key_lib\<close>.
\<close>

definition ChallengeSize :: nat where "ChallengeSize = 32"
definition TimestampSize :: nat where "TimestampSize = 8"
definition ChallengeTTL :: duration where "ChallengeTTL = 5 * Minute"

datatype crypto_error =
    NonceError
  | ChallengeTooShort
  | NoPEMBlock
  | BadPublicKey
  | NotRSAKey
  | BadSignature
  | BadPrivateKey
  | SignFailed

text \<open>A key of any algorithm, as the PKIX parser returns it.\<close>

datatype 'k any_key = RSAKey 'k | OtherKey

record 'k crypto_lib =
  pem_Decode :: "string \<Rightarrow> bytes option"
  ParsePKIXPublicKey :: "bytes \<Rightarrow> 'k any_key option"
  ParsePKCS1PublicKey :: "bytes \<Rightarrow> 'k option"
  Sum256 :: "bytes \<Rightarrow> bytes"
  VerifyPKCS1v15 :: "'k \<Rightarrow> bytes \<Rightarrow> bytes \<Rightarrow> bool"

record 'p key_lib =
  ParsePKCS8PrivateKey :: "bytes \<Rightarrow> 'p any_key option"
  ParsePKCS1PrivateKey :: "bytes \<Rightarrow> 'p option"
  SignPKCS1v15 :: "'p \<Rightarrow> bytes \<Rightarrow> bytes option"

definition GenerateChallenge :: "rand_source \<Rightarrow> time \<Rightarrow> crypto_error + bytes" where
  "GenerateChallenge rnd now =
     (case rnd of
        None \<Rightarrow> Inl NonceError
      | Some src \<Rightarrow> Inr (map src [0..<ChallengeSize] @ PutUint64 (ms_word now)))"

definition ExtractTimestamp :: "bytes \<Rightarrow> crypto_error + time" where
  "ExtractTimestamp challenge =
     (if length challenge < ChallengeSize + TimestampSize then Inl ChallengeTooShort
      else Inr (time_of_ms (sint (Uint64 (drop ChallengeSize challenge)))))"

definition IsChallengeExpired :: "bytes \<Rightarrow> time \<Rightarrow> crypto_error + bool" where
  "IsChallengeExpired challenge now =
     (case ExtractTimestamp challenge of
        Inl e \<Rightarrow> Inl e
      | Inr ts \<Rightarrow> Inr (time_Sub now ts > ChallengeTTL))"

definition ParsePublicKey :: "'k crypto_lib \<Rightarrow> string \<Rightarrow> crypto_error + 'k" where
  "ParsePublicKey lib pemStr =
     (case pem_Decode lib pemStr of
        None \<Rightarrow> Inl NoPEMBlock
      | Some block \<Rightarrow>
          (case ParsePKIXPublicKey lib block of
             Some (RSAKey k) \<Rightarrow> Inr k
           | Some OtherKey \<Rightarrow> Inl NotRSAKey
           | None \<Rightarrow>
               (case ParsePKCS1PublicKey lib block of
                  Some k \<Rightarrow> Inr k
                | None \<Rightarrow> Inl BadPublicKey)))"

definition ParsePrivateKey :: "'k crypto_lib \<Rightarrow> 'p key_lib \<Rightarrow> string \<Rightarrow> crypto_error + 'p" where
  "ParsePrivateKey lib keys pemStr =
     (case pem_Decode lib pemStr of
        None \<Rightarrow> Inl NoPEMBlock
      | Some block \<Rightarrow>
          (case ParsePKCS8PrivateKey keys block of
             Some (RSAKey p) \<Rightarrow> Inr p
           | Some OtherKey \<Rightarrow> Inl NotRSAKey
           | None \<Rightarrow>
               (case ParsePKCS1PrivateKey keys block of
                  Some p \<Rightarrow> Inr p
                | None \<Rightarrow> Inl BadPrivateKey)))"

definition SignChallenge :: "'k crypto_lib \<Rightarrow> 'p key_lib \<Rightarrow> 'p \<Rightarrow> bytes \<Rightarrow> crypto_error + bytes" where
  "SignChallenge lib keys priv challenge =
     (case SignPKCS1v15 keys priv (Sum256 lib challenge) of
        None \<Rightarrow> Inl SignFailed
      | Some sig \<Rightarrow> Inr sig)"

definition VerifyChallengeResponse ::
  "'k crypto_lib \<Rightarrow> 'k \<Rightarrow> bytes \<Rightarrow> bytes \<Rightarrow> crypto_error option" where
  "VerifyChallengeResponse lib pub challenge signature =
     (if VerifyPKCS1v15 lib pub (Sum256 lib challenge) signature then None else Some BadSignature)"

lemma GenerateChallenge_length: "GenerateChallenge rnd now = Inr c \<Longrightarrow> length c = 40"
  by (auto simp: GenerateChallenge_def ChallengeSize_def split: option.splits)

lemma IsChallengeExpired_ok: "length c = 40 \<Longrightarrow> \<exists>v. IsChallengeExpired c now = Inr v"
  by (simp add: IsChallengeExpired_def ExtractTimestamp_def ChallengeSize_def TimestampSize_def)

text \<open>Saturation of the elapsed time does not change the verdict: the limit is in range.\<close>

lemma time_Sub_gt_TTL: "time_Sub t u > ChallengeTTL \<longleftrightarrow> t - u > ChallengeTTL"
  by (auto simp: time_Sub_def maxDuration_def minDuration_def ChallengeTTL_def duration_defs)

lemma ExtractTimestamp_GenerateChallenge:
  assumes "GenerateChallenge rnd t = Inr c" and "- (2 ^ 63) \<le> UnixMilli t" and "UnixMilli t < 2 ^ 63"
  shows "ExtractTimestamp c = Inr (time_of_ms (UnixMilli t))"
proof -
  from assms(1) obtain src where "c = map src [0..<ChallengeSize] @ PutUint64 (ms_word t)"
    by (auto simp: GenerateChallenge_def split: option.splits)
  then show ?thesis
    using sint_word_of_int_64 [OF assms(2,3)]
    by (simp add: ExtractTimestamp_def ms_word_def TimestampSize_def le_simps)
qed

text \<open>
  A key pair of 2048 bits: signing does not fail, a signature has 256 bytes, and it verifies
  under the public key.
\<close>

definition key_pair :: "'k crypto_lib \<Rightarrow> 'p key_lib \<Rightarrow> 'k \<Rightarrow> 'p \<Rightarrow> bool" where
  "key_pair lib keys pub priv \<longleftrightarrow>
     (\<forall>hashed. \<exists>sig. SignPKCS1v15 keys priv hashed = Some sig \<and> length sig = 256 \<and> VerifyPKCS1v15 lib pub hashed sig)"

lemma SignChallenge_verifies:
  assumes "key_pair lib keys pub priv"
  shows "\<exists>sig. SignChallenge lib keys priv challenge = Inr sig \<and> length sig = 256
    \<and> VerifyChallengeResponse lib pub challenge sig = None"
  using assms by (auto simp: key_pair_def SignChallenge_def VerifyChallengeResponse_def dest!: spec [of _ "Sum256 lib challenge"])

section \<open>Properties of challenges\<close>

text \<open>
  C26: A challenge made at time \<open>t\<close> is refused as expired at time \<open>now\<close> exactly when more
  than five minutes have passed since \<open>t\<close>, cut to the millisecond the challenge carries.
\<close>

theorem challenge_expires_after_TTL:
  assumes "GenerateChallenge rnd t = Inr c" and "- (2 ^ 63) \<le> UnixMilli t" and "UnixMilli t < 2 ^ 63"
  shows "IsChallengeExpired c now = Inr (now - UnixMilli t * Millisecond > 5 * 60 * Second)"
  using ExtractTimestamp_GenerateChallenge [OF assms]
    time_Sub_gt_TTL [of now "UnixMilli t * Millisecond"]
  by (simp add: IsChallengeExpired_def time_of_ms_def ChallengeTTL_def Minute_def)

theorem challenge_expires_after_TTL_witness:
  "\<exists>c. GenerateChallenge (Some (\<lambda>_. 7)) (3 * Second + 5) = Inr c \<and>
     IsChallengeExpired c (302 * Second) = Inr False \<and> IsChallengeExpired c (304 * Second) = Inr True"
proof -
  let ?t = "3 * Second + 5 :: int"
  obtain c where c: "GenerateChallenge (Some (\<lambda>_. 7)) ?t = Inr c"
    by (simp add: GenerateChallenge_def)
  have ms: "UnixMilli ?t = 3000"
    by code_simp
  then have bounds: "- (2 ^ 63) \<le> UnixMilli ?t" "UnixMilli ?t < 2 ^ 63"
    by simp_all
  show ?thesis
    using c challenge_expires_after_TTL [OF c bounds] by (auto simp: UnixMilli_def duration_defs)
qed

end
