(* ===== verification/Hub.thy ===== *)
theory Hub
  imports Prelude "HOL-Library.AList" "HOL-Library.Char_ord" "HOL-Library.List_Lexorder"
    "HOL-Library.Multiset"
begin

text \<open>
  The pub/sub hub (\<^verbatim>\<open>src/internal/hub/hub.go\<close>). All state of the hub is owned by the one
  goroutine of \<^verbatim>\<open>Run\<close>, which serves one event at a time, so each event is one function on
  the hub: \<open>hub_register\<close>, \<open>hub_unregister\<close>, \<open>hub_broadcast\<close> and \<open>hub_quit\<close> are its select
  branches, \<open>Subscribe\<close>, \<open>Unsubscribe\<close>, \<open>Broadcast\<close> and \<open>Stop\<close> the methods that reach them.
  The map of subscribers is an association list with distinct keys; Go visits it in an
  unspecified order, and that the order does not matter is one of the theorems. A send on
  a closed channel and a second close are panics and make the result \<^const>\<open>None\<close>; a
  \<^verbatim>\<open>Subscribe\<close> that no goroutine will ever answer is \<^const>\<open>None\<close> too. Identifiers are 64-bit
  words: the step relation has no wrap-around of the identifier counter, which takes
  \<open>2^64\<close> subscriptions.
\<close>

section \<open>State\<close>

record subscriber =
  sub_C :: "bytes chan"
  sub_closed :: bool
  sub_id :: u64
  sub_DeviceID :: string

record hub =
  subscribers :: "(u64 \<times> subscriber) list"
  nextID :: u64
  msgCount :: u64
  subCount :: u64
  stopped :: bool

definition subscriberBuffer :: nat where "subscriberBuffer = 64"

text \<open>\<^verbatim>\<open>New\<close>, with \<^verbatim>\<open>Run\<close> started on it.\<close>

definition hub_New :: hub where
  "hub_New = \<lparr>subscribers = [], nextID = 0, msgCount = 0, subCount = 0, stopped = False\<rparr>"

section \<open>Events of the Run loop\<close>

definition hub_register :: "subscriber \<Rightarrow> hub \<Rightarrow> hub" where
  "hub_register s h =
     h\<lparr>subscribers := AList.update (sub_id s) s (subscribers h), subCount := subCount h + 1\<rparr>"

definition hub_unregister :: "u64 \<Rightarrow> hub \<Rightarrow> hub option" where
  "hub_unregister i h =
     (case map_of (subscribers h) i of
        None \<Rightarrow> Some h
      | Some s \<Rightarrow>
          if sub_closed s then None
          else Some (h\<lparr>subscribers := AList.delete i (subscribers h), subCount := subCount h - 1\<rparr>))"

text \<open>
  The loop of a broadcast: the new subscribers, the devices addressed and those whose
  channel took the message.
\<close>

fun hub_fanout ::
  "bytes \<Rightarrow> u64 \<Rightarrow> (u64 \<times> subscriber) list
   \<Rightarrow> ((u64 \<times> subscriber) list \<times> string list \<times> string list) option" where
  "hub_fanout data sender [] = Some ([], [], [])"
| "hub_fanout data sender ((i, s) # rest) =
     (if i = sender
      then (case hub_fanout data sender rest of
              None \<Rightarrow> None
            | Some (subs, sent, delivered) \<Rightarrow> Some ((i, s) # subs, sent, delivered))
      else if sub_closed s then None
      else (let (c, ok) = try_send data (sub_C s) in
            case hub_fanout data sender rest of
              None \<Rightarrow> None
            | Some (subs, sent, delivered) \<Rightarrow>
                Some ((i, s\<lparr>sub_C := c\<rparr>) # subs, sub_DeviceID s # sent,
                      (if ok then sub_DeviceID s # delivered else delivered))))"

record BroadcastResult =
  Sent :: "string list"
  Delivered :: "string list"

definition hub_broadcast :: "bytes \<Rightarrow> u64 \<Rightarrow> hub \<Rightarrow> (hub \<times> BroadcastResult) option" where
  "hub_broadcast data sender h =
     (case hub_fanout data sender (subscribers h) of
        None \<Rightarrow> None
      | Some (subs, sent, delivered) \<Rightarrow>
          Some (h\<lparr>subscribers := subs, msgCount := msgCount h + 1\<rparr>,
                \<lparr>Sent = sort sent, Delivered = sort delivered\<rparr>))"

definition hub_quit :: "hub \<Rightarrow> hub option" where
  "hub_quit h =
     (if list_ex (\<lambda>(i, s). sub_closed s) (subscribers h) then None
      else Some (h\<lparr>subscribers := map (\<lambda>(i, s). (i, s\<lparr>sub_closed := True\<rparr>)) (subscribers h)\<rparr>))"

section \<open>Methods\<close>

definition Subscribe :: "string \<Rightarrow> hub \<Rightarrow> (u64 \<times> hub) option" where
  "Subscribe deviceID h =
     (let i = nextID h + 1;
          s = \<lparr>sub_C = make_chan subscriberBuffer, sub_closed = False, sub_id = i,
               sub_DeviceID = deviceID\<rparr>
      in if stopped h then None else Some (i, hub_register s (h\<lparr>nextID := i\<rparr>)))"

definition Unsubscribe :: "u64 \<Rightarrow> hub \<Rightarrow> hub option" where
  "Unsubscribe i h = (if stopped h then Some h else hub_unregister i h)"

definition Broadcast :: "bytes \<Rightarrow> u64 \<Rightarrow> hub \<Rightarrow> (hub \<times> BroadcastResult) option" where
  "Broadcast data senderID h =
     (if stopped h then Some (h, \<lparr>Sent = [], Delivered = []\<rparr>) else hub_broadcast data senderID h)"

definition MsgTotal :: "hub \<Rightarrow> u64" where "MsgTotal h = msgCount h"
definition SubCount :: "hub \<Rightarrow> u64" where "SubCount h = subCount h"

definition Stop :: "hub \<Rightarrow> hub option" where
  "Stop h = (if stopped h then None else map_option (\<lambda>h. h\<lparr>stopped := True\<rparr>) (hub_quit h))"

text \<open>The receive of a subscriber's goroutine: the next message, if one is queued.\<close>

definition Receive :: "u64 \<Rightarrow> hub \<Rightarrow> (bytes \<times> hub) option" where
  "Receive i h =
     (case map_of (subscribers h) i of
        None \<Rightarrow> None
      | Some s \<Rightarrow>
          (case chan_recv (sub_C s) of
             None \<Rightarrow> None
           | Some (x, c) \<Rightarrow>
               Some (x, h\<lparr>subscribers := AList.update i (s\<lparr>sub_C := c\<rparr>) (subscribers h)\<rparr>)))"

section \<open>Invariant\<close>

definition sub_ok :: "bool \<Rightarrow> u64 \<Rightarrow> u64 \<Rightarrow> subscriber \<Rightarrow> bool" where
  "sub_ok stp maxid i s \<longleftrightarrow>
     sub_id s = i \<and> 0 < i \<and> i \<le> maxid \<and> sub_closed s = stp
     \<and> ch_cap (sub_C s) = subscriberBuffer \<and> length (ch_buf (sub_C s)) \<le> subscriberBuffer"

definition hub_inv :: "hub \<Rightarrow> bool" where
  "hub_inv h \<longleftrightarrow>
     distinct (map fst (subscribers h)) \<and>
     (\<forall>(i, s) \<in> set (subscribers h). sub_ok (stopped h) (nextID h) i s) \<and>
     subCount h = of_nat (length (subscribers h))"

lemma hub_inv_update:
  assumes "distinct (map fst L)" and "\<And>i s. (i, s) \<in> set L \<Longrightarrow> sub_ok stp m i s"
    and "n = of_nat (length L)"
    and "subscribers h = L" "stopped h = stp" "nextID h = m" "subCount h = n"
  shows "hub_inv h"
  using assms by (auto simp: hub_inv_def)

lemma map_fst_keep: "(\<And>x. fst (f x) = fst x) \<Longrightarrow> map fst (map f xs) = map fst xs"
  by simp

lemma hub_inv_New: "hub_inv hub_New"
  by (simp add: hub_inv_def hub_New_def)

lemma hub_inv_sub:
  "hub_inv h \<Longrightarrow> map_of (subscribers h) i = Some s \<Longrightarrow> sub_ok (stopped h) (nextID h) i s"
  by (auto simp: hub_inv_def dest!: map_of_SomeD)

lemma hub_inv_fresh: "hub_inv h \<Longrightarrow> nextID h \<noteq> - 1 \<Longrightarrow> nextID h + 1 \<notin> fst ` set (subscribers h)"
proof
  assume inv: "hub_inv h" and "nextID h \<noteq> - 1" and "nextID h + 1 \<in> fst ` set (subscribers h)"
  then obtain s where "(nextID h + 1, s) \<in> set (subscribers h)"
    by auto
  with inv have "nextID h + 1 \<le> nextID h"
    by (auto simp: hub_inv_def sub_ok_def)
  moreover have "nextID h < nextID h + 1"
    using \<open>nextID h \<noteq> - 1\<close> by (rule word_less_Suc)
  ultimately show False
    by simp
qed

section \<open>The fan-out of one message\<close>

definition fan_sub :: "bytes \<Rightarrow> u64 \<Rightarrow> u64 \<times> subscriber \<Rightarrow> u64 \<times> subscriber" where
  "fan_sub data sender =
     (\<lambda>(i, s). (i, if i = sender then s else s\<lparr>sub_C := fst (try_send data (sub_C s))\<rparr>))"

definition has_room :: "subscriber \<Rightarrow> bool" where
  "has_room s \<longleftrightarrow> length (ch_buf (sub_C s)) < ch_cap (sub_C s)"

text \<open>The devices of the subscribers other than the sender that satisfy a predicate.\<close>

definition others :: "u64 \<Rightarrow> (subscriber \<Rightarrow> bool) \<Rightarrow> (u64 \<times> subscriber) list \<Rightarrow> string list" where
  "others sender P subs = map (\<lambda>(i, s). sub_DeviceID s) (filter (\<lambda>(i, s). i \<noteq> sender \<and> P s) subs)"

lemma hub_fanout_eq:
  assumes "\<And>i s. (i, s) \<in> set subs \<Longrightarrow> \<not> sub_closed s"
  shows "hub_fanout data sender subs =
    Some (map (fan_sub data sender) subs, others sender (\<lambda>s. True) subs, others sender has_room subs)"
  using assms
proof (induction subs)
  case Nil
  then show ?case by (simp add: others_def)
next
  case (Cons x subs)
  obtain i s where x: "x = (i, s)"
    by fastforce
  have IH: "hub_fanout data sender subs =
    Some (map (fan_sub data sender) subs, others sender (\<lambda>s. True) subs, others sender has_room subs)"
    using Cons by auto
  have "\<not> sub_closed s"
    using Cons.prems x by auto
  then show ?case
    by (simp add: IH x others_def fan_sub_def has_room_def try_send_def)
qed

lemma fst_fan_sub [simp]: "fst (fan_sub data sender x) = fst x"
  by (simp add: fan_sub_def split: prod.split)

lemma map_of_fan:
  "map_of (map (fan_sub data sender) subs) i = map_option (\<lambda>s. snd (fan_sub data sender (i, s))) (map_of subs i)"
  by (induction subs) (auto simp: fan_sub_def)

lemma hub_inv_open:
  "hub_inv h \<Longrightarrow> \<not> stopped h \<Longrightarrow> (i, s) \<in> set (subscribers h) \<Longrightarrow> \<not> sub_closed s"
  by (auto simp: hub_inv_def sub_ok_def)

lemma Broadcast_eq:
  assumes "hub_inv h" "\<not> stopped h"
  shows "Broadcast data sender h =
    Some (h\<lparr>subscribers := map (fan_sub data sender) (subscribers h), msgCount := msgCount h + 1\<rparr>,
          \<lparr>Sent = sort (others sender (\<lambda>s. True) (subscribers h)),
           Delivered = sort (others sender has_room (subscribers h))\<rparr>)"
proof -
  have "hub_fanout data sender (subscribers h) =
    Some (map (fan_sub data sender) (subscribers h), others sender (\<lambda>s. True) (subscribers h),
      others sender has_room (subscribers h))"
    using hub_inv_open [OF assms] by (rule hub_fanout_eq)
  then show ?thesis
    using assms(2) by (simp add: Broadcast_def hub_broadcast_def)
qed

section \<open>Association lists\<close>

lemma length_delete_mem:
  "distinct (map fst al) \<Longrightarrow> k \<in> fst ` set al \<Longrightarrow> length al = Suc (length (AList.delete k al))"
proof (induction al)
  case Nil
  then show ?case by simp
next
  case (Cons x al)
  show ?case
  proof (cases "fst x = k")
    case True
    with Cons.prems have "k \<notin> fst ` set al"
      by auto
    with True show ?thesis by (cases x) (simp add: delete_simps)
  next
    case False
    with Cons show ?thesis by (cases x) auto
  qed
qed

lemma update_fresh: "k \<notin> fst ` set al \<Longrightarrow> AList.update k v al = al @ [(k, v)]"
  by (induction al) auto

lemma length_update_mem: "k \<in> fst ` set al \<Longrightarrow> length (AList.update k v al) = length al"
  by (induction al) auto

section \<open>Every operation keeps the invariant and none panics\<close>

lemma sub_ok_fan: "sub_ok stp m i s \<Longrightarrow> sub_ok stp m i (snd (fan_sub data sender (i, s)))"
  by (auto simp: sub_ok_def fan_sub_def try_send_def)

lemma Broadcast_inv:
  assumes "hub_inv h" "Broadcast data sender h = Some (h', r)"
  shows "hub_inv h'"
proof (cases "stopped h")
  case True
  with assms show ?thesis by (simp add: Broadcast_def)
next
  case False
  with assms Broadcast_eq [OF assms(1) False, of data sender]
  have h': "h' = h\<lparr>subscribers := map (fan_sub data sender) (subscribers h), msgCount := msgCount h + 1\<rparr>"
    by simp
  have ok: "sub_ok (stopped h) (nextID h) j t" if mem: "(j, t) \<in> set (map (fan_sub data sender) (subscribers h))" for j t
  proof -
    from mem obtain i s where mem': "(i, s) \<in> set (subscribers h)" "(j, t) = fan_sub data sender (i, s)"
      by auto
    then have "j = i" "t = snd (fan_sub data sender (i, s))"
      by (simp_all add: fan_sub_def)
    with mem'(1) assms(1) show ?thesis
      by (auto simp: hub_inv_def intro: sub_ok_fan)
  qed
  have dist: "distinct (map fst (map (fan_sub data sender) (subscribers h)))"
    using assms(1) by (simp only: map_fst_keep [OF fst_fan_sub] hub_inv_def)
  have "subCount h = of_nat (length (map (fan_sub data sender) (subscribers h)))"
    using assms(1) by (simp add: hub_inv_def)
  with dist ok show ?thesis
    by (rule hub_inv_update) (simp_all add: h')
qed

lemma sub_ok_mono: "sub_ok stp m i s \<Longrightarrow> m \<le> m' \<Longrightarrow> sub_ok stp m' i s"
  by (auto simp: sub_ok_def)

lemma Subscribe_inv:
  assumes "hub_inv h" "nextID h \<noteq> - 1" "Subscribe did h = Some (i, h')"
  shows "hub_inv h'"
proof -
  let ?s = "\<lparr>sub_C = make_chan subscriberBuffer, sub_closed = False, sub_id = nextID h + 1, sub_DeviceID = did\<rparr>"
  have fresh: "nextID h + 1 \<notin> fst ` set (subscribers h)"
    using assms(1,2) by (rule hub_inv_fresh)
  then have upd: "AList.update (nextID h + 1) ?s (subscribers h) = subscribers h @ [(nextID h + 1, ?s)]"
    by (rule update_fresh)
  have less: "nextID h < nextID h + 1"
    using assms(2) by (rule word_less_Suc)
  then have pos: "0 < nextID h + 1"
    by (rule le_less_trans [OF word_zero_le])
  have "\<not> stopped h"
    and h': "h' = h\<lparr>nextID := nextID h + 1, subscribers := subscribers h @ [(nextID h + 1, ?s)],
        subCount := subCount h + 1\<rparr>"
    using assms(3) upd by (auto simp: Subscribe_def hub_register_def Let_def split: if_splits)
  then show ?thesis
    using assms(1) fresh pos less_imp_le [OF less]
    by (auto simp: hub_inv_def sub_ok_def make_chan_def intro: order_trans)
qed

lemma Unsubscribe_inv:
  assumes "hub_inv h" "Unsubscribe i h = Some h'"
  shows "hub_inv h'"
proof (cases "stopped h \<or> map_of (subscribers h) i = None")
  case True
  with assms show ?thesis
    by (auto simp: Unsubscribe_def hub_unregister_def split: option.splits if_splits)
next
  case False
  then obtain s where s: "map_of (subscribers h) i = Some s"
    by auto
  have h': "h' = h\<lparr>subscribers := AList.delete i (subscribers h), subCount := subCount h - 1\<rparr>"
    using assms(2) False s by (auto simp: Unsubscribe_def hub_unregister_def split: if_splits)
  have mem: "i \<in> fst ` set (subscribers h)"
    using s by (metis domI dom_map_of_conv_image_fst)
  have "distinct (map fst (subscribers h))"
    using assms(1) by (simp add: hub_inv_def)
  then have len: "length (subscribers h) = Suc (length (AList.delete i (subscribers h)))"
    using mem by (rule length_delete_mem)
  have "set (AList.delete i (subscribers h)) \<subseteq> set (subscribers h)"
    by (auto simp: AList.delete_eq)
  then show ?thesis
    using assms(1) len unfolding hub_inv_def h'
    by (auto intro: distinct_delete)
qed

lemma Unsubscribe_no_panic: "hub_inv h \<Longrightarrow> \<exists>h'. Unsubscribe i h = Some h'"
  by (auto simp: Unsubscribe_def hub_unregister_def sub_ok_def dest: hub_inv_sub split: option.splits)

lemma Receive_inv:
  assumes "hub_inv h" "Receive i h = Some (x, h')"
  shows "hub_inv h'"
proof -
  from assms(2) obtain s c where s: "map_of (subscribers h) i = Some s"
    and c: "chan_recv (sub_C s) = Some (x, c)"
    and h': "h' = h\<lparr>subscribers := AList.update i (s\<lparr>sub_C := c\<rparr>) (subscribers h)\<rparr>"
    by (auto simp: Receive_def split: option.splits)
  from c have "ch_buf (sub_C s) = x # ch_buf c" "ch_cap c = ch_cap (sub_C s)"
    by (auto simp: chan_recv_def split: list.splits)
  with hub_inv_sub [OF assms(1) s] have ok: "sub_ok (stopped h) (nextID h) i (s\<lparr>sub_C := c\<rparr>)"
    by (auto simp: sub_ok_def)
  have dist: "distinct (map fst (subscribers h))"
    using assms(1) by (simp add: hub_inv_def)
  have "sub_ok (stopped h) (nextID h) j t"
    if "(j, t) \<in> set (AList.update i (s\<lparr>sub_C := c\<rparr>) (subscribers h))" for j t
  proof -
    have "map_of (AList.update i (s\<lparr>sub_C := c\<rparr>) (subscribers h)) j = Some t"
      using that dist by (simp add: distinct_update)
    then show ?thesis
      using ok hub_inv_sub [OF assms(1)] by (auto simp: update_conv split: if_splits)
  qed
  moreover have "length (AList.update i (s\<lparr>sub_C := c\<rparr>) (subscribers h)) = length (subscribers h)"
    using s by (metis domI dom_map_of_conv_image_fst length_update_mem)
  ultimately show ?thesis
    using assms(1) dist unfolding hub_inv_def h' by (auto intro: distinct_update)
qed

lemma Stop_eq:
  assumes "hub_inv h" "\<not> stopped h"
  shows "Stop h = Some (h\<lparr>subscribers := map (\<lambda>(i, s). (i, s\<lparr>sub_closed := True\<rparr>)) (subscribers h),
      stopped := True\<rparr>)"
  using assms hub_inv_open [OF assms] by (auto simp: Stop_def hub_quit_def list_ex_iff)

lemma Stop_inv:
  assumes "hub_inv h" "Stop h = Some h'"
  shows "hub_inv h'"
proof -
  have "\<not> stopped h"
    using assms(2) by (auto simp: Stop_def split: if_splits)
  with assms Stop_eq [OF assms(1)] have
    h': "h' = h\<lparr>subscribers := map (\<lambda>(i, s). (i, s\<lparr>sub_closed := True\<rparr>)) (subscribers h), stopped := True\<rparr>"
    by simp
  let ?close = "\<lambda>(i, s). (i, s\<lparr>sub_closed := True\<rparr>)"
  have "distinct (map fst (map ?close (subscribers h)))"
    using assms(1) by (subst map_fst_keep) (auto simp: hub_inv_def)
  moreover have "sub_ok True (nextID h) i s" if "(i, s) \<in> set (map ?close (subscribers h))" for i s
    using that assms(1) by (auto simp: hub_inv_def sub_ok_def)
  moreover have "subCount h = of_nat (length (map ?close (subscribers h)))"
    using assms(1) by (simp add: hub_inv_def)
  ultimately show ?thesis
    by (rule hub_inv_update) (simp_all add: h')
qed

section \<open>Steps of the hub and its reachable states\<close>

inductive hub_step :: "hub \<Rightarrow> hub \<Rightarrow> bool" where
  step_subscribe: "nextID h \<noteq> - 1 \<Longrightarrow> Subscribe did h = Some (i, h') \<Longrightarrow> hub_step h h'"
| step_unsubscribe: "Unsubscribe i h = Some h' \<Longrightarrow> hub_step h h'"
| step_broadcast: "Broadcast data sender h = Some (h', r) \<Longrightarrow> hub_step h h'"
| step_receive: "Receive i h = Some (x, h') \<Longrightarrow> hub_step h h'"
| step_stop: "Stop h = Some h' \<Longrightarrow> hub_step h h'"

lemma hub_step_inv: "hub_step h h' \<Longrightarrow> hub_inv h \<Longrightarrow> hub_inv h'"
  by (induction rule: hub_step.induct)
    (blast intro: Subscribe_inv Unsubscribe_inv Broadcast_inv Receive_inv Stop_inv)+

interpretation hubs: transition_system "\<lambda>h. h = hub_New" hub_step .

lemma hub_reach_inv: "hubs.reach h \<Longrightarrow> hub_inv h"
  by (rule hubs.invariant) (auto intro: hub_inv_New hub_step_inv)

section \<open>Interface: a bus with bounded queues\<close>

text \<open>
  What a user of the hub relies on: a message reaches the queue of every member but its
  sender unless that queue is full, and nothing else changes in the queues.
\<close>

locale message_bus =
  fixes good :: "'h \<Rightarrow> bool"
    and queue_of :: "'h \<Rightarrow> 'i \<Rightarrow> 'm list option"
    and capacity :: nat
    and publish :: "'m \<Rightarrow> 'i \<Rightarrow> 'h \<Rightarrow> 'h option"
    and publish_seq :: "('m \<times> 'i) list \<Rightarrow> 'h \<Rightarrow> 'h option"
  assumes publish_total: "good h \<Longrightarrow> \<exists>h'. publish m s h = Some h'"
    and publish_good: "good h \<Longrightarrow> publish m s h = Some h' \<Longrightarrow> good h'"
    and publish_queue: "good h \<Longrightarrow> publish m s h = Some h' \<Longrightarrow>
      queue_of h' i = (if i = s then queue_of h i
        else map_option (\<lambda>q. if length q < capacity then q @ [m] else q) (queue_of h i))"
    and publish_seq_Nil: "publish_seq [] h = Some h"
    and publish_seq_Cons: "publish_seq ((m, s) # ps) h =
      (case publish m s h of None \<Rightarrow> None | Some h' \<Rightarrow> publish_seq ps h')"
begin

lemma publish_seq_queue:
  assumes "good h" "\<forall>(m, s) \<in> set ps. s \<noteq> i" "queue_of h i = Some q" "length q \<le> capacity"
  shows "\<exists>h'. publish_seq ps h = Some h' \<and>
    queue_of h' i = Some (q @ take (capacity - length q) (map fst ps))"
  using assms
proof (induction ps arbitrary: h q)
  case Nil
  then show ?case by (simp add: publish_seq_Nil)
next
  case (Cons p ps)
  obtain m s where p: "p = (m, s)"
    by fastforce
  obtain h1 where h1: "publish m s h = Some h1"
    using publish_total [OF Cons.prems(1)] by blast
  let ?q1 = "if length q < capacity then q @ [m] else q"
  have "queue_of h1 i = Some ?q1"
    using publish_queue [OF Cons.prems(1) h1, of i] Cons.prems(2,3) p by auto
  moreover have "length ?q1 \<le> capacity"
    using Cons.prems(4) by simp
  ultimately obtain h' where "publish_seq ps h1 = Some h'"
    "queue_of h' i = Some (?q1 @ take (capacity - length ?q1) (map fst ps))"
    using Cons.IH [OF publish_good [OF Cons.prems(1) h1]] Cons.prems(2) by fastforce
  moreover have "?q1 @ take (capacity - length ?q1) (map fst ps)
      = q @ take (capacity - length q) (map fst (p # ps))"
  proof (cases "length q < capacity")
    case True
    then obtain k where "capacity = Suc (length q + k)"
      by (metis less_iff_Suc_add)
    with True p show ?thesis by simp
  qed simp
  ultimately show ?case
    using p h1 by (auto simp: publish_seq_Cons)
qed

end

definition queue :: "hub \<Rightarrow> u64 \<Rightarrow> bytes list option" where
  "queue h i = map_option (\<lambda>s. ch_buf (sub_C s)) (map_of (subscribers h) i)"

text \<open>Several broadcasts in a row, each with its sender.\<close>

fun Broadcasts :: "(bytes \<times> u64) list \<Rightarrow> hub \<Rightarrow> hub option" where
  "Broadcasts [] h = Some h"
| "Broadcasts ((data, sender) # ps) h =
     (case Broadcast data sender h of None \<Rightarrow> None | Some (h', r) \<Rightarrow> Broadcasts ps h')"

lemma Broadcast_queue:
  assumes "hub_inv h" "\<not> stopped h" "Broadcast data sender h = Some (h', r)"
  shows "queue h' i = (if i = sender then queue h i
    else map_option (\<lambda>q. if length q < subscriberBuffer then q @ [data] else q) (queue h i))"
proof -
  have subs: "subscribers h' = map (fan_sub data sender) (subscribers h)"
    using Broadcast_eq [OF assms(1,2), of data sender] assms(3) by auto
  show ?thesis
  proof (cases "map_of (subscribers h) i")
    case None
    then show ?thesis by (auto simp: queue_def subs map_of_fan)
  next
    case (Some s)
    then have "ch_cap (sub_C s) = subscriberBuffer"
      using hub_inv_sub [OF assms(1)] by (simp add: sub_ok_def)
    moreover have "queue h' i = Some (ch_buf (sub_C (snd (fan_sub data sender (i, s)))))"
      using Some by (simp add: queue_def subs map_of_fan)
    moreover have "queue h i = Some (ch_buf (sub_C s))"
      using Some by (simp add: queue_def)
    ultimately show ?thesis
      by (auto simp: fan_sub_def try_send_def)
  qed
qed

lemma Broadcast_running:
  "hub_inv h \<Longrightarrow> \<not> stopped h \<Longrightarrow> Broadcast data sender h = Some (h', r) \<Longrightarrow> \<not> stopped h'"
  using Broadcast_eq [of h data sender] by auto

interpretation bus: message_bus "\<lambda>h. hub_inv h \<and> \<not> stopped h" queue subscriberBuffer
  "\<lambda>m s h. map_option fst (Broadcast m s h)" Broadcasts
proof unfold_locales
  fix h :: hub and m s
  assume h: "hub_inv h \<and> \<not> stopped h"
  then show "\<exists>h'. map_option fst (Broadcast m s h) = Some h'"
    by (simp add: Broadcast_eq)
  fix h' i
  assume "map_option fst (Broadcast m s h) = Some h'"
  then obtain r where "Broadcast m s h = Some (h', r)"
    by auto
  with h show "hub_inv h' \<and> \<not> stopped h'"
    "queue h' i = (if i = s then queue h i
        else map_option (\<lambda>q. if length q < subscriberBuffer then q @ [m] else q) (queue h i))"
    by (auto simp: Broadcast_queue intro: Broadcast_inv dest: Broadcast_running)
qed (simp_all split: option.split)

section \<open>Properties of the hub\<close>

text \<open>
  C18: From the start of the hub, whatever sequence of events it serves, its invariant
  holds: distinct non-zero identifiers, no queue over 64 messages, the subscriber counter
  equal to the number of subscribers, and channels closed only by the stop. No event then
  makes the goroutine panic on a closed channel, and a running hub can be stopped.
\<close>

theorem hub_never_panics:
  assumes "hubs.reach h"
  shows "hub_inv h \<and> (\<exists>h'. Unsubscribe i h = Some h') \<and> (\<exists>h' r. Broadcast data sender h = Some (h', r))
    \<and> (\<exists>h'. stopped h \<or> Stop h = Some h')"
proof -
  have inv: "hub_inv h"
    using assms by (rule hub_reach_inv)
  moreover have "\<exists>h' r. Broadcast data sender h = Some (h', r)"
  proof (cases "stopped h")
    case True
    then show ?thesis by (simp add: Broadcast_def)
  next
    case False
    then show ?thesis by (simp add: Broadcast_eq inv)
  qed
  ultimately show ?thesis
    using Unsubscribe_no_panic [OF inv] Stop_eq [OF inv] by auto
qed

definition hub_two :: hub where
  "hub_two = snd (the (Subscribe ''B'' (snd (the (Subscribe ''A'' hub_New)))))"

lemma hub_two_reach: "hubs.reach hub_two"
proof -
  have "Subscribe ''A'' hub_New = Some (1, snd (the (Subscribe ''A'' hub_New)))"
    by (simp add: Subscribe_def hub_New_def hub_register_def)
  moreover have "nextID hub_New \<noteq> - 1"
    by (simp add: hub_New_def)
  ultimately have one: "hubs.reach (snd (the (Subscribe ''A'' hub_New)))"
    by (blast intro: hubs.reach_step [OF hubs.reach_init] step_subscribe)
  have "Subscribe ''B'' (snd (the (Subscribe ''A'' hub_New))) = Some (2, hub_two)"
    by (simp add: Subscribe_def hub_New_def hub_register_def hub_two_def)
  moreover have "nextID (snd (the (Subscribe ''A'' hub_New))) \<noteq> - 1"
    by (simp add: Subscribe_def hub_New_def hub_register_def)
  ultimately show ?thesis
    by (blast intro: hubs.reach_step [OF one] step_subscribe)
qed

lemmas hub_two_inv = hub_two_reach [THEN hub_reach_inv]

lemma hub_two_simps:
  "subscribers hub_two =
     [(1, \<lparr>sub_C = make_chan subscriberBuffer, sub_closed = False, sub_id = 1, sub_DeviceID = ''A''\<rparr>),
      (2, \<lparr>sub_C = make_chan subscriberBuffer, sub_closed = False, sub_id = 2, sub_DeviceID = ''B''\<rparr>)]"
  "\<not> stopped hub_two"
  by (simp_all add: hub_two_def Subscribe_def hub_New_def hub_register_def)

theorem hub_never_panics_witness:
  "hub_inv hub_two \<and> (\<exists>h'. Unsubscribe 1 hub_two = Some h')
   \<and> (\<exists>h' r. Broadcast [7] 2 hub_two = Some (h', r)) \<and> (\<exists>h'. stopped hub_two \<or> Stop hub_two = Some h')"
  by (rule hub_never_panics [OF hub_two_reach])

text \<open>
  C19: A broadcast through a running hub is addressed to every subscriber but its sender
  and reported to have reached exactly those with room in their queue; each of these
  finds the message at the end of its queue, and no other queue changes.
\<close>

theorem Broadcast_spec:
  assumes "hub_inv h" and "\<not> stopped h"
  shows "\<exists>h' r. Broadcast data sender h = Some (h', r) \<and>
    Sent r = sort [sub_DeviceID s. (i, s) \<leftarrow> subscribers h, i \<noteq> sender] \<and>
    Delivered r = sort [sub_DeviceID s. (i, s) \<leftarrow> subscribers h,
      i \<noteq> sender \<and> length (ch_buf (sub_C s)) < subscriberBuffer] \<and>
    MsgTotal h' = MsgTotal h + 1 \<and>
    queue h' = (\<lambda>i. if i = sender then queue h i
      else map_option (\<lambda>q. if length q < subscriberBuffer then q @ [data] else q) (queue h i))"
proof -
  have conc: "[sub_DeviceID s. (i, s) \<leftarrow> xs, P i s] = map (\<lambda>(i, s). sub_DeviceID s) (filter (\<lambda>(i, s). P i s) xs)"
    for P and xs :: "(u64 \<times> subscriber) list"
    by (induction xs) auto
  have room: "filter (\<lambda>(i, s). i \<noteq> sender \<and> has_room s) (subscribers h)
      = filter (\<lambda>(i, s). i \<noteq> sender \<and> length (ch_buf (sub_C s)) < subscriberBuffer) (subscribers h)"
    using assms(1) by (intro filter_cong) (auto simp: hub_inv_def sub_ok_def has_room_def)
  let ?h' = "h\<lparr>subscribers := map (fan_sub data sender) (subscribers h), msgCount := msgCount h + 1\<rparr>"
  let ?r = "\<lparr>Sent = sort (others sender (\<lambda>s. True) (subscribers h)),
           Delivered = sort (others sender has_room (subscribers h))\<rparr>"
  have b: "Broadcast data sender h = Some (?h', ?r)"
    by (rule Broadcast_eq [OF assms])
  have "queue ?h' = (\<lambda>i. if i = sender then queue h i
      else map_option (\<lambda>q. if length q < subscriberBuffer then q @ [data] else q) (queue h i))"
    using Broadcast_queue [OF assms b] by blast
  with b show ?thesis
    by (intro exI [of _ ?h'] exI [of _ ?r]) (simp add: conc others_def room MsgTotal_def)
qed

lemma hub_two_queue: "queue hub_two 1 = Some []" "queue hub_two 2 = Some []"
  by (simp_all add: queue_def hub_two_simps(1) make_chan_def)

theorem Broadcast_spec_witness:
  "\<exists>h' r. Broadcast [7] 2 hub_two = Some (h', r) \<and> Sent r = [''A''] \<and> Delivered r = [''A''] \<and>
     queue h' 1 = Some [[7]] \<and> queue h' 2 = Some []"
  using Broadcast_spec [OF hub_two_inv hub_two_simps(2), of "[7]" 2]
  by (auto simp: hub_two_simps(1) hub_two_queue make_chan_def subscriberBuffer_def)

text \<open>
  The order in which Go visits the map of subscribers has no effect: two hubs that
  hold the same subscribers give the same report and hold the same subscribers afterwards.
\<close>

theorem Broadcast_order_irrelevant:
  assumes "hub_inv h" and "\<not> stopped h" and "mset xs = mset (subscribers h)"
    and "Broadcast data sender h = Some (h1, r1)"
    and "Broadcast data sender (h\<lparr>subscribers := xs\<rparr>) = Some (h2, r2)"
  shows "r1 = r2 \<and> mset (subscribers h1) = mset (subscribers h2)"
proof -
  have "mset (map fst xs) = mset (map fst (subscribers h))"
    using assms(3) by simp
  then have "distinct (map fst xs)"
    using assms(1) by (metis hub_inv_def mset_eq_imp_distinct_iff)
  then have inv: "hub_inv (h\<lparr>subscribers := xs\<rparr>)"
    using assms(1) mset_eq_setD [OF assms(3)] mset_eq_length [OF assms(3)] by (simp add: hub_inv_def)
  have oth: "sort (others sender P xs) = sort (others sender P (subscribers h))" for P
    using assms(3) by (intro properties_for_sort) (simp_all add: others_def)
  show ?thesis
    using assms Broadcast_eq [OF assms(1,2), of data sender] Broadcast_eq [OF inv, of data sender]
    by (auto simp: oth)
qed

theorem Broadcast_order_irrelevant_witness:
  "\<exists>h1 h2 r. Broadcast [7] 1 hub_two = Some (h1, r) \<and>
     Broadcast [7] 1 (hub_two\<lparr>subscribers := rev (subscribers hub_two)\<rparr>) = Some (h2, r) \<and>
     mset (subscribers h1) = mset (subscribers h2)"
proof -
  let ?h = "hub_two\<lparr>subscribers := rev (subscribers hub_two)\<rparr>"
  obtain h1 r1 where b1: "Broadcast [7] 1 hub_two = Some (h1, r1)"
    using Broadcast_eq [OF hub_two_inv hub_two_simps(2)] by blast
  have "hub_inv ?h"
    using hub_two_inv by (auto simp: hub_inv_def rev_map [symmetric])
  then obtain h2 r2 where b2: "Broadcast [7] 1 ?h = Some (h2, r2)"
    using Broadcast_eq [of ?h] hub_two_simps(2) by auto
  show ?thesis
    using Broadcast_order_irrelevant [OF hub_two_inv hub_two_simps(2) _ b1 b2] b1 b2 by auto
qed

text \<open>
  C27: A subscriber that does not read keeps what others broadcast in the order they did,
  up to 64 messages; what arrives on the full queue is dropped and nothing queued is lost.
\<close>

theorem Broadcasts_fifo:
  assumes "hub_inv h" and "\<not> stopped h" and "\<forall>(data, sender) \<in> set ps. sender \<noteq> i"
    and "queue h i = Some q"
  shows "\<exists>h'. Broadcasts ps h = Some h' \<and>
    queue h' i = Some (q @ take (subscriberBuffer - length q) (map fst ps))"
proof -
  have "length q \<le> subscriberBuffer"
    using hub_inv_sub [OF assms(1)] assms(4) by (auto simp: queue_def sub_ok_def)
  then show ?thesis
    using bus.publish_seq_queue [of h ps i q] assms by blast
qed

theorem Broadcasts_fifo_witness:
  "\<exists>h'. Broadcasts (replicate 70 ([7], 2)) hub_two = Some h' \<and> queue h' 1 = Some (replicate 64 [7])"
  using Broadcasts_fifo [OF hub_two_inv hub_two_simps(2), of "replicate 70 ([7], 2)" 1 "[]"]
  by (simp add: queue_def hub_two_simps(1) make_chan_def subscriberBuffer_def)

end
