(* ===== verification/Files.thy ===== *)
theory Files
  imports Prelude "HOL-Library.AList"
begin

text \<open>
  What the program uses of the operating system's files below one root directory: the
  directories of the root with their files, the plain files of the root, and the results
  of \<^verbatim>\<open>os.MkdirAll\<close>, \<^verbatim>\<open>os.Stat\<close>, \<^verbatim>\<open>os.OpenFile\<close>, \<^verbatim>\<open>os.RemoveAll\<close> and writes at the end of an open
  file. Every call may fail: the failures of one operation are an argument (\<open>faults\<close>), as
  predicates on the paths it touches. A file is found by its directory and its name. The
  last section prints natural numbers in decimal, as \<^verbatim>\<open>%d\<close> does.
\<close>

section \<open>Directories and files\<close>

record fs =
  fs_root :: bool
  fs_dirs :: "(string \<times> (string \<times> string) list) list"
  fs_plain :: "string list"

record faults =
  stat_fails :: "string \<Rightarrow> string \<Rightarrow> bool"
  open_fails :: "string \<Rightarrow> string \<Rightarrow> bool"

definition no_faults :: faults where
  "no_faults = \<lparr>stat_fails = (\<lambda>_ _. False), open_fails = (\<lambda>_ _. False)\<rparr>"

definition has_dir :: "fs \<Rightarrow> string \<Rightarrow> bool" where
  "has_dir fs d \<longleftrightarrow> map_of (fs_dirs fs) d \<noteq> None"

definition fs_file :: "fs \<Rightarrow> string \<Rightarrow> string \<Rightarrow> string option" where
  "fs_file fs d n = (case map_of (fs_dirs fs) d of None \<Rightarrow> None | Some fl \<Rightarrow> map_of fl n)"

definition fs_put :: "string \<Rightarrow> string \<Rightarrow> string \<Rightarrow> fs \<Rightarrow> fs" where
  "fs_put d n c fs =
     (case map_of (fs_dirs fs) d of
        None \<Rightarrow> fs
      | Some fl \<Rightarrow> fs\<lparr>fs_dirs := AList.update d (AList.update n c fl) (fs_dirs fs)\<rparr>)"

text \<open>\<^verbatim>\<open>os.MkdirAll\<close> of a directory of the root: it fails where a plain file has the name.\<close>

definition MkdirAll :: "bool \<Rightarrow> string \<Rightarrow> fs \<Rightarrow> fs option" where
  "MkdirAll fails d fs =
     (if fails \<or> d \<in> set (fs_plain fs) then None
      else if has_dir fs d then Some fs
      else Some (fs\<lparr>fs_root := True, fs_dirs := fs_dirs fs @ [(d, [])]\<rparr>))"

text \<open>\<^verbatim>\<open>os.OpenFile\<close> with create and append: a missing file is created empty.\<close>

definition OpenAppend :: "bool \<Rightarrow> string \<Rightarrow> string \<Rightarrow> fs \<Rightarrow> fs option" where
  "OpenAppend fails d n fs =
     (if fails \<or> \<not> has_dir fs d then None
      else Some (if fs_file fs d n = None then fs_put d n [] fs else fs))"

text \<open>A write at the end of an open file; a file that was removed meanwhile takes no trace of it.\<close>

definition append_file :: "string \<Rightarrow> string \<Rightarrow> string \<Rightarrow> fs \<Rightarrow> fs" where
  "append_file d n s fs = (case fs_file fs d n of None \<Rightarrow> fs | Some c \<Rightarrow> fs_put d n (c @ s) fs)"

text \<open>\<^verbatim>\<open>os.RemoveAll\<close>: a failure may leave any part of the directory's files.\<close>

definition RemoveAll :: "(string \<Rightarrow> bool) option \<Rightarrow> string \<Rightarrow> fs \<Rightarrow> bool \<times> fs" where
  "RemoveAll fault d fs =
     (case fault of
        None \<Rightarrow> (True, fs\<lparr>fs_dirs := AList.delete d (fs_dirs fs)\<rparr>)
      | Some keep \<Rightarrow>
          (False, fs\<lparr>fs_dirs := map (\<lambda>(e, fl). (e, if e = d then filter (\<lambda>(n, c). keep n) fl else fl)) (fs_dirs fs)\<rparr>))"

lemma fs_file_put:
  "fs_file (fs_put d n c fs) d' n' =
     (if d' = d \<and> n' = n \<and> has_dir fs d then Some c else fs_file fs d' n')"
  by (auto simp: fs_file_def fs_put_def has_dir_def update_conv' split: option.splits)

lemma has_dir_put [simp]: "has_dir (fs_put d n c fs) d' = has_dir fs d'"
  by (auto simp: fs_put_def has_dir_def update_conv' split: option.splits)

lemma fs_file_has_dir: "fs_file fs d n = Some c \<Longrightarrow> has_dir fs d"
  by (auto simp: fs_file_def has_dir_def split: option.splits)

lemma MkdirAll_file: "MkdirAll b d fs = Some fs' \<Longrightarrow> fs_file fs' d' n = fs_file fs d' n"
  by (auto simp: MkdirAll_def fs_file_def has_dir_def map_add_def split: if_splits option.splits)

lemma MkdirAll_has_dir:
  "MkdirAll b d fs = Some fs' \<Longrightarrow> has_dir fs' d' \<longleftrightarrow> d' = d \<or> has_dir fs d'"
  by (auto simp: MkdirAll_def has_dir_def map_add_def split: if_splits option.splits)

lemma OpenAppend_file:
  "OpenAppend b d n fs = Some fs' \<Longrightarrow>
     fs_file fs' d' n' = (if d' = d \<and> n' = n \<and> fs_file fs d n = None then Some [] else fs_file fs d' n')"
  by (auto simp: OpenAppend_def fs_file_put split: if_splits)

lemma OpenAppend_has_dir: "OpenAppend b d n fs = Some fs' \<Longrightarrow> has_dir fs' d' = has_dir fs d'"
  by (auto simp: OpenAppend_def split: if_splits)

lemma append_file_file:
  "fs_file (append_file d n s fs) d' n' =
     (if d' = d \<and> n' = n then map_option (\<lambda>c. c @ s) (fs_file fs d n) else fs_file fs d' n')"
  by (auto simp: append_file_def fs_file_put dest: fs_file_has_dir split: option.splits)

lemma has_dir_append [simp]: "has_dir (append_file d n s fs) d' = has_dir fs d'"
  by (simp add: append_file_def split: option.split)

lemma finite_fs_file: "finite {n. fs_file fs d n \<noteq> None}"
proof (cases "map_of (fs_dirs fs) d")
  case None
  then show ?thesis by (simp add: fs_file_def)
next
  case (Some fl)
  then have "{n. fs_file fs d n \<noteq> None} = dom (map_of fl)"
    by (auto simp: fs_file_def)
  then show ?thesis
    by (simp add: finite_dom_map_of)
qed

section \<open>Decimal numbers\<close>

fun dec :: "nat \<Rightarrow> string" where
  "dec n = (if n < 10 then [char_of (48 + n)] else dec (n div 10) @ [char_of (48 + n mod 10)])"

declare dec.simps [simp del]

definition undec :: "string \<Rightarrow> nat" where
  "undec s = foldl (\<lambda>a c. 10 * a + (of_char c - 48)) 0 s"

lemma undec_dec [simp]: "undec (dec n) = n"
proof (induction n rule: dec.induct)
  case (1 n)
  show ?case
  proof (cases "n < 10")
    case True
    then show ?thesis
      by (subst dec.simps) (simp add: undec_def)
  next
    case False
    with 1 show ?thesis
      by (subst dec.simps) (simp add: undec_def)
  qed
qed

lemma dec_inject [simp]: "dec m = dec n \<longleftrightarrow> m = n"
  by (metis undec_dec)

lemma dec_digits: "c \<in> set (dec n) \<Longrightarrow> 48 \<le> (of_char c :: nat) \<and> (of_char c :: nat) \<le> 57"
proof (induction n rule: dec.induct)
  case (1 n)
  have "48 \<le> (of_char c :: nat) \<and> (of_char c :: nat) \<le> 57"
    if "c = char_of (48 + k)" "k < (10 :: nat)" for k
    using that by simp
  moreover have "n mod 10 < 10"
    by simp
  ultimately show ?case
    using 1 by (subst (asm) (2) dec.simps) (auto split: if_splits)
qed

lemma dec_nonempty [simp]: "dec n \<noteq> []"
  by (subst dec.simps) simp

end
