(* ===== verification/Wire_Frame.thy ===== *)
theory Wire_Frame
  imports Prelude
begin

text \<open>
  The binary frame of the device protocol (\<^verbatim>\<open>src/internal/tcp/frame.go\<close>):
  \<^verbatim>\<open>$ | Addr | Cmd | DataLen(2, LE) | Data | CRC\<close>, where the CRC is the XOR of every byte before
  it. The operations are \<open>crcCalc\<close>, \<open>EncodeFrame\<close> and \<open>DecodeFrame\<close>; the encoder panics
  on more than 1024 data bytes, which the model makes the result \<^const>\<open>None\<close>. The main
  facts are that encoder and decoder are each other's inverse on exactly the frames the
  protocol allows, and that a change of any one byte of a frame is refused.
\<close>

unbundle bit_operations_syntax

section \<open>Constants\<close>

named_theorems proto_consts \<open>the numeric constants of the protocol\<close>

definition FramePreamble :: byte where [proto_consts]: "FramePreamble = 0x24"
definition FrameMinLen :: nat where [proto_consts]: "FrameMinLen = 6"
definition FrameMaxDataLen :: nat where [proto_consts]: "FrameMaxDataLen = 1024"
definition FrameMaxLen :: nat where [proto_consts]: "FrameMaxLen = FrameMinLen + FrameMaxDataLen"

definition AddrAuthCommand :: byte where [proto_consts]: "AddrAuthCommand = 0x60"
definition AddrParamRequest :: byte where [proto_consts]: "AddrParamRequest = 0x61"
definition AddrServerStatus :: byte where [proto_consts]: "AddrServerStatus = 0x63"
definition AddrChallengeResponse :: byte where [proto_consts]: "AddrChallengeResponse = 0x64"
definition AddrDeviceRegular :: byte where [proto_consts]: "AddrDeviceRegular = 0x76"
definition AddrBroadcast :: byte where [proto_consts]: "AddrBroadcast = 0x70"
definition AddrTimeRequest :: byte where [proto_consts]: "AddrTimeRequest = 0x66"
definition AddrTimeResponse :: byte where [proto_consts]: "AddrTimeResponse = 0x67"

definition CmdAuth :: byte where [proto_consts]: "CmdAuth = 0x65"
definition CmdRegular :: byte where [proto_consts]: "CmdRegular = 0x59"

definition StatusOK :: byte where [proto_consts]: "StatusOK = 0x00"
definition StatusAuthorized :: byte where [proto_consts]: "StatusAuthorized = 0x01"
definition StatusSpecError :: byte where [proto_consts]: "StatusSpecError = 0x03"
definition StatusDataLenError :: byte where [proto_consts]: "StatusDataLenError = 0x05"
definition StatusDataValueError :: byte where [proto_consts]: "StatusDataValueError = 0x06"
definition StatusTimeoutError :: byte where [proto_consts]: "StatusTimeoutError = 0x08"
definition StatusCmdExecError :: byte where [proto_consts]: "StatusCmdExecError = 0x0A"

definition DeviceIDSize :: nat where [proto_consts]: "DeviceIDSize = 14"
definition TimeDataLen :: nat where [proto_consts]: "TimeDataLen = 8"
definition TimeResponseDataLen :: nat where [proto_consts]: "TimeResponseDataLen = 16"
definition AuthProtocolVersion :: byte where [proto_consts]: "AuthProtocolVersion = 0x01"

section \<open>Frames\<close>

record frame =
  Addr :: byte
  Cmd :: byte
  Data :: bytes

text \<open>The errors of the decoder, with the values their messages print.\<close>

datatype frame_error =
    FrameTooShort nat
  | BadPreamble byte
  | DataTooLarge nat
  | LengthMismatch nat nat
  | CRCMismatch byte byte

text \<open>\<^verbatim>\<open>crcCalc\<close>: the first byte, then every later byte XORed onto it.\<close>

definition crcCalc :: "bytes \<Rightarrow> byte" where
  "crcCalc buf = (case buf of [] \<Rightarrow> 0 | b # bs \<Rightarrow> foldl (\<lambda>crc x. crc XOR x) b bs)"

definition EncodeFrame :: "frame \<Rightarrow> bytes option" where
  "EncodeFrame f =
     (let dataLen = length (Data f) in
      if dataLen > FrameMaxDataLen then None
      else let buf = [FramePreamble, Addr f, Cmd f] @ PutUint16 (of_nat dataLen) @ Data f
           in Some (buf @ [crcCalc buf]))"

definition DecodeFrame :: "bytes \<Rightarrow> frame_error + frame" where
  "DecodeFrame raw =
     (if length raw < FrameMinLen then Inl (FrameTooShort (length raw))
      else if raw ! 0 \<noteq> FramePreamble then Inl (BadPreamble (raw ! 0))
      else let dataLen = unat (Uint16 (slice 3 5 raw)) in
        if dataLen > FrameMaxDataLen then Inl (DataTooLarge dataLen)
        else let expectedLen = FrameMinLen + dataLen in
          if length raw \<noteq> expectedLen then Inl (LengthMismatch (length raw) expectedLen)
          else let expectedCRC = crcCalc (take (expectedLen - 1) raw);
                   actualCRC = raw ! (expectedLen - 1)
            in if expectedCRC \<noteq> actualCRC then Inl (CRCMismatch expectedCRC actualCRC)
               else Inr \<lparr>Addr = raw ! 1, Cmd = raw ! 2, Data = slice 5 (5 + dataLen) raw\<rparr>)"

section \<open>The checksum is the XOR of all bytes\<close>

fun xor_all :: "bytes \<Rightarrow> byte" where
  "xor_all [] = 0"
| "xor_all (b # bs) = b XOR xor_all bs"

lemma foldl_xor: "foldl (\<lambda>crc x. crc XOR x) b bs = b XOR xor_all bs"
  by (induction bs arbitrary: b) (simp_all add: xor.assoc)

lemma crcCalc_xor_all: "crcCalc bs = xor_all bs"
  by (cases bs) (simp_all add: crcCalc_def foldl_xor)

lemma xor_all_append [simp]: "xor_all (as @ bs) = xor_all as XOR xor_all bs"
  by (induction as) (simp_all add: xor.assoc)

lemma xor_eq_0_iff: "(a :: byte) XOR b = 0 \<longleftrightarrow> a = b"
  by (metis xor.commute xor.left_neutral xor_self_eq xor.assoc)

lemma xor_all_update:
  assumes "i < length bs"
  shows "xor_all (bs[i := c]) = xor_all bs XOR (bs ! i XOR c)"
  using assms
proof (induction bs arbitrary: i)
  case Nil
  then show ?case by simp
next
  case (Cons b bs)
  show ?case
  proof (cases i)
    case 0
    have "c = b XOR (b XOR c)"
      by (simp add: xor.assoc [symmetric])
    then show ?thesis
      using 0 by (simp add: ac_simps)
  next
    case (Suc j)
    with Cons show ?thesis by (simp add: ac_simps)
  qed
qed

section \<open>Shape of encoded frames\<close>

definition frame_wf :: "frame \<Rightarrow> bool" where
  "frame_wf f \<longleftrightarrow> length (Data f) \<le> FrameMaxDataLen"

definition frame_header :: "frame \<Rightarrow> bytes" where
  "frame_header f = [FramePreamble, Addr f, Cmd f] @ PutUint16 (of_nat (length (Data f)))"

definition frame_bytes :: "frame \<Rightarrow> bytes" where
  "frame_bytes f = (frame_header f @ Data f) @ [xor_all (frame_header f @ Data f)]"

lemma EncodeFrame_eq: "EncodeFrame f = (if frame_wf f then Some (frame_bytes f) else None)"
  by (simp add: EncodeFrame_def frame_wf_def frame_bytes_def frame_header_def Let_def crcCalc_xor_all)

lemma length_frame_header [simp]: "length (frame_header f) = 5"
  by (simp add: frame_header_def)

lemma length_frame_bytes [simp]: "length (frame_bytes f) = FrameMinLen + length (Data f)"
  by (simp add: frame_bytes_def FrameMinLen_def)

lemma EncodeFrame_length: "EncodeFrame f = Some raw \<Longrightarrow> length raw = FrameMinLen + length (Data f)"
  by (auto simp: EncodeFrame_eq split: if_splits)

lemma EncodeFrame_wf: "EncodeFrame f = Some raw \<Longrightarrow> frame_wf f"
  by (auto simp: EncodeFrame_eq split: if_splits)

lemma xor_all_frame_bytes: "xor_all (frame_bytes f) = 0"
proof -
  have "xor_all (bs @ [xor_all bs]) = 0" for bs
    by simp
  then show ?thesis by (simp only: frame_bytes_def)
qed

lemma EncodeFrame_xor_all: "EncodeFrame f = Some raw \<Longrightarrow> xor_all raw = 0"
  by (auto simp: EncodeFrame_eq xor_all_frame_bytes split: if_splits)

lemma frame_header_parts [frame_simps]:
  "frame_header f ! 0 = FramePreamble" "frame_header f ! Suc 0 = Addr f"
  "frame_header f ! 2 = Cmd f" "slice 3 5 (frame_header f) = PutUint16 (of_nat (length (Data f)))"
  by (simp_all add: frame_header_def slice_def)

lemma slice_append_left: "j \<le> length as \<Longrightarrow> slice i j (as @ bs) = slice i j as"
  by (simp add: slice_def)

lemma frame_bytes_parts [frame_simps]:
  "frame_bytes f ! 0 = FramePreamble" "frame_bytes f ! Suc 0 = Addr f" "frame_bytes f ! 2 = Cmd f"
  "slice 3 5 (frame_bytes f) = PutUint16 (of_nat (length (Data f)))"
  "take 5 (frame_bytes f) = frame_header f"
  by (simp_all add: frame_bytes_def frame_header_parts nth_append slice_append_left
      del: append_assoc)

lemma frame_wf_length16:
  "frame_wf f \<Longrightarrow> unat (of_nat (length (Data f)) :: u16) = length (Data f)"
  by (simp add: frame_wf_def FrameMaxDataLen_def unat_of_nat)

lemma DecodeFrame_frame_bytes:
  assumes "frame_wf f"
  shows "DecodeFrame (frame_bytes f) = Inr f"
proof -
  let ?n = "length (Data f)"
  have len: "unat (Uint16 (slice 3 5 (frame_bytes f))) = ?n"
    using frame_wf_length16 [OF assms] by (simp add: frame_simps le_simps)
  have data: "slice 5 (5 + ?n) (frame_bytes f) = Data f"
    using slice_append_exact [of "frame_header f" 5 "Data f" "5 + ?n"] by (simp add: frame_bytes_def)
  have crc: "take (5 + ?n) (frame_bytes f) = frame_header f @ Data f"
    "frame_bytes f ! (5 + ?n) = xor_all (frame_header f @ Data f)"
    by (simp_all add: frame_bytes_def nth_append)
  show ?thesis
    using assms data crc
    by (simp add: DecodeFrame_def Let_def len crcCalc_xor_all frame_bytes_parts(1-3) FrameMinLen_def
        frame_wf_def del: xor_all_append)
qed

lemma DecodeFrame_Inr:
  assumes "DecodeFrame raw = Inr f"
  shows "frame_wf f \<and> raw = frame_bytes f"
proof -
  let ?n = "unat (Uint16 (slice 3 5 raw))"
  from assms have n: "?n \<le> FrameMaxDataLen" and len: "length raw = 6 + ?n"
    and pre: "raw ! 0 = FramePreamble"
    and crc: "xor_all (take (5 + ?n) raw) = raw ! (5 + ?n)"
    and f: "f = \<lparr>Addr = raw ! 1, Cmd = raw ! 2, Data = slice 5 (5 + ?n) raw\<rparr>"
    by (auto simp: DecodeFrame_def Let_def crcCalc_xor_all FrameMinLen_def split: if_splits)
  have dlen: "length (Data f) = ?n"
    using len by (simp add: f)
  have hdr: "take 5 raw = frame_header f"
  proof -
    have "take 5 raw = take 3 raw @ slice 3 5 raw"
      by (simp add: slice_def flip: take_add)
    moreover have "take 3 raw = [raw ! 0, raw ! 1, raw ! 2]"
      using len by (auto simp: take_Suc_conv_app_nth numeral_eq_Suc)
    moreover have "slice 3 5 raw = PutUint16 (of_nat ?n)"
      using PutUint16_Uint16 [of "slice 3 5 raw"] len by simp
    ultimately show ?thesis
      using pre dlen by (simp add: frame_header_def f)
  qed
  have "take (5 + ?n) raw = take 5 raw @ Data f"
    by (simp add: f slice_def take_add)
  with hdr have body: "take (5 + ?n) raw = frame_header f @ Data f"
    by simp
  have "raw = take (5 + ?n) raw @ [raw ! (5 + ?n)]"
    using len by (simp add: take_Suc_conv_app_nth [symmetric])
  with body crc have "raw = frame_bytes f"
    by (simp add: frame_bytes_def del: xor_all_append)
  moreover have "frame_wf f"
    using n dlen by (simp add: frame_wf_def)
  ultimately show ?thesis by simp
qed

interpretation frame: codec frame_bytes DecodeFrame frame_wf
  by unfold_locales (auto simp: DecodeFrame_frame_bytes dest: DecodeFrame_Inr)

lemma DecodeFrame_eq_Inr: "DecodeFrame raw = Inr f \<longleftrightarrow> EncodeFrame f = Some raw"
  by (auto simp: frame.dec_iff EncodeFrame_eq)

lemma DecodeFrame_xor_all: "DecodeFrame raw = Inr f \<Longrightarrow> xor_all raw = 0"
  by (auto simp: DecodeFrame_eq_Inr dest: EncodeFrame_xor_all)

section \<open>Properties of the frame format\<close>

text \<open>
  C9: A buffer decodes to a frame exactly when it is that frame's encoding. Every frame
  the encoder accepts survives the round trip, and the decoder accepts no other buffer:
  each frame has one representation on the wire.
\<close>

theorem DecodeFrame_iff_EncodeFrame:
  "DecodeFrame raw = Inr f \<longleftrightarrow> EncodeFrame f = Some raw"
  by (rule DecodeFrame_eq_Inr)

text \<open>
  C24: A frame in which any single byte was changed, whether preamble, address, command,
  length, data or checksum, is refused by the decoder.
\<close>

theorem DecodeFrame_detects_byte_error:
  assumes "EncodeFrame f = Some raw" and "i < length raw" and "b \<noteq> raw ! i"
  shows "\<exists>e. DecodeFrame (raw[i := b]) = Inl e"
proof (cases "DecodeFrame (raw[i := b])")
  case (Inr g)
  then have "xor_all (raw[i := b]) = 0"
    by (rule DecodeFrame_xor_all)
  moreover have "xor_all raw = 0"
    using assms(1) by (rule EncodeFrame_xor_all)
  ultimately have "raw ! i XOR b = 0"
    using xor_all_update [OF assms(2), of b] by simp
  with assms(3) show ?thesis
    by (simp add: xor_eq_0_iff)
qed simp

theorem DecodeFrame_detects_byte_error_witness:
  "EncodeFrame \<lparr>Addr = 0x63, Cmd = 0x65, Data = [1]\<rparr> = Some [0x24, 0x63, 0x65, 1, 0, 1, 0x22]
   \<and> (\<exists>e. DecodeFrame ([0x24, 0x63, 0x65, 1, 0, 1, 0x22][5 := 6]) = Inl e)"
proof -
  have enc: "EncodeFrame \<lparr>Addr = 0x63, Cmd = 0x65, Data = [1]\<rparr> = Some [0x24, 0x63, 0x65, 1, 0, 1, 0x22]"
    by code_simp
  show ?thesis
    using enc DecodeFrame_detects_byte_error [OF enc, of 5 6] by simp
qed

end
