(* ===== verification/Device_Id.thy ===== *)
theory Device_Id
  imports Wire_Frame
begin

text \<open>
  Device identifiers. On the wire an identifier is a field of 14 bytes
  (\<^verbatim>\<open>padDeviceID\<close>, \<^verbatim>\<open>TrimDeviceID\<close> of \<^verbatim>\<open>src/internal/tcp/crypto_server.go\<close>); in the file logs it
  is a file name (\<^verbatim>\<open>SanitizeDID\<close> of \<^verbatim>\<open>src/internal/tcp/framelog.go\<close>). A \<^verbatim>\<open>for range\<close> loop over a Go
  string visits its runes, so the decoding of UTF-8, with its replacement rune for invalid
  bytes, is part of the model. The facts: which identifiers survive the trip over the
  wire, and that a sanitised identifier is always a plain file name.
\<close>

section \<open>The identifier on the wire\<close>

text \<open>\<^verbatim>\<open>copy(buf, id)\<close> into a zeroed buffer of 14 bytes.\<close>

definition padDeviceID :: "string \<Rightarrow> bytes" where
  "padDeviceID did =
     take DeviceIDSize (bytes_of_string did) @ replicate (DeviceIDSize - length did) 0"

text \<open>The loop of \<^verbatim>\<open>TrimDeviceID\<close>, from the last index down.\<close>

fun trim_from :: "bytes \<Rightarrow> nat \<Rightarrow> bytes" where
  "trim_from b 0 = []"
| "trim_from b (Suc i) = (if b ! i \<noteq> 0 \<and> b ! i \<noteq> 0x20 then take (Suc i) b else trim_from b i)"

definition TrimDeviceID :: "bytes \<Rightarrow> string" where
  "TrimDeviceID b = string_of_bytes (trim_from b (length b))"

definition is_pad :: "byte \<Rightarrow> bool" where
  "is_pad x \<longleftrightarrow> x = 0 \<or> x = 0x20"

lemma trim_from_eq:
  "n \<le> length b \<Longrightarrow> trim_from b n = rev (dropWhile is_pad (rev (take n b)))"
  by (induction n) (auto simp: is_pad_def take_Suc_conv_app_nth)

lemma TrimDeviceID_eq: "TrimDeviceID b = string_of_bytes (rev (dropWhile is_pad (rev b)))"
  by (simp add: TrimDeviceID_def trim_from_eq)

lemma length_TrimDeviceID: "length (TrimDeviceID b) \<le> length b"
  using length_dropWhile_le [of is_pad "rev b"] by (simp add: TrimDeviceID_eq)

lemma length_padDeviceID [simp]: "length (padDeviceID did) = DeviceIDSize"
  by (simp add: padDeviceID_def)

lemma rev_dropWhile_rev_id:
  "rev (dropWhile P (rev xs)) = xs \<longleftrightarrow> xs = [] \<or> \<not> P (last xs)"
proof (cases xs rule: rev_cases)
  case Nil
  then show ?thesis by simp
next
  case (snoc ys y)
  have "length (dropWhile P (rev ys)) \<le> length ys"
    using length_dropWhile_le [of P "rev ys"] by simp
  then have "rev (dropWhile P (rev ys)) \<noteq> ys @ [y]"
    by (auto dest: arg_cong [of _ _ length])
  with snoc show ?thesis by simp
qed

lemma TrimDeviceID_id:
  "TrimDeviceID b = string_of_bytes b \<longleftrightarrow> b = [] \<or> \<not> is_pad (last b)"
  by (simp add: TrimDeviceID_eq rev_dropWhile_rev_id)

lemma TrimDeviceID_append_pad:
  "(\<And>x. x \<in> set zs \<Longrightarrow> is_pad x) \<Longrightarrow> TrimDeviceID (b @ zs) = TrimDeviceID b"
  using dropWhile_append2 [of "rev zs" is_pad "rev b"] by (simp add: TrimDeviceID_eq)

lemma bytes_of_string_Nil [simp]: "bytes_of_string s = [] \<longleftrightarrow> s = []"
  by (simp add: bytes_of_string_def)

lemma last_bytes_of_string:
  "s \<noteq> [] \<Longrightarrow> is_pad (last (bytes_of_string s)) \<longleftrightarrow> last s = CHR 0x00 \<or> last s = CHR 0x20"
proof -
  assume "s \<noteq> []"
  then have "last (bytes_of_string s) = of_nat (of_char (last s))"
    by (simp add: bytes_of_string_def last_map)
  moreover have "(of_nat (of_char c) :: byte) = 0 \<longleftrightarrow> c = CHR 0x00"
    "(of_nat (of_char c) :: byte) = 0x20 \<longleftrightarrow> c = CHR 0x20" for c
    using of_char_eq_iff [of c "CHR 0x00", where 'a = nat] of_char_eq_iff [of c "CHR 0x20", where 'a = nat]
    by (simp_all add: word_unat_eq_iff)
  ultimately show ?thesis
    by (simp add: is_pad_def)
qed

section \<open>UTF-8, as a range loop over a Go string decodes it\<close>

definition RuneError :: nat where "RuneError = 0xFFFD"

text \<open>
  The classes of leading bytes: the length of the sequence and the range of its second
  byte; the other leading bytes start no sequence.
\<close>

definition utf8_class :: "nat \<Rightarrow> (nat \<times> nat \<times> nat) option" where
  "utf8_class b =
     (if 0xC2 \<le> b \<and> b \<le> 0xDF then Some (2, 0x80, 0xBF)
      else if b = 0xE0 then Some (3, 0xA0, 0xBF)
      else if b = 0xED then Some (3, 0x80, 0x9F)
      else if 0xE1 \<le> b \<and> b \<le> 0xEF then Some (3, 0x80, 0xBF)
      else if b = 0xF0 then Some (4, 0x90, 0xBF)
      else if 0xF1 \<le> b \<and> b \<le> 0xF3 then Some (4, 0x80, 0xBF)
      else if b = 0xF4 then Some (4, 0x80, 0x8F)
      else None)"

definition utf8_cont :: "nat \<Rightarrow> bool" where
  "utf8_cont b \<longleftrightarrow> 0x80 \<le> b \<and> b \<le> 0xBF"

text \<open>The first rune of a non-empty string and the number of bytes it takes.\<close>

fun decode_rune :: "nat list \<Rightarrow> nat \<times> nat" where
  "decode_rune [] = (RuneError, 0)"
| "decode_rune (b # bs) =
     (if b < 0x80 then (b, 1)
      else case utf8_class b of
        None \<Rightarrow> (RuneError, 1)
      | Some (sz, lo, hi) \<Rightarrow>
          if Suc (length bs) < sz then (RuneError, 1)
          else if bs ! 0 < lo \<or> hi < bs ! 0 then (RuneError, 1)
          else if sz = 2 then (b mod 0x20 * 0x40 + bs ! 0 mod 0x40, 2)
          else if \<not> utf8_cont (bs ! 1) then (RuneError, 1)
          else if sz = 3
          then ((b mod 0x10 * 0x40 + bs ! 0 mod 0x40) * 0x40 + bs ! 1 mod 0x40, 3)
          else if \<not> utf8_cont (bs ! 2) then (RuneError, 1)
          else (((b mod 0x08 * 0x40 + bs ! 0 mod 0x40) * 0x40 + bs ! 1 mod 0x40) * 0x40
                + bs ! 2 mod 0x40, 4))"

lemma decode_rune_width: "bs \<noteq> [] \<Longrightarrow> 0 < snd (decode_rune bs)"
  by (cases bs) (auto split: option.splits)

function runes :: "nat list \<Rightarrow> nat list" where
  "runes bs = (if bs = [] then [] else let (r, w) = decode_rune bs in r # runes (drop w bs))"
  by pat_completeness auto
termination
  by (relation "measure length") (auto simp: prod_eq_iff intro!: diff_less decode_rune_width)

declare runes.simps [simp del]

lemma runes_Nil [simp]: "runes [] = []"
  by (simp add: runes.simps)

lemma runes_ascii: "b < 0x80 \<Longrightarrow> runes (b # bs) = b # runes bs"
  by (simp add: runes.simps [of "b # bs"])

lemma runes_all_ascii: "(\<And>b. b \<in> set bs \<Longrightarrow> b < 0x80) \<Longrightarrow> runes bs = bs"
  by (induction bs) (auto simp: runes_ascii)

section \<open>The identifier as a file name\<close>

definition safe_rune :: "nat \<Rightarrow> bool" where
  "safe_rune r \<longleftrightarrow>
     of_char (CHR ''a'') \<le> r \<and> r \<le> of_char (CHR ''z'')
     \<or> of_char (CHR ''A'') \<le> r \<and> r \<le> of_char (CHR ''Z'')
     \<or> of_char (CHR ''0'') \<le> r \<and> r \<le> of_char (CHR ''9'')
     \<or> r = of_char (CHR ''.'') \<or> r = of_char (CHR ''_'') \<or> r = of_char (CHR ''-'')"

definition SanitizeDID :: "string \<Rightarrow> string" where
  "SanitizeDID did =
     (let s = map (\<lambda>r. if safe_rune r then char_of r else CHR ''_'') (runes (map of_char did)) in
      if s = '''' \<or> s = ''.'' \<or> s = ''..'' then ''unknown'' else s)"

definition safe_name :: "string \<Rightarrow> bool" where
  "safe_name s \<longleftrightarrow> s \<noteq> '''' \<and> s \<noteq> ''.'' \<and> s \<noteq> ''..'' \<and> list_all (\<lambda>c. safe_rune (of_char c)) s"

lemma safe_rune_ascii: "safe_rune r \<Longrightarrow> r < 0x80"
  by (auto simp: safe_rune_def)

lemma safe_rune_char: "safe_rune r \<Longrightarrow> of_char (char_of r :: char) = r"
  by (auto dest: safe_rune_ascii simp: of_char_of)

lemma safe_name_SanitizeDID: "safe_name (SanitizeDID did)"
proof -
  let ?f = "\<lambda>r. if safe_rune r then char_of r else CHR ''_''"
  have "safe_rune (of_char (?f r :: char))" for r
  proof (cases "safe_rune r")
    case True
    then show ?thesis by (simp only: safe_rune_char if_True)
  next
    case False
    then show ?thesis by (simp add: safe_rune_def)
  qed
  then have "list_all (\<lambda>c. safe_rune (of_char c)) (map ?f (runes (map of_char did)))"
    unfolding list_all_iff set_map by blast
  moreover have "safe_name ''unknown''"
    by (simp add: safe_name_def safe_rune_def)
  ultimately show ?thesis
    by (simp add: SanitizeDID_def Let_def safe_name_def)
qed

lemma SanitizeDID_safe_id: "safe_name s \<Longrightarrow> SanitizeDID s = s"
proof -
  assume s: "safe_name s"
  then have "runes (map of_char s) = map of_char s"
    by (auto simp: safe_name_def list_all_iff dest!: safe_rune_ascii intro!: runes_all_ascii)
  moreover have "map (\<lambda>r. if safe_rune r then char_of r else CHR ''_'') (map of_char s) = s"
    using s by (auto simp: safe_name_def list_all_iff intro!: map_idI)
  ultimately show ?thesis
    using s by (simp add: SanitizeDID_def Let_def safe_name_def)
qed

section \<open>Properties of device identifiers\<close>

text \<open>
  An identifier comes back from its padded 14-byte field exactly when it fits the
  field and does not end in a zero byte or a space. A registered identifier outside this
  set can never be presented by a device.
\<close>

theorem TrimDeviceID_padDeviceID:
  "TrimDeviceID (padDeviceID did) = did \<longleftrightarrow>
     length did \<le> DeviceIDSize \<and> \<not> (did \<noteq> [] \<and> last did \<in> {CHR 0x00, CHR 0x20})"
proof (cases "length did \<le> DeviceIDSize")
  case True
  then have "padDeviceID did = bytes_of_string did @ replicate (DeviceIDSize - length did) 0"
    by (simp add: padDeviceID_def)
  then have "TrimDeviceID (padDeviceID did) = TrimDeviceID (bytes_of_string did)"
    using TrimDeviceID_append_pad [of "replicate (DeviceIDSize - length did) 0"]
    by (simp add: is_pad_def)
  then show ?thesis
    using True TrimDeviceID_id [of "bytes_of_string did"] last_bytes_of_string [of did]
    by auto
next
  case False
  then have "length (TrimDeviceID (padDeviceID did)) < length did"
    using length_TrimDeviceID [of "padDeviceID did"] by simp
  then show ?thesis
    using False by auto
qed

text \<open>
  C25: A sanitised identifier is a plain file name whatever bytes the device sent: it is
  not empty, not \<^verbatim>\<open>.\<close> or \<^verbatim>\<open>..\<close>, and has only letters, digits, dots, underscores and
  hyphens, so it holds no path separator. Sanitising it again changes nothing, and names
  of that form are kept as they are.
\<close>

theorem SanitizeDID_file_name:
  "safe_name (SanitizeDID did) \<and> CHR ''/'' \<notin> set (SanitizeDID did)
   \<and> SanitizeDID (SanitizeDID did) = SanitizeDID did
   \<and> (SanitizeDID did = did \<longleftrightarrow> safe_name did)"
proof -
  have safe: "safe_name (SanitizeDID did)"
    by (rule safe_name_SanitizeDID)
  then have "CHR ''/'' \<notin> set (SanitizeDID did)"
    by (auto simp: safe_name_def list_all_iff safe_rune_def)
  with safe show ?thesis
    by (metis SanitizeDID_safe_id)
qed

end
