(* ===== verification/Frame_Log.thy ===== *)
theory Frame_Log
  imports Files Go_Time Device_Id
begin

text \<open>
  The log files of the devices (\<^verbatim>\<open>src/internal/tcp/framelog.go\<close>) and their retention
  (\<^verbatim>\<open>log_cleanup.go\<close>). A path \<^verbatim>\<open><LOG_DIR>/<day>/<name>\<close> is the directory and the name in the
  file system of theory Files, whose root is the log directory; sizes and part numbers are
  natural numbers (an \<^verbatim>\<open>int64\<close> of bytes does not overflow before the disk is full). The clock
  readings, the failures of the file operations and the number of bytes a failing write
  still stores are the argument \<open>log_env\<close> of each call. The buffered writer is flushed after
  every line, so between two calls it is empty or has failed for good (\<open>lf_err\<close>). Lines
  written to the server's own standard log are not modelled.
\<close>

section \<open>State\<close>

definition DefaultLogFileMaxBytes :: int where "DefaultLogFileMaxBytes = 100 * 2 ^ 20"

record logFile =
  lf_did :: string
  lf_ext :: string
  lf_open :: bool
  lf_err :: bool
  lf_size :: nat
  lf_dir :: string
  lf_name :: string
  lf_seq :: nat

record logSession =
  ls_refs :: int
  ls_did :: string
  ls_day :: string
  ls_hex :: "logFile option"
  ls_txt :: "logFile option"

record FrameLogger =
  fl_maxBytes :: nat
  fl_sessions :: "(string \<times> logSession) list"

datatype log_error = MkdirFailed string | StatFailed string string | OpenFailed string string

record log_env =
  now_check :: time
  now_open :: time
  now_stamp :: time
  mkdir_fails :: "string \<Rightarrow> bool"
  at_open :: faults
  at_rotate :: faults
  at_retry :: faults
  write_fails :: "nat option"

definition NewFrameLogger :: "int \<Rightarrow> FrameLogger" where
  "NewFrameLogger maxBytes =
     \<lparr>fl_maxBytes = nat (if maxBytes \<le> 0 then DefaultLogFileMaxBytes else maxBytes), fl_sessions = []\<rparr>"

section \<open>Files of a session\<close>

definition part_name :: "string \<Rightarrow> string \<Rightarrow> nat \<Rightarrow> string" where
  "part_name did ext seq = (if seq > 1 then did @ ''.'' @ dec seq @ ext else did @ ext)"

lemma part_name_inj: "inj_on (part_name did ext) {1..}"
proof (rule inj_onI)
  fix s t
  assume st: "s \<in> {1..}" "t \<in> {1..}" and eq: "part_name did ext s = part_name did ext t"
  show "s = t"
  proof (cases "s > 1 \<and> t > 1")
    case True
    with eq show ?thesis by (simp add: part_name_def)
  next
    case False
    have "length (part_name did ext n) = length did + length ext \<longleftrightarrow> n \<le> 1" for n
      by (simp add: part_name_def)
    then have "s \<le> 1 \<longleftrightarrow> t \<le> 1"
      using eq by metis
    with False st show ?thesis by auto
  qed
qed

lemma finite_parts: "finite {s. seq \<le> s \<and> fs_file fs d (part_name did ext s) \<noteq> None}"
proof -
  let ?S = "{s. 1 \<le> s \<and> fs_file fs d (part_name did ext s) \<noteq> None}"
  have "part_name did ext ` ?S \<subseteq> {n. fs_file fs d n \<noteq> None}"
    by auto
  then have "finite (part_name did ext ` ?S)"
    using finite_fs_file by (rule finite_subset)
  then have "finite ?S"
    by (rule finite_imageD) (rule inj_on_subset [OF part_name_inj], auto)
  then have "finite (insert 0 ?S)"
    by simp
  then show ?thesis
    by (rule rev_finite_subset) auto
qed

function openLogPart ::
  "faults \<Rightarrow> fs \<Rightarrow> string \<Rightarrow> string \<Rightarrow> string \<Rightarrow> nat \<Rightarrow> nat \<Rightarrow> (log_error + logFile) \<times> fs" where
  "openLogPart ft fs dir did ext seq maxBytes =
     (let name = part_name did ext seq; st = map_option length (fs_file fs dir name) in
      if stat_fails ft dir name then (Inl (StatFailed dir name), fs)
      else if (case st of None \<Rightarrow> False | Some n \<Rightarrow> maxBytes \<le> n)
      then openLogPart ft fs dir did ext (seq + 1) maxBytes
      else case OpenAppend (open_fails ft dir name) dir name fs of
             None \<Rightarrow> (Inl (OpenFailed dir name), fs)
           | Some fs' \<Rightarrow>
               (Inr \<lparr>lf_did = did, lf_ext = ext, lf_open = True, lf_err = False,
                     lf_size = (case st of None \<Rightarrow> 0 | Some n \<Rightarrow> n),
                     lf_dir = dir, lf_name = name, lf_seq = seq\<rparr>, fs'))"
  by pat_completeness auto

termination
proof (relation "measure (\<lambda>(ft, fs, dir, did, ext, seq, maxBytes).
    card {s. seq \<le> s \<and> fs_file fs dir (part_name did ext s) \<noteq> None})")
  fix ft fs dir did ext seq maxBytes name st
  assume "name = part_name did ext seq" "st = map_option length (fs_file fs dir name)"
    "case st of None \<Rightarrow> False | Some n \<Rightarrow> maxBytes \<le> n"
  then have "fs_file fs dir (part_name did ext seq) \<noteq> None"
    by (auto split: option.splits)
  then have "seq \<in> {s. seq \<le> s \<and> fs_file fs dir (part_name did ext s) \<noteq> None}"
    by simp
  moreover have "seq \<notin> {s. seq + 1 \<le> s \<and> fs_file fs dir (part_name did ext s) \<noteq> None}"
    by simp
  moreover have "{s. seq + 1 \<le> s \<and> fs_file fs dir (part_name did ext s) \<noteq> None}
      \<subseteq> {s. seq \<le> s \<and> fs_file fs dir (part_name did ext s) \<noteq> None}"
    by auto
  ultimately have "{s. seq + 1 \<le> s \<and> fs_file fs dir (part_name did ext s) \<noteq> None}
      \<subset> {s. seq \<le> s \<and> fs_file fs dir (part_name did ext s) \<noteq> None}"
    by blast
  then have "card {s. seq + 1 \<le> s \<and> fs_file fs dir (part_name did ext s) \<noteq> None}
      < card {s. seq \<le> s \<and> fs_file fs dir (part_name did ext s) \<noteq> None}"
    by (rule psubset_card_mono [OF finite_parts])
  then show "((ft, fs, dir, did, ext, seq + 1, maxBytes), ft, fs, dir, did, ext, seq, maxBytes)
      \<in> measure (\<lambda>(ft, fs, dir, did, ext, seq, maxBytes).
          card {s. seq \<le> s \<and> fs_file fs dir (part_name did ext s) \<noteq> None})"
    by simp
qed simp

declare openLogPart.simps [simp del]

definition logFile_close :: "logFile \<Rightarrow> logFile" where
  "logFile_close f = f\<lparr>lf_open := False, lf_err := False\<rparr>"

definition session_close :: "logSession \<Rightarrow> logSession" where
  "session_close s = s\<lparr>ls_hex := None, ls_txt := None, ls_day := []\<rparr>"

definition session_open ::
  "log_env \<Rightarrow> nat \<Rightarrow> logSession \<Rightarrow> fs \<Rightarrow> log_error option \<times> logSession \<times> fs" where
  "session_open e maxBytes s fs =
     (let day = format_day (now_open e) in
      case MkdirAll (mkdir_fails e day) day fs of
        None \<Rightarrow> (Some (MkdirFailed day), s, fs)
      | Some fs \<Rightarrow>
          (case openLogPart (at_open e) fs day (ls_did s) ''.hex'' 1 maxBytes of
             (Inl err, fs) \<Rightarrow> (Some err, s, fs)
           | (Inr hex, fs) \<Rightarrow>
               (case openLogPart (at_open e) fs day (ls_did s) ''.txt'' 1 maxBytes of
                  (Inl err, fs) \<Rightarrow> (Some err, s, fs)
                | (Inr txt, fs) \<Rightarrow> (None, s\<lparr>ls_day := day, ls_hex := Some hex, ls_txt := Some txt\<rparr>, fs))))"

definition logger_rotate :: "log_env \<Rightarrow> nat \<Rightarrow> logFile \<Rightarrow> fs \<Rightarrow> log_error option \<times> logFile \<times> fs" where
  "logger_rotate e maxBytes f fs =
     (let dir = lf_dir f; did = lf_did f; ext = lf_ext f; seq = lf_seq f; f = logFile_close f in
      case openLogPart (at_rotate e) fs dir did ext (seq + 1) maxBytes of
        (Inl err, fs) \<Rightarrow>
          (case openLogPart (at_retry e) fs dir did ext seq maxBytes of
             (Inl _, fs) \<Rightarrow> (Some err, f, fs)
           | (Inr rf, fs) \<Rightarrow> (Some err, rf, fs))
      | (Inr nf, fs) \<Rightarrow> (None, nf, fs))"

text \<open>
  The buffered writer of 64 KiB. A line that fits is accepted and then flushed, and a
  failing flush stores a part of it; a longer line goes straight to the file, and its
  failure is the failure of the write. After a failure every later write fails.
\<close>

definition bufioSize :: nat where "bufioSize = 64 * 1024"

definition WriteString :: "log_env \<Rightarrow> logFile \<Rightarrow> string \<Rightarrow> fs \<Rightarrow> logFile \<times> fs" where
  "WriteString e f line fs =
     (if lf_err f then (f, fs)
      else case write_fails e of
             None \<Rightarrow> (f\<lparr>lf_size := lf_size f + length line\<rparr>, append_file (lf_dir f) (lf_name f) line fs)
           | Some k \<Rightarrow>
               (f\<lparr>lf_size := (if length line \<le> bufioSize then lf_size f + length line else lf_size f),
                  lf_err := True\<rparr>,
                append_file (lf_dir f) (lf_name f) (take k line) fs))"

definition writeLine :: "log_env \<Rightarrow> nat \<Rightarrow> logFile \<Rightarrow> string \<Rightarrow> fs \<Rightarrow> logFile \<times> fs" where
  "writeLine e maxBytes f line fs =
     (if \<not> lf_open f then (f, fs)
      else let (f, fs) = (if maxBytes > 0 \<and> lf_size f + length line > maxBytes
                          then snd (logger_rotate e maxBytes f fs) else (f, fs))
           in if \<not> lf_open f then (f, fs) else WriteString e f line fs)"

definition rolloverDay :: "log_env \<Rightarrow> nat \<Rightarrow> logSession \<Rightarrow> fs \<Rightarrow> logSession \<times> fs" where
  "rolloverDay e maxBytes s fs =
     (if ls_day s = format_day (now_check e) then (s, fs)
      else snd (session_open e maxBytes (session_close s) fs))"

section \<open>Methods of the logger\<close>

definition Open :: "log_env \<Rightarrow> string \<Rightarrow> FrameLogger \<times> fs \<Rightarrow> log_error option \<times> FrameLogger \<times> fs" where
  "Open e did = (\<lambda>(l, fs).
     let key = SanitizeDID did in
     case map_of (fl_sessions l) key of
       Some s \<Rightarrow> (None, l\<lparr>fl_sessions := AList.update key (s\<lparr>ls_refs := ls_refs s + 1\<rparr>) (fl_sessions l)\<rparr>, fs)
     | None \<Rightarrow>
         (case session_open e (fl_maxBytes l)
                 \<lparr>ls_refs = 1, ls_did = key, ls_day = [], ls_hex = None, ls_txt = None\<rparr> fs of
            (Some err, s, fs) \<Rightarrow> (Some err, l, fs)
          | (None, s, fs) \<Rightarrow> (None, l\<lparr>fl_sessions := AList.update key s (fl_sessions l)\<rparr>, fs)))"

definition Close :: "string \<Rightarrow> FrameLogger \<times> fs \<Rightarrow> FrameLogger \<times> fs" where
  "Close did = (\<lambda>(l, fs).
     let key = SanitizeDID did in
     case map_of (fl_sessions l) key of
       None \<Rightarrow> (l, fs)
     | Some s \<Rightarrow>
         if ls_refs s - 1 > 0
         then (l\<lparr>fl_sessions := AList.update key (s\<lparr>ls_refs := ls_refs s - 1\<rparr>) (fl_sessions l)\<rparr>, fs)
         else (l\<lparr>fl_sessions := AList.delete key (fl_sessions l)\<rparr>, fs))"

definition CloseAll :: "FrameLogger \<times> fs \<Rightarrow> FrameLogger \<times> fs" where
  "CloseAll = (\<lambda>(l, fs). (l\<lparr>fl_sessions := []\<rparr>, fs))"

definition hexDigits :: string where "hexDigits = ''0123456789ABCDEF''"

fun hex_dump :: "bytes \<Rightarrow> string" where
  "hex_dump [] = []"
| "hex_dump (c # raw) = hexDigits ! unat (drop_bit 4 c) # hexDigits ! unat (and c 0x0F) # CHR '' '' # hex_dump raw"

definition hex_line :: "time \<Rightarrow> bytes \<Rightarrow> string" where
  "hex_line t raw = format_stamp t @ '' IN '' @ hex_dump raw @ [CHR 0x0A]"

text \<open>The file a line goes to, as a field of the session and its update.\<close>

definition write_hex :: "log_env \<Rightarrow> nat \<Rightarrow> string \<Rightarrow> logSession \<times> fs \<Rightarrow> logSession \<times> fs" where
  "write_hex e maxBytes line = (\<lambda>(s, fs).
     case ls_hex s of None \<Rightarrow> (s, fs)
     | Some f \<Rightarrow> let (f, fs) = writeLine e maxBytes f line fs in (s\<lparr>ls_hex := Some f\<rparr>, fs))"

definition write_txt :: "log_env \<Rightarrow> nat \<Rightarrow> string \<Rightarrow> logSession \<times> fs \<Rightarrow> logSession \<times> fs" where
  "write_txt e maxBytes line = (\<lambda>(s, fs).
     case ls_txt s of None \<Rightarrow> (s, fs)
     | Some f \<Rightarrow> let (f, fs) = writeLine e maxBytes f line fs in (s\<lparr>ls_txt := Some f\<rparr>, fs))"

definition LogHex :: "log_env \<Rightarrow> string \<Rightarrow> bytes \<Rightarrow> FrameLogger \<times> fs \<Rightarrow> FrameLogger \<times> fs" where
  "LogHex e did raw = (\<lambda>(l, fs).
     let key = SanitizeDID did in
     case map_of (fl_sessions l) key of
       None \<Rightarrow> (l, fs)
     | Some s \<Rightarrow>
         let (s, fs) = rolloverDay e (fl_maxBytes l) s fs;
             (s, fs) = write_hex e (fl_maxBytes l) (hex_line (now_stamp e) raw) (s, fs)
         in (l\<lparr>fl_sessions := AList.update key s (fl_sessions l)\<rparr>, fs))"

definition LogTxt :: "log_env \<Rightarrow> string \<Rightarrow> string \<Rightarrow> FrameLogger \<times> fs \<Rightarrow> FrameLogger \<times> fs" where
  "LogTxt e did line = (\<lambda>(l, fs).
     let key = SanitizeDID did in
     case map_of (fl_sessions l) key of
       None \<Rightarrow> (l, fs)
     | Some s \<Rightarrow>
         let (s, fs) = rolloverDay e (fl_maxBytes l) s fs;
             (s, fs) = write_txt e (fl_maxBytes l) (line @ [CHR 0x0A]) (s, fs)
         in (l\<lparr>fl_sessions := AList.update key s (fl_sessions l)\<rparr>, fs))"

section \<open>Retention\<close>

text \<open>
  The loop of \<^verbatim>\<open>cleanupOldLogsAt\<close> over the names of the directories of the root; plain files
  are skipped. A day is a number of days since the epoch, so the midnight of
  \<^verbatim>\<open>now.UTC().Truncate(24h).AddDate(0, 0, -(N-1))\<close> is the day number of \<open>now\<close> less \<open>N - 1\<close>.
\<close>

fun cleanup_loop :: "(string \<Rightarrow> (string \<Rightarrow> bool) option) \<Rightarrow> int \<Rightarrow> string list \<Rightarrow> nat \<Rightarrow> fs \<Rightarrow> nat \<times> fs" where
  "cleanup_loop rm_fails cutoff [] removed fs = (removed, fs)"
| "cleanup_loop rm_fails cutoff (d # ds) removed fs =
     (case parse_date d of
        None \<Rightarrow> cleanup_loop rm_fails cutoff ds removed fs
      | Some z \<Rightarrow>
          if \<not> z < cutoff then cleanup_loop rm_fails cutoff ds removed fs
          else (case RemoveAll (rm_fails d) d fs of
                  (True, fs) \<Rightarrow> cleanup_loop rm_fails cutoff ds (removed + 1) fs
                | (False, fs) \<Rightarrow> cleanup_loop rm_fails cutoff ds removed fs))"

definition cleanupOldLogsAt ::
  "bool \<Rightarrow> (string \<Rightarrow> (string \<Rightarrow> bool) option) \<Rightarrow> int \<Rightarrow> time \<Rightarrow> fs \<Rightarrow> nat option \<times> fs" where
  "cleanupOldLogsAt read_fails rm_fails retentionDays now fs =
     (if \<not> fs_root fs then (Some 0, fs)
      else if read_fails then (None, fs)
      else let retentionDays = (if retentionDays < 1 then 1 else retentionDays);
               cutoff = day_of_time now - (retentionDays - 1);
               (removed, fs) = cleanup_loop rm_fails cutoff (map fst (fs_dirs fs)) 0 fs
           in (Some removed, fs))"

section \<open>Opening a part\<close>

definition part_file :: "string \<Rightarrow> string \<Rightarrow> string \<Rightarrow> nat \<Rightarrow> nat \<Rightarrow> logFile" where
  "part_file d did ext s sz =
     \<lparr>lf_did = did, lf_ext = ext, lf_open = True, lf_err = False, lf_size = sz,
      lf_dir = d, lf_name = part_name did ext s, lf_seq = s\<rparr>"

definition file_size :: "fs \<Rightarrow> string \<Rightarrow> string \<Rightarrow> nat" where
  "file_size fs d n = (case fs_file fs d n of None \<Rightarrow> 0 | Some c \<Rightarrow> length c)"

definition full :: "fs \<Rightarrow> nat \<Rightarrow> string \<Rightarrow> string \<Rightarrow> bool" where
  "full fs mx d n \<longleftrightarrow> (case fs_file fs d n of None \<Rightarrow> False | Some c \<Rightarrow> mx \<le> length c)"

lemma openLogPart_step:
  "openLogPart ft fs d did ext seq mx =
     (let n = part_name did ext seq in
      if stat_fails ft d n then (Inl (StatFailed d n), fs)
      else if full fs mx d n then openLogPart ft fs d did ext (seq + 1) mx
      else if open_fails ft d n \<or> \<not> has_dir fs d then (Inl (OpenFailed d n), fs)
      else (Inr (part_file d did ext seq (file_size fs d n)), the (OpenAppend False d n fs)))"
  unfolding openLogPart.simps [of ft fs d did ext seq]
  by (simp add: full_def part_file_def file_size_def OpenAppend_def Let_def split: option.split)

text \<open>The first part from \<open>seq\<close> on that is not full.\<close>

definition first_part :: "fs \<Rightarrow> nat \<Rightarrow> string \<Rightarrow> string \<Rightarrow> string \<Rightarrow> nat \<Rightarrow> nat \<Rightarrow> bool" where
  "first_part fs mx d did ext seq s \<longleftrightarrow>
     seq \<le> s \<and> (\<forall>t. seq \<le> t \<and> t < s \<longrightarrow> full fs mx d (part_name did ext t)) \<and>
     \<not> full fs mx d (part_name did ext s)"

lemma first_part_here: "\<not> full fs mx d (part_name did ext seq) \<Longrightarrow> first_part fs mx d did ext seq seq"
  by (auto simp: first_part_def)

lemma first_part_next:
  "full fs mx d (part_name did ext seq) \<Longrightarrow> first_part fs mx d did ext (Suc seq) s \<Longrightarrow> first_part fs mx d did ext seq s"
  unfolding first_part_def by (metis Suc_leI Suc_leD le_neq_implies_less)

lemma openLogPart_result:
  "openLogPart ft fs d did ext seq mx = (r, fs') \<Longrightarrow>
     (\<exists>err. r = Inl err \<and> fs' = fs) \<or>
     (\<exists>s. first_part fs mx d did ext seq s \<and> has_dir fs d \<and>
        r = Inr (part_file d did ext s (file_size fs d (part_name did ext s))) \<and>
        OpenAppend False d (part_name did ext s) fs = Some fs')"
proof (induction ft fs d did ext seq mx rule: openLogPart.induct)
  case (1 ft fs d did ext seq mx)
  let ?n = "part_name did ext seq"
  show ?case
  proof (cases "\<not> stat_fails ft d ?n \<and> full fs mx d ?n")
    case True
    then obtain c where c: "fs_file fs d ?n = Some c" "mx \<le> length c"
      by (auto simp: full_def split: option.splits)
    have rec: "openLogPart ft fs d did ext (seq + 1) mx = (r, fs')"
      using True "1.prems" by (simp add: openLogPart_step [of ft fs d did ext seq] Let_def)
    have ih: "(\<exists>err. r = Inl err \<and> fs' = fs) \<or>
      (\<exists>s. first_part fs mx d did ext (seq + 1) s \<and> has_dir fs d \<and>
        r = Inr (part_file d did ext s (file_size fs d (part_name did ext s))) \<and>
        OpenAppend False d (part_name did ext s) fs = Some fs')"
      by (rule "1.IH" [OF refl refl _ _ rec]) (simp_all add: c True)
    have "first_part fs mx d did ext seq s" if "first_part fs mx d did ext (seq + 1) s" for s
      using that True by (auto intro: first_part_next)
    with ih show ?thesis
      by blast
  next
    case False
    then show ?thesis
      using "1.prems" first_part_here [of fs mx d did ext seq]
      by (auto simp: openLogPart_step [of ft fs d did ext seq] Let_def OpenAppend_def split: if_splits)
  qed
qed

lemma openLogPart_no_faults:
  "has_dir fs d \<Longrightarrow> ft = no_faults \<Longrightarrow> \<exists>f fs'. openLogPart ft fs d did ext seq mx = (Inr f, fs')"
proof (induction ft fs d did ext seq mx rule: openLogPart.induct)
  case (1 ft fs d did ext seq mx)
  have ok: "\<not> stat_fails ft d n" "\<not> open_fails ft d n" for n
    using "1.prems"(2) by (simp_all add: no_faults_def)
  show ?case
  proof (cases "full fs mx d (part_name did ext seq)")
    case True
    then obtain c where c: "fs_file fs d (part_name did ext seq) = Some c" "mx \<le> length c"
      by (auto simp: full_def split: option.splits)
    have "\<exists>f fs'. openLogPart ft fs d did ext (seq + 1) mx = (Inr f, fs')"
      by (rule "1.IH" [OF refl refl]) (use "1.prems" in \<open>simp_all add: c no_faults_def\<close>)
    with True show ?thesis
      by (simp add: openLogPart_step [of ft fs d did ext seq] ok)
  next
    case False
    with "1.prems"(1) show ?thesis
      by (simp add: openLogPart_step [of ft fs d did ext seq] ok Let_def)
  qed
qed

section \<open>What an operation of a session may change\<close>

text \<open>
  Directories stay, files never shrink, and the files that change have names of parts of
  one device and of the given extensions.
\<close>

definition log_frame :: "string \<Rightarrow> string set \<Rightarrow> fs \<Rightarrow> fs \<Rightarrow> bool" where
  "log_frame did E fs fs' \<longleftrightarrow>
     (\<forall>d. has_dir fs d \<longrightarrow> has_dir fs' d) \<and>
     (\<forall>d n c. fs_file fs d n = Some c \<longrightarrow> (\<exists>x. fs_file fs' d n = Some (c @ x))) \<and>
     (\<forall>d n. fs_file fs' d n \<noteq> fs_file fs d n \<longrightarrow> (\<exists>ext \<in> E. \<exists>s. n = part_name did ext s))"

lemma log_frame_refl [simp, intro]: "log_frame did E fs fs"
  by (auto simp: log_frame_def)

lemma log_frame_trans: "log_frame did E fs fs1 \<Longrightarrow> log_frame did E fs1 fs2 \<Longrightarrow> log_frame did E fs fs2"
  unfolding log_frame_def by (metis append.assoc)

lemma log_frame_mono: "log_frame did E fs fs' \<Longrightarrow> E \<subseteq> E' \<Longrightarrow> log_frame did E' fs fs'"
  unfolding log_frame_def by (meson subsetD)

lemma log_frame_mkdir: "MkdirAll b d fs = Some fs' \<Longrightarrow> log_frame did E fs fs'"
  by (simp add: log_frame_def MkdirAll_file MkdirAll_has_dir)

lemma log_frame_open:
  "OpenAppend b d (part_name did ext s) fs = Some fs' \<Longrightarrow> log_frame did {ext} fs fs'"
  by (auto simp: log_frame_def OpenAppend_file OpenAppend_has_dir)

lemma log_frame_append: "log_frame did {ext} fs (append_file d (part_name did ext s) x fs)"
  by (auto simp: log_frame_def append_file_file)

lemma log_frame_openLogPart:
  assumes "openLogPart ft fs d did ext seq mx = (r, fs')"
  shows "log_frame did {ext} fs fs'"
  using openLogPart_result [OF assms] by (auto intro: log_frame_open)

section \<open>Files of a session in step with the disk\<close>

definition tracked :: "fs \<Rightarrow> logFile \<Rightarrow> bool" where
  "tracked fs f \<longleftrightarrow> (\<exists>c. fs_file fs (lf_dir f) (lf_name f) = Some c \<and> length c = lf_size f)"

definition file_ok :: "fs \<Rightarrow> string \<Rightarrow> string \<Rightarrow> string \<Rightarrow> logFile \<Rightarrow> bool" where
  "file_ok fs d did ext f \<longleftrightarrow>
     lf_dir f = d \<and> lf_did f = did \<and> lf_ext f = ext \<and> lf_name f = part_name did ext (lf_seq f) \<and>
     1 \<le> lf_seq f \<and> (lf_open f \<and> \<not> lf_err f \<longrightarrow> tracked fs f)"

lemma openLogPart_ok:
  assumes "openLogPart ft fs d did ext seq mx = (Inr f, fs')" "1 \<le> seq"
  shows "file_ok fs' d did ext f" "lf_open f" "\<not> lf_err f" "0 < mx \<Longrightarrow> lf_size f < mx"
proof -
  obtain s where s: "first_part fs mx d did ext seq s" "has_dir fs d"
    "f = part_file d did ext s (file_size fs d (part_name did ext s))"
    "OpenAppend False d (part_name did ext s) fs = Some fs'"
    using openLogPart_result [OF assms(1)] by auto
  have "1 \<le> s"
    using s(1) assms(2) by (simp add: first_part_def)
  then show "file_ok fs' d did ext f" "lf_open f" "\<not> lf_err f"
    by (auto simp: file_ok_def s(3) part_file_def tracked_def OpenAppend_file [OF s(4)] file_size_def
        split: option.splits)
  show "lf_size f < mx" if "0 < mx"
    using s(1) that
    by (auto simp: s(3) part_file_def file_size_def first_part_def full_def split: option.splits)
qed

lemma logger_rotate_ok:
  assumes "file_ok fs d did ext f" "logger_rotate e mx f fs = (err, f', fs')"
  shows "file_ok fs' d did ext f'" "log_frame did {ext} fs fs'"
    "lf_open f' \<Longrightarrow> \<not> lf_err f'" "lf_open f' \<Longrightarrow> 0 < mx \<Longrightarrow> lf_size f' < mx"
proof -
  have f: "lf_dir f = d" "lf_did f = did" "lf_ext f = ext" "1 \<le> lf_seq f"
    using assms(1) by (simp_all add: file_ok_def)
  obtain r1 fs1 where r1: "openLogPart (at_rotate e) fs d did ext (lf_seq f + 1) mx = (r1, fs1)"
    by fastforce
  obtain r2 fs2 where r2: "openLogPart (at_retry e) fs1 d did ext (lf_seq f) mx = (r2, fs2)"
    by fastforce
  note rot = assms(2) [unfolded logger_rotate_def f Let_def r1 prod.case]
  note frame = log_frame_openLogPart [OF r1] log_frame_openLogPart [OF r2]
  have closed: "file_ok fs'' d did ext (logFile_close f)" for fs''
    using assms(1) by (simp add: file_ok_def logFile_close_def)
  have "file_ok fs' d did ext f' \<and> log_frame did {ext} fs fs' \<and> (lf_open f' \<longrightarrow> \<not> lf_err f') \<and>
      (lf_open f' \<longrightarrow> 0 < mx \<longrightarrow> lf_size f' < mx)"
  proof (cases r1)
    case (Inr nf)
    with rot openLogPart_ok [OF r1 [unfolded Inr]] frame show ?thesis by auto
  next
    case 1: (Inl err1)
    show ?thesis
    proof (cases r2)
      case (Inl err2)
      with rot 1 r2 closed log_frame_trans [OF frame] show ?thesis
        by (auto simp: logFile_close_def)
    next
      case (Inr rf)
      with rot 1 r2 openLogPart_ok [OF r2 [unfolded Inr] f(4)] log_frame_trans [OF frame] show ?thesis
        by auto
    qed
  qed
  then show "file_ok fs' d did ext f'" "log_frame did {ext} fs fs'"
    "lf_open f' \<Longrightarrow> \<not> lf_err f'" "lf_open f' \<Longrightarrow> 0 < mx \<Longrightarrow> lf_size f' < mx"
    by blast+
qed

lemma WriteString_ok:
  assumes "file_ok fs d did ext f" "lf_open f" "WriteString e f line fs = (f', fs')"
  shows "file_ok fs' d did ext f' \<and> log_frame did {ext} fs fs'"
  using assms log_frame_append [of did ext fs d "lf_seq f"]
  by (auto simp: WriteString_def file_ok_def tracked_def append_file_file split: if_splits option.splits)

lemma writeLine_ok:
  assumes "file_ok fs d did ext f" "writeLine e mx f line fs = (f', fs')"
  shows "file_ok fs' d did ext f' \<and> log_frame did {ext} fs fs'"
proof (cases "lf_open f")
  case False
  with assms show ?thesis by (auto simp: writeLine_def)
next
  case True
  obtain g fs1 where g: "(if mx > 0 \<and> lf_size f + length line > mx
      then snd (logger_rotate e mx f fs) else (f, fs)) = (g, fs1)"
    by fastforce
  have ok: "file_ok fs1 d did ext g" "log_frame did {ext} fs fs1"
    using g assms(1) logger_rotate_ok [OF assms(1), of e mx] by (auto split: if_splits) (metis prod.collapse)+
  have "(if \<not> lf_open g then (g, fs1) else WriteString e g line fs1) = (f', fs')"
    using assms(2) True by (simp add: writeLine_def g)
  with ok WriteString_ok [OF ok(1)] show ?thesis
    by (auto split: if_splits intro: log_frame_trans)
qed

section \<open>The invariant of the logger\<close>

definition dotfree :: "string \<Rightarrow> bool" where
  "dotfree did \<longleftrightarrow> CHR ''.'' \<notin> set did"

lemma part_name_key:
  assumes "dotfree did"
  shows "takeWhile (\<lambda>c. c \<noteq> CHR ''.'') (part_name did (CHR ''.'' # ext) s) = did"
proof -
  have "takeWhile (\<lambda>c. c \<noteq> CHR ''.'') (did @ ys) = did @ takeWhile (\<lambda>c. c \<noteq> CHR ''.'') ys" for ys
    using assms by (intro takeWhile_append2) (auto simp: dotfree_def)
  then show ?thesis
    by (simp add: part_name_def)
qed

lemma part_name_disjoint:
  assumes "dotfree did" "dotfree did'" "did \<noteq> did'" "ext \<in> {''.hex'', ''.txt''}" "ext' \<in> {''.hex'', ''.txt''}"
  shows "part_name did ext s \<noteq> part_name did' ext' s'"
proof -
  obtain x x' where "ext = CHR ''.'' # x" "ext' = CHR ''.'' # x'"
    using assms(4,5) by auto
  then show ?thesis
    using part_name_key [OF assms(1), of x s] part_name_key [OF assms(2), of x' s'] assms(3) by metis
qed

lemma last_part_name: "ext \<noteq> [] \<Longrightarrow> last (part_name did ext s) = last ext"
  by (simp add: part_name_def)

lemma part_name_hex_txt: "part_name did ''.hex'' s \<noteq> part_name did' ''.txt'' s'"
  using last_part_name [of "''.hex''" did s] last_part_name [of "''.txt''" did' s'] by force

lemma file_ok_frame:
  assumes "file_ok fs d did ext f" "log_frame did' E fs fs'"
    "\<And>ext' s s'. ext' \<in> E \<Longrightarrow> part_name did ext s \<noteq> part_name did' ext' s'"
  shows "file_ok fs' d did ext f"
proof -
  have "fs_file fs' d (part_name did ext (lf_seq f)) = fs_file fs d (part_name did ext (lf_seq f))"
    using assms(2,3) unfolding log_frame_def by metis
  with assms(1) show ?thesis
    by (auto simp: file_ok_def tracked_def)
qed

definition session_files :: "fs \<Rightarrow> string \<Rightarrow> logSession \<Rightarrow> bool" where
  "session_files fs key s \<longleftrightarrow>
     ls_hex s = None \<and> ls_txt s = None \<and> ls_day s = [] \<or>
     (\<exists>h t. ls_hex s = Some h \<and> ls_txt s = Some t \<and>
        file_ok fs (ls_day s) key ''.hex'' h \<and> file_ok fs (ls_day s) key ''.txt'' t)"

definition session_ok :: "fs \<Rightarrow> string \<Rightarrow> logSession \<Rightarrow> bool" where
  "session_ok fs key s \<longleftrightarrow> ls_did s = key \<and> 1 \<le> ls_refs s \<and> session_files fs key s"

definition log_inv :: "FrameLogger \<times> fs \<Rightarrow> bool" where
  "log_inv = (\<lambda>(l, fs). 0 < fl_maxBytes l \<and> distinct (map fst (fl_sessions l)) \<and>
     (\<forall>(key, s) \<in> set (fl_sessions l). dotfree key \<and> session_ok fs key s))"

lemma session_ok_frame:
  assumes "session_ok fs key s" "log_frame key' {''.hex'', ''.txt''} fs fs'"
    "dotfree key" "dotfree key'" "key \<noteq> key'"
  shows "session_ok fs' key s"
proof -
  have "file_ok fs' d key ext f" if "file_ok fs d key ext f" "ext \<in> {''.hex'', ''.txt''}" for d ext f
    using that(1) assms(2) by (rule file_ok_frame) (rule part_name_disjoint [OF assms(3-5) that(2)])
  with assms(1) show ?thesis
    unfolding session_ok_def session_files_def by blast
qed

text \<open>An operation that changes the session of one key and only files of that key.\<close>

lemma log_inv_update:
  assumes "log_inv (l, fs)" "dotfree key" "session_ok fs' key s" "log_frame key {''.hex'', ''.txt''} fs fs'"
  shows "log_inv (l\<lparr>fl_sessions := AList.update key s (fl_sessions l)\<rparr>, fs')"
proof -
  have dist: "distinct (map fst (AList.update key s (fl_sessions l)))"
    using assms(1) by (simp add: log_inv_def distinct_update)
  have "dotfree k \<and> session_ok fs' k t" if mem: "(k, t) \<in> set (AList.update key s (fl_sessions l))" for k t
  proof (cases "k = key")
    case True
    have "map_of (AList.update key s (fl_sessions l)) k = Some t"
      using mem dist by simp
    with True assms(2,3) show ?thesis by (simp add: update_conv')
  next
    case False
    have "map_of (AList.update key s (fl_sessions l)) k = Some t"
      using mem dist by simp
    with False have "(k, t) \<in> set (fl_sessions l)"
      by (auto simp: update_conv' dest: map_of_SomeD)
    with assms(1) have "dotfree k" "session_ok fs k t"
      by (auto simp: log_inv_def)
    then show ?thesis
      using session_ok_frame [OF _ assms(4) _ assms(2) False] by blast
  qed
  with dist assms(1) show ?thesis
    by (auto simp: log_inv_def)
qed

lemma log_inv_session:
  "log_inv (l, fs) \<Longrightarrow> map_of (fl_sessions l) key = Some s \<Longrightarrow> dotfree key \<and> session_ok fs key s"
  by (auto simp: log_inv_def dest: map_of_SomeD)

lemma session_open_ok:
  assumes "session_open e mx s fs = (err, s', fs')" "session_files fs key s"
    "ls_hex s = None" "ls_txt s = None" "ls_did s = key"
  shows "session_files fs' key s' \<and> log_frame key {''.hex'', ''.txt''} fs fs' \<and>
    ls_did s' = ls_did s \<and> ls_refs s' = ls_refs s"
proof -
  let ?d = "format_day (now_open e)"
  have s: "ls_day s = []" "\<And>fs. session_files fs key s"
    using assms(2-4) by (auto simp: session_files_def)
  show ?thesis
  proof (cases "MkdirAll (mkdir_fails e ?d) ?d fs")
    case None
    with assms(1) s show ?thesis by (auto simp: session_open_def)
  next
    case (Some fs0)
    obtain r1 fs1 where r1: "openLogPart (at_open e) fs0 ?d key ''.hex'' 1 mx = (r1, fs1)"
      by fastforce
    obtain r2 fs2 where r2: "openLogPart (at_open e) fs1 ?d key ''.txt'' 1 mx = (r2, fs2)"
      by fastforce
    note res = assms(1) [unfolded session_open_def assms(5) Let_def Some option.case r1 prod.case]
    have fr: "log_frame key {''.hex'', ''.txt''} fs fs0" "log_frame key {''.hex'', ''.txt''} fs0 fs1"
      "log_frame key {''.txt''} fs1 fs2" "log_frame key {''.hex'', ''.txt''} fs1 fs2"
      using log_frame_mkdir [OF Some] log_frame_openLogPart [OF r1] log_frame_openLogPart [OF r2]
      by (auto intro: log_frame_mono)
    have fr2: "log_frame key {''.hex'', ''.txt''} fs fs1" "log_frame key {''.hex'', ''.txt''} fs fs2"
      using fr by (blast intro: log_frame_trans)+
    show ?thesis
    proof (cases r1)
      case (Inl e1)
      with res s fr2 show ?thesis by auto
    next
      case r1h: (Inr h)
      have h: "file_ok fs2 ?d key ''.hex'' h"
        by (rule file_ok_frame [OF openLogPart_ok(1) [OF r1 [unfolded r1h]] fr(3)])
          (simp_all add: part_name_hex_txt)
      show ?thesis
      proof (cases r2)
        case (Inl e2)
        with res r1h r2 s fr2 show ?thesis by auto
      next
        case (Inr t)
        with res r1h r2 h fr2 openLogPart_ok(1) [OF r2 [unfolded Inr]] show ?thesis
          by (auto simp: session_files_def)
      qed
    qed
  qed
qed

lemma rolloverDay_ok:
  assumes "rolloverDay e mx s fs = (s', fs')" "session_ok fs key s"
  shows "session_ok fs' key s' \<and> log_frame key {''.hex'', ''.txt''} fs fs' \<and> ls_refs s' = ls_refs s"
proof (cases "ls_day s = format_day (now_check e)")
  case True
  with assms show ?thesis by (simp add: rolloverDay_def)
next
  case False
  then obtain err where "session_open e mx (session_close s) fs = (err, s', fs')"
    using assms(1) by (cases "session_open e mx (session_close s) fs") (auto simp: rolloverDay_def)
  from session_open_ok [OF this, of key] assms(2) show ?thesis
    by (simp add: session_ok_def session_files_def session_close_def)
qed

lemma write_hex_ok:
  assumes "write_hex e mx line (s, fs) = (s', fs')" "session_ok fs key s"
  shows "session_ok fs' key s' \<and> log_frame key {''.hex'', ''.txt''} fs fs' \<and> ls_refs s' = ls_refs s"
proof (cases "ls_hex s")
  case None
  with assms show ?thesis by (simp add: write_hex_def)
next
  case (Some h)
  obtain h' where h': "writeLine e mx h line fs = (h', fs')" "s' = s\<lparr>ls_hex := Some h'\<rparr>"
    using assms(1) Some by (auto simp: write_hex_def split: prod.splits)
  obtain t where t: "ls_txt s = Some t" "file_ok fs (ls_day s) key ''.hex'' h" "file_ok fs (ls_day s) key ''.txt'' t"
    using assms(2) Some by (auto simp: session_ok_def session_files_def)
  note ok = writeLine_ok [OF t(2) h'(1)]
  have "file_ok fs' (ls_day s) key ''.txt'' t"
    by (rule file_ok_frame [OF t(3) conjunct2 [OF ok]]) (metis part_name_hex_txt singletonD)
  with t ok assms(2) h'(2) show ?thesis
    by (auto simp: session_ok_def session_files_def intro: log_frame_mono)
qed

lemma write_txt_ok:
  assumes "write_txt e mx line (s, fs) = (s', fs')" "session_ok fs key s"
  shows "session_ok fs' key s' \<and> log_frame key {''.hex'', ''.txt''} fs fs' \<and> ls_refs s' = ls_refs s"
proof (cases "ls_txt s")
  case None
  with assms show ?thesis by (simp add: write_txt_def)
next
  case (Some t)
  obtain t' where t': "writeLine e mx t line fs = (t', fs')" "s' = s\<lparr>ls_txt := Some t'\<rparr>"
    using assms(1) Some by (auto simp: write_txt_def split: prod.splits)
  obtain h where h: "ls_hex s = Some h" "file_ok fs (ls_day s) key ''.hex'' h" "file_ok fs (ls_day s) key ''.txt'' t"
    using assms(2) Some by (auto simp: session_ok_def session_files_def)
  note ok = writeLine_ok [OF h(3) t'(1)]
  have "file_ok fs' (ls_day s) key ''.hex'' h"
    by (rule file_ok_frame [OF h(2) conjunct2 [OF ok]]) (metis part_name_hex_txt singletonD)
  with h ok assms(2) t'(2) show ?thesis
    by (auto simp: session_ok_def session_files_def intro: log_frame_mono)
qed

section \<open>Events of the logger\<close>

datatype log_event =
    EvOpen log_env string
  | EvClose string
  | EvCloseAll
  | EvHex log_env string bytes
  | EvTxt log_env string string

fun log_exec :: "log_event \<Rightarrow> FrameLogger \<times> fs \<Rightarrow> FrameLogger \<times> fs" where
  "log_exec (EvOpen e did) st = snd (Open e did st)"
| "log_exec (EvClose did) st = Close did st"
| "log_exec EvCloseAll st = CloseAll st"
| "log_exec (EvHex e did raw) st = LogHex e did raw st"
| "log_exec (EvTxt e did line) st = LogTxt e did line st"

fun event_did :: "log_event \<Rightarrow> string option" where
  "event_did (EvOpen e did) = Some did"
| "event_did (EvClose did) = Some did"
| "event_did EvCloseAll = None"
| "event_did (EvHex e did raw) = Some did"
| "event_did (EvTxt e did line) = Some did"

definition event_ok :: "log_event \<Rightarrow> bool" where
  "event_ok ev \<longleftrightarrow> (case event_did ev of None \<Rightarrow> True | Some did \<Rightarrow> dotfree (SanitizeDID did))"

lemma log_inv_New: "log_inv (NewFrameLogger n, fs)"
  by (simp add: log_inv_def NewFrameLogger_def DefaultLogFileMaxBytes_def)

lemma log_inv_frame:
  assumes "log_inv (l, fs)" "dotfree key" "map_of (fl_sessions l) key = None"
    "log_frame key {''.hex'', ''.txt''} fs fs'"
  shows "log_inv (l, fs')"
proof -
  have "dotfree k \<and> session_ok fs' k s" if mem: "(k, s) \<in> set (fl_sessions l)" for k s
  proof -
    have k: "dotfree k" "session_ok fs k s"
      using assms(1) mem by (auto simp: log_inv_def)
    have "k \<noteq> key"
      using assms(3) mem by (auto simp: map_of_eq_None_iff image_iff)
    then show ?thesis
      using k session_ok_frame [OF k(2) assms(4) k(1) assms(2)] by blast
  qed
  with assms(1) show ?thesis
    by (auto simp: log_inv_def)
qed

lemma Open_inv:
  assumes "log_inv (l, fs)" "dotfree (SanitizeDID did)"
  shows "log_inv (snd (Open e did (l, fs)))"
proof (cases "map_of (fl_sessions l) (SanitizeDID did)")
  case (Some s)
  have "session_ok fs (SanitizeDID did) (s\<lparr>ls_refs := ls_refs s + 1\<rparr>)"
    using log_inv_session [OF assms(1) Some] by (simp add: session_ok_def session_files_def)
  then show ?thesis
    using Some log_inv_update [OF assms(1,2)] by (simp add: Open_def)
next
  case None
  let ?s = "\<lparr>ls_refs = 1, ls_did = SanitizeDID did, ls_day = [], ls_hex = None, ls_txt = None\<rparr>"
  obtain err s' fs' where o: "session_open e (fl_maxBytes l) ?s fs = (err, s', fs')"
    by (metis prod_cases3)
  have ok: "session_ok fs' (SanitizeDID did) s'" "log_frame (SanitizeDID did) {''.hex'', ''.txt''} fs fs'"
    using session_open_ok [OF o, of "SanitizeDID did"] by (simp_all add: session_files_def session_ok_def)
  have "log_inv (l, fs')"
    using assms None ok(2) by (rule log_inv_frame)
  then show ?thesis
    using None o log_inv_update [OF assms ok] by (cases err) (simp_all add: Open_def)
qed

lemma Close_inv:
  assumes "log_inv (l, fs)"
  shows "log_inv (Close did (l, fs))"
proof (cases "map_of (fl_sessions l) (SanitizeDID did)")
  case None
  with assms show ?thesis by (simp add: Close_def)
next
  case (Some s)
  note ok = log_inv_session [OF assms Some]
  show ?thesis
  proof (cases "ls_refs s - 1 > 0")
    case True
    with ok have "session_ok fs (SanitizeDID did) (s\<lparr>ls_refs := ls_refs s - 1\<rparr>)"
      by (simp add: session_ok_def session_files_def)
    then show ?thesis
      using Some True ok log_inv_update [OF assms] by (simp add: Close_def)
  next
    case False
    have "set (AList.delete (SanitizeDID did) (fl_sessions l)) \<subseteq> set (fl_sessions l)"
      by (auto simp: AList.delete_eq)
    with Some False assms show ?thesis
      by (auto simp: Close_def log_inv_def distinct_delete)
  qed
qed

lemma log_line_inv:
  assumes "log_inv (l, fs)" "map_of (fl_sessions l) key = Some s"
    "w (rolloverDay e mx s fs) = (s2, fs2)" "w = write_hex e mx line \<or> w = write_txt e mx line"
  shows "log_inv (l\<lparr>fl_sessions := AList.update key s2 (fl_sessions l)\<rparr>, fs2)"
proof -
  obtain s1 fs1 where r: "rolloverDay e mx s fs = (s1, fs1)"
    by fastforce
  note ok = log_inv_session [OF assms(1,2)]
  note ok1 = rolloverDay_ok [OF r conjunct2 [OF ok]]
  have "session_ok fs2 key s2 \<and> log_frame key {''.hex'', ''.txt''} fs1 fs2"
    using write_hex_ok [of e mx line s1 fs1 s2 fs2 key] write_txt_ok [of e mx line s1 fs1 s2 fs2 key]
      assms(3,4) ok1 r by metis
  then show ?thesis
    using log_inv_update [OF assms(1)] ok ok1 log_frame_trans by blast
qed

lemma LogHex_inv: "log_inv (l, fs) \<Longrightarrow> log_inv (LogHex e did raw (l, fs))"
  by (auto simp: LogHex_def Let_def split: option.split prod.split intro!: log_line_inv)

lemma LogTxt_inv: "log_inv (l, fs) \<Longrightarrow> log_inv (LogTxt e did line (l, fs))"
  by (auto simp: LogTxt_def Let_def split: option.split prod.split intro!: log_line_inv)

lemma log_exec_inv: "log_inv st \<Longrightarrow> event_ok ev \<Longrightarrow> log_inv (log_exec ev st)"
proof (cases st; cases ev)
  fix l fs
  assume "log_inv st" "event_ok ev" "st = (l, fs)" "ev = EvCloseAll"
  then show ?thesis by (simp add: log_inv_def CloseAll_def)
qed (auto simp: event_ok_def Open_inv Close_inv LogHex_inv LogTxt_inv simp del: snd_conv)

inductive log_step :: "FrameLogger \<times> fs \<Rightarrow> FrameLogger \<times> fs \<Rightarrow> bool" where
  "event_ok ev \<Longrightarrow> log_step st (log_exec ev st)"

interpretation logs: transition_system "\<lambda>st. \<exists>n fs. st = (NewFrameLogger n, fs)" log_step .

lemma log_reach_inv: "logs.reach st \<Longrightarrow> log_inv st"
  by (erule logs.invariant) (auto simp: log_inv_New log_exec_inv elim!: log_step.cases)

end
