(* ===== verification/Log_Lines.thy ===== *)
theory Log_Lines
  imports Frame_Log
begin

text \<open>
  What the log files hold (\<^verbatim>\<open>src/internal/tcp/framelog.go\<close>): a line reaches exactly one file
  and whole, a dump of a frame can be read back, the sessions of a device are shared by
  its connections through a reference count, and the retention of \<^verbatim>\<open>log_cleanup.go\<close> removes
  the folders that are too old and no others.
\<close>

section \<open>A line is appended whole\<close>

text \<open>Files are as before or new and empty.\<close>

definition fresh_only :: "fs \<Rightarrow> fs \<Rightarrow> bool" where
  "fresh_only fs fs' \<longleftrightarrow>
     (\<forall>d n. fs_file fs' d n = fs_file fs d n \<or> fs_file fs d n = None \<and> fs_file fs' d n = Some [])"

lemma fresh_only_refl [simp]: "fresh_only fs fs"
  by (simp add: fresh_only_def)

lemma fresh_only_trans: "fresh_only fs fs1 \<Longrightarrow> fresh_only fs1 fs2 \<Longrightarrow> fresh_only fs fs2"
  unfolding fresh_only_def by metis

lemma fresh_only_openLogPart: "openLogPart ft fs d did ext seq mx = (r, fs') \<Longrightarrow> fresh_only fs fs'"
  using openLogPart_result [of ft fs d did ext seq mx r fs'] by (auto simp: fresh_only_def OpenAppend_file split: if_splits)

lemma fresh_only_mkdir: "MkdirAll b d fs = Some fs' \<Longrightarrow> fresh_only fs fs'"
  by (simp add: fresh_only_def MkdirAll_file)

definition calm :: "log_env \<Rightarrow> bool" where
  "calm e \<longleftrightarrow> mkdir_fails e (format_day (now_open e)) = False \<and> at_open e = no_faults \<and>
     at_rotate e = no_faults \<and> write_fails e = None"

text \<open>The line is at the end of the file \<open>n\<close> of the day; all other files are as before or new and empty.\<close>

definition appended :: "nat \<Rightarrow> string \<Rightarrow> string \<Rightarrow> string \<Rightarrow> fs \<Rightarrow> fs \<Rightarrow> bool" where
  "appended mx d n line fs fs' \<longleftrightarrow>
     fs_file fs' d n = Some (case fs_file fs d n of None \<Rightarrow> line | Some c \<Rightarrow> c @ line) \<and>
     (file_size fs d n + length line \<le> mx \<or> file_size fs d n < mx) \<and>
     (\<forall>d' n'. (d', n') \<noteq> (d, n) \<longrightarrow>
        fs_file fs' d' n' = fs_file fs d' n' \<or> fs_file fs d' n' = None \<and> fs_file fs' d' n' = Some [])"

lemma appended_intro:
  assumes "fresh_only fs fs1" "tracked fs1 f" "lf_dir f = d"
    "lf_size f + length line \<le> mx \<or> lf_size f < mx"
  shows "appended mx d (lf_name f) line fs (append_file d (lf_name f) line fs1)"
proof -
  obtain c where c: "fs_file fs1 d (lf_name f) = Some c" "length c = lf_size f"
    using assms(2,3) by (auto simp: tracked_def)
  have "fs_file fs d (lf_name f) = Some c \<or> fs_file fs d (lf_name f) = None \<and> c = []"
    using assms(1) c(1) unfolding fresh_only_def by (metis option.inject)
  then show ?thesis
    using assms(1,4) c unfolding appended_def fresh_only_def file_size_def
    by (auto simp: append_file_file)
qed

lemma appended_fresh:
  assumes "fresh_only fs fs1" "appended mx d n line fs1 fs'"
  shows "appended mx d n line fs fs'"
proof -
  have eq: "fs_file fs1 d n = fs_file fs d n \<or> fs_file fs d n = None \<and> fs_file fs1 d n = Some []"
    using assms(1) by (simp add: fresh_only_def)
  have "fs_file fs' d' n' = fs_file fs d' n' \<or> fs_file fs d' n' = None \<and> fs_file fs' d' n' = Some []"
    if "(d', n') \<noteq> (d, n)" for d' n'
    using that assms unfolding fresh_only_def appended_def by metis
  moreover have "file_size fs1 d n = file_size fs d n"
    using eq by (auto simp: file_size_def)
  ultimately show ?thesis
    using assms(2) eq unfolding appended_def by (auto split: option.splits)
qed

lemma writeLine_appends:
  assumes "file_ok fs d did ext f" "lf_open f" "\<not> lf_err f" "calm e" "0 < mx"
  shows "\<exists>f' fs'. writeLine e mx f line fs = (f', fs') \<and> lf_open f' \<and> \<not> lf_err f' \<and>
    lf_name f' = part_name did ext (lf_seq f') \<and> appended mx d (lf_name f') line fs fs'"
proof (cases "lf_size f + length line > mx")
  case False
  then have "writeLine e mx f line fs = WriteString e f line fs"
    using assms(2) by (simp add: writeLine_def)
  moreover have "appended mx d (lf_name f) line fs (append_file d (lf_name f) line fs)"
    using assms(1-3) False by (intro appended_intro) (auto simp: file_ok_def)
  ultimately show ?thesis
    using assms by (auto simp: WriteString_def calm_def file_ok_def)
next
  case True
  have f: "lf_dir f = d" "lf_did f = did" "lf_ext f = ext" "tracked fs f"
    using assms(1-3) by (auto simp: file_ok_def)
  then have "has_dir fs d"
    by (auto simp: tracked_def dest: fs_file_has_dir)
  then obtain g fs1 where o: "openLogPart (at_rotate e) fs d did ext (lf_seq f + 1) mx = (Inr g, fs1)"
    using openLogPart_no_faults [of fs d "at_rotate e"] assms(4) unfolding calm_def by blast
  have "1 \<le> lf_seq f + 1"
    by simp
  note g = openLogPart_ok [OF o this]
  have "snd (logger_rotate e mx f fs) = (g, fs1)"
    using o by (simp add: logger_rotate_def f Let_def)
  then have "writeLine e mx f line fs = WriteString e g line fs1"
    using assms(2,5) True g(2) by (simp add: writeLine_def)
  moreover have "appended mx d (lf_name g) line fs (append_file d (lf_name g) line fs1)"
    using g assms(5) fresh_only_openLogPart [OF o] by (intro appended_intro) (auto simp: file_ok_def)
  ultimately show ?thesis
    using assms g by (auto simp: WriteString_def calm_def file_ok_def)
qed

lemma session_open_calm:
  assumes "calm e" "format_day (now_open e) \<notin> set (fs_plain fs)" "ls_did s = key"
  shows "\<exists>h t s' fs'. session_open e mx s fs = (None, s', fs') \<and> ls_hex s' = Some h \<and> ls_txt s' = Some t \<and>
    ls_day s' = format_day (now_open e) \<and> lf_open h \<and> \<not> lf_err h \<and> lf_open t \<and> \<not> lf_err t \<and> fresh_only fs fs'"
proof -
  let ?d = "format_day (now_open e)"
  obtain fs0 where fs0: "MkdirAll (mkdir_fails e ?d) ?d fs = Some fs0"
    using assms(1,2) by (cases "has_dir fs ?d") (simp_all add: MkdirAll_def calm_def)
  then have d0: "has_dir fs0 ?d"
    by (simp add: MkdirAll_has_dir)
  then obtain h fs1 where h: "openLogPart (at_open e) fs0 ?d key ''.hex'' 1 mx = (Inr h, fs1)"
    using openLogPart_no_faults [of fs0 ?d "at_open e"] assms(1) unfolding calm_def by blast
  have "has_dir fs1 ?d"
    using log_frame_openLogPart [OF h] d0 by (simp add: log_frame_def)
  then obtain t fs2 where t: "openLogPart (at_open e) fs1 ?d key ''.txt'' 1 mx = (Inr t, fs2)"
    using openLogPart_no_faults [of fs1 ?d "at_open e"] assms(1) unfolding calm_def by blast
  have "fresh_only fs fs2"
    using fresh_only_mkdir [OF fs0] fresh_only_openLogPart [OF h] fresh_only_openLogPart [OF t]
    by (blast intro: fresh_only_trans)
  then show ?thesis
    using openLogPart_ok [OF h] openLogPart_ok [OF t] h t
    by (simp add: session_open_def assms(3) fs0 Let_def)
qed

text \<open>
  The state in which a line is written: the session is on the day of the clock with
  working files, or it is on another day and the folder of today can be made.
\<close>

definition ready :: "log_env \<Rightarrow> fs \<Rightarrow> logSession \<Rightarrow> bool" where
  "ready e fs s \<longleftrightarrow>
     calm e \<and> format_day (now_open e) = format_day (now_check e) \<and>
     format_day (now_open e) \<notin> set (fs_plain fs) \<and>
     (ls_day s = format_day (now_check e) \<longrightarrow>
        (case (ls_hex s, ls_txt s) of
           (Some h, Some t) \<Rightarrow> lf_open h \<and> \<not> lf_err h \<and> lf_open t \<and> \<not> lf_err t
         | _ \<Rightarrow> False))"

lemma rolloverDay_ready:
  assumes "session_ok fs key s" "ready e fs s"
  shows "\<exists>h t s' fs'. rolloverDay e mx s fs = (s', fs') \<and> ls_hex s' = Some h \<and> ls_txt s' = Some t \<and>
    ls_day s' = format_day (now_check e) \<and> lf_open h \<and> \<not> lf_err h \<and> lf_open t \<and> \<not> lf_err t \<and> fresh_only fs fs'"
proof (cases "ls_day s = format_day (now_check e)")
  case True
  with assms(2) show ?thesis
    by (auto simp: ready_def rolloverDay_def split: option.splits)
next
  case False
  have "ls_did (session_close s) = key"
    using assms(1) by (simp add: session_close_def session_ok_def)
  then obtain h t s' fs' where "session_open e mx (session_close s) fs = (None, s', fs')"
    "ls_hex s' = Some h" "ls_txt s' = Some t" "ls_day s' = format_day (now_open e)"
    "lf_open h" "\<not> lf_err h" "lf_open t" "\<not> lf_err t" "fresh_only fs fs'"
    using session_open_calm [of e fs "session_close s" key mx] assms(2) by (auto simp: ready_def)
  with False assms(2) show ?thesis
    by (auto simp: rolloverDay_def ready_def)
qed

section \<open>Reading a dump back\<close>

definition hex_value :: "char \<Rightarrow> nat option" where
  "hex_value c =
     (let n = of_char c in
      if 48 \<le> n \<and> n \<le> 57 then Some (n - 48) else if 65 \<le> n \<and> n \<le> 70 then Some (n - 55) else None)"

fun read_hex :: "string \<Rightarrow> bytes option" where
  "read_hex [] = Some []"
| "read_hex (a # b # sp # cs) =
     (case (hex_value a, hex_value b, read_hex cs) of
        (Some x, Some y, Some bs) \<Rightarrow> if sp = CHR '' '' then Some (of_nat (16 * x + y) # bs) else None
      | _ \<Rightarrow> None)"
| "read_hex _ = None"

lemma hexDigits_ok: "\<forall>n \<in> set [0..<16]. hex_value (hexDigits ! n) = Some n \<and> hexDigits ! n \<noteq> CHR 0x0A"
  by code_simp

lemma hexDigit_cases: "n < 16 \<Longrightarrow> hex_value (hexDigits ! n) = Some n \<and> hexDigits ! n \<noteq> CHR 0x0A"
  using hexDigits_ok by simp

lemma nibbles:
  fixes c :: byte
  shows "unat (drop_bit 4 c) < 16" "unat (and c 0x0F) < 16"
    "16 * unat (drop_bit 4 c) + unat (and c 0x0F) = unat c"
proof -
  have hi: "unat (drop_bit 4 c) = unat c div 16"
    by (simp add: drop_bit_eq_div unat_div_distrib)
  have "and c 0x0F = take_bit 4 c"
    by (simp add: take_bit_eq_mask mask_eq_exp_minus_1)
  then have lo: "unat (and c 0x0F) = unat c mod 16"
    by (simp add: take_bit_eq_mod unat_mod_distrib)
  show "unat (drop_bit 4 c) < 16" "unat (and c 0x0F) < 16"
    "16 * unat (drop_bit 4 c) + unat (and c 0x0F) = unat c"
    using unat_byte_less [of c] less_mult_imp_div_less [of "unat c" 16 16] by (simp_all add: hi lo)
qed

lemma read_hex_dump: "read_hex (hex_dump raw) = Some raw"
proof (induction raw)
  case (Cons c raw)
  have "of_nat (16 * unat (drop_bit 4 c) + unat (and c 0x0F)) = c"
    by (simp only: nibbles) simp
  then show ?case
    using Cons hexDigit_cases nibbles [of c] by simp
qed simp

lemma hex_dump_no_newline: "CHR 0x0A \<notin> set (hex_dump raw)"
proof (induction raw)
  case (Cons c raw)
  then show ?case
    using hexDigit_cases [of "unat (drop_bit 4 c)"] hexDigit_cases [of "unat (and c 0x0F)"] nibbles [of c]
    by auto
qed simp

lemma length_hex_dump: "length (hex_dump raw) = 3 * length raw"
  by (induction raw) auto

lemma length_pad3 [simp]: "length (pad3 n) = 3"
  by (simp add: pad3_def)

lemma digit_no_newline: "0 \<le> n \<Longrightarrow> n < 10 \<Longrightarrow> digit n \<noteq> CHR 0x0A"
  using undigit_digit [of n] by (auto simp: undigit_def)

lemma digit_mod_no_newline: "CHR 0x0A \<noteq> digit (n mod 10)"
  using digit_no_newline [of "n mod 10"] by simp

lemma pad_no_newline: "CHR 0x0A \<notin> set (pad2 n)" "CHR 0x0A \<notin> set (pad3 n)" "CHR 0x0A \<notin> set (pad4 n)"
  by (simp_all add: pad2_def pad3_def pad4_def digit_mod_no_newline)

lemma format_stamp_shape: "length (format_stamp t) = 23 \<and> CHR 0x0A \<notin> set (format_stamp t)"
  by (simp add: format_stamp_def format_day_def format_date_def format_clock_def pad_no_newline
      length_pad3 Let_def split: prod.split)

section \<open>Reference counts\<close>

text \<open>
  What the connections of a device rely on: an event that ends one use of a key gives one
  reference back, and no other event takes one.
\<close>

locale ref_counted =
  fixes refs :: "'s \<Rightarrow> 'k \<Rightarrow> nat"
    and exec :: "'e \<Rightarrow> 's \<Rightarrow> 's"
    and releases :: "'k \<Rightarrow> 'e \<Rightarrow> bool"
    and resets :: "'e \<Rightarrow> bool"
  assumes release: "releases k e \<Longrightarrow> refs (exec e s) k = refs s k - 1"
    and keep: "\<not> releases k e \<Longrightarrow> \<not> resets e \<Longrightarrow> refs s k \<le> refs (exec e s) k"
begin

lemma refs_fold:
  assumes "\<forall>e \<in> set es. \<not> resets e"
  shows "refs s k - length (filter (releases k) es) \<le> refs (fold exec es s) k"
  using assms
proof (induction es arbitrary: s)
  case (Cons e es)
  then have "refs (exec e s) k - length (filter (releases k) es) \<le> refs (fold exec (e # es) s) k"
    by simp
  moreover have "refs s k - length (filter (releases k) (e # es)) \<le> refs (exec e s) k - length (filter (releases k) es)"
  proof (cases "releases k e")
    case True
    then show ?thesis using release [OF True, of s] by simp
  next
    case False
    then show ?thesis using keep [OF False, of s] Cons.prems by simp
  qed
  ultimately show ?case
    by linarith
qed simp

end

definition log_refs :: "FrameLogger \<times> fs \<Rightarrow> string \<Rightarrow> nat" where
  "log_refs = (\<lambda>(l, fs) key. case map_of (fl_sessions l) key of None \<Rightarrow> 0 | Some s \<Rightarrow> nat (ls_refs s))"

fun closes :: "string \<Rightarrow> log_event \<Rightarrow> bool" where
  "closes key (EvClose did) \<longleftrightarrow> SanitizeDID did = key"
| "closes key _ \<longleftrightarrow> False"

lemma session_open_refs: "session_open e mx s fs = (err, s', fs') \<Longrightarrow> ls_refs s' = ls_refs s"
  by (auto simp: session_open_def Let_def split: option.splits prod.splits sum.splits)

lemma rolloverDay_refs: "ls_refs (fst (rolloverDay e mx s fs)) = ls_refs s"
proof (cases "session_open e mx (session_close s) fs")
  case (fields err s' fs')
  then show ?thesis
    using session_open_refs [OF fields] by (simp add: rolloverDay_def session_close_def)
qed

lemma write_refs:
  "ls_refs (fst (write_hex e mx line p)) = ls_refs (fst p)"
  "ls_refs (fst (write_txt e mx line p)) = ls_refs (fst p)"
  by (auto simp: write_hex_def write_txt_def split: prod.split option.split)

lemma AList_update_refs:
  "log_refs (l\<lparr>fl_sessions := AList.update k s (fl_sessions l)\<rparr>, fs) key =
     (if key = k then nat (ls_refs s) else log_refs (l, fs) key)"
  by (simp add: log_refs_def update_conv')

lemma log_refs_fs: "log_refs (l, fs) = log_refs (l, fs')"
  by (simp add: log_refs_def)

lemma log_refs_Open: "log_refs st key \<le> log_refs (snd (Open e did st)) key"
proof (cases st)
  case (Pair l fs)
  show ?thesis
  proof (cases "map_of (fl_sessions l) (SanitizeDID did)")
    case (Some s)
    then show ?thesis
      by (auto simp: Pair Open_def AList_update_refs) (simp add: log_refs_def)
  next
    case None
    obtain err s' fs' where "session_open e (fl_maxBytes l)
        \<lparr>ls_refs = 1, ls_did = SanitizeDID did, ls_day = [], ls_hex = None, ls_txt = None\<rparr> fs = (err, s', fs')"
      by (metis prod_cases3)
    with None show ?thesis
      by (cases err) (auto simp: Pair Open_def log_refs_def update_conv' split: option.split)
  qed
qed

lemma log_refs_Close:
  "log_refs (Close did st) key = (if key = SanitizeDID did then log_refs st key - 1 else log_refs st key)"
proof (cases st)
  case (Pair l fs)
  show ?thesis
  proof (cases "map_of (fl_sessions l) (SanitizeDID did)")
    case None
    then show ?thesis by (auto simp: Pair Close_def log_refs_def)
  next
    case (Some s)
    then have "log_refs st (SanitizeDID did) = nat (ls_refs s)"
      by (simp add: Pair log_refs_def)
    then show ?thesis
      using Some by (auto simp: Pair Close_def Let_def log_refs_def update_conv' delete_conv' nat_diff_distrib')
  qed
qed

lemma log_refs_LogHex: "log_refs (LogHex e did raw st) key = log_refs st key"
proof (cases st)
  case (Pair l fs)
  show ?thesis
  proof (cases "map_of (fl_sessions l) (SanitizeDID did)")
    case None
    then show ?thesis by (simp add: Pair LogHex_def)
  next
    case (Some s)
    let ?r = "rolloverDay e (fl_maxBytes l) s fs"
    obtain s2 fs2 where w: "write_hex e (fl_maxBytes l) (hex_line (now_stamp e) raw) ?r = (s2, fs2)"
      by fastforce
    have "ls_refs s2 = ls_refs s"
      using write_refs(1) [of e "fl_maxBytes l" "hex_line (now_stamp e) raw" ?r] w rolloverDay_refs by simp
    with Some w show ?thesis
      by (auto simp: Pair LogHex_def AList_update_refs) (auto simp: log_refs_def)
  qed
qed

lemma log_refs_LogTxt: "log_refs (LogTxt e did line st) key = log_refs st key"
proof (cases st)
  case (Pair l fs)
  show ?thesis
  proof (cases "map_of (fl_sessions l) (SanitizeDID did)")
    case None
    then show ?thesis by (simp add: Pair LogTxt_def)
  next
    case (Some s)
    let ?r = "rolloverDay e (fl_maxBytes l) s fs"
    obtain s2 fs2 where w: "write_txt e (fl_maxBytes l) (line @ [CHR 0x0A]) ?r = (s2, fs2)"
      by fastforce
    have "ls_refs s2 = ls_refs s"
      using write_refs(2) [of e "fl_maxBytes l" "line @ [CHR 0x0A]" ?r] w rolloverDay_refs by simp
    with Some w show ?thesis
      by (auto simp: Pair LogTxt_def AList_update_refs) (auto simp: log_refs_def)
  qed
qed

interpretation log_sessions: ref_counted log_refs log_exec closes "\<lambda>ev. ev = EvCloseAll"
proof unfold_locales
  fix k ev st
  show "closes k ev \<Longrightarrow> log_refs (log_exec ev st) k = log_refs st k - 1"
    by (cases ev) (auto simp: log_refs_Close)
  show "\<not> closes k ev \<Longrightarrow> ev \<noteq> EvCloseAll \<Longrightarrow> log_refs st k \<le> log_refs (log_exec ev st) k"
    by (cases ev) (auto simp: log_refs_Close log_refs_Open log_refs_LogHex log_refs_LogTxt)
qed

section \<open>Retention\<close>

definition too_old :: "int \<Rightarrow> string \<Rightarrow> bool" where
  "too_old cutoff d \<longleftrightarrow> (case parse_date d of None \<Rightarrow> False | Some z \<Rightarrow> z < cutoff)"

lemma map_of_RemoveAll:
  "map_of (fs_dirs (snd (RemoveAll fault d fs))) e =
     (if e = d then (case fault of None \<Rightarrow> None | Some keep \<Rightarrow> map_option (filter (\<lambda>(n, c). keep n)) (map_of (fs_dirs fs) d))
      else map_of (fs_dirs fs) e)"
proof (cases fault)
  case None
  then show ?thesis by (simp add: RemoveAll_def delete_conv')
next
  case (Some keep)
  have *: "map_of (map (\<lambda>(e, fl). (e, if e = d then filter (\<lambda>(n, c). keep n) fl else fl)) xs) e
      = map_option (\<lambda>fl. if e = d then filter (\<lambda>(n, c). keep n) fl else fl) (map_of xs e)" for xs
    by (induction xs) auto
  show ?thesis
    by (simp add: RemoveAll_def Some * option.map_ident)
qed

lemma fs_plain_RemoveAll [simp]: "fs_plain (snd (RemoveAll fault d fs)) = fs_plain fs"
  by (simp add: RemoveAll_def split: option.split)

lemma fst_RemoveAll [simp]: "fst (RemoveAll fault d fs) = (fault = None)"
  by (simp add: RemoveAll_def split: option.split)

lemma cleanup_loop_step:
  "cleanup_loop rm cutoff (d # ds) n fs =
     (if too_old cutoff d
      then cleanup_loop rm cutoff ds (if rm d = None then n + 1 else n) (snd (RemoveAll (rm d) d fs))
      else cleanup_loop rm cutoff ds n fs)"
  by (cases "RemoveAll (rm d) d fs")
    (use fst_RemoveAll [of "rm d" d fs] in \<open>auto simp: too_old_def split: option.split bool.split\<close>)

declare cleanup_loop.simps(2) [simp del]

lemma cleanup_loop_spec:
  assumes "cleanup_loop rm cutoff ds n fs = (m, fs')"
  shows "m = n + length (filter (\<lambda>d. too_old cutoff d \<and> rm d = None) ds)" "fs_plain fs' = fs_plain fs"
    "\<And>e. e \<notin> set ds \<or> \<not> too_old cutoff e \<Longrightarrow> map_of (fs_dirs fs') e = map_of (fs_dirs fs) e"
    "\<And>e. e \<in> set ds \<Longrightarrow> too_old cutoff e \<Longrightarrow> rm e = None \<Longrightarrow> map_of (fs_dirs fs') e = None"
  using assms
proof (induction ds arbitrary: n fs)
  case Nil
  {
    case 1
    then show ?case by simp
  next
    case 2
    then show ?case by simp
  next
    case 3
    then show ?case by simp
  next
    case 4
    then show ?case by simp
  }
next
  case (Cons d ds)
  {
    case 1
    then show ?case
      using Cons.IH(1) by (fastforce simp: cleanup_loop_step split: if_splits)
  next
    case 2
    then show ?case
      using Cons.IH(2) by (fastforce simp: cleanup_loop_step split: if_splits)
  next
    case 3
    then show ?case
      using Cons.IH(3) by (fastforce simp: cleanup_loop_step map_of_RemoveAll split: if_splits)
  next
    case (4 e)
    then show ?case
    proof (cases "e \<in> set ds")
      case True
      then show ?thesis
        using 4 Cons.IH(4) [OF True] by (auto simp: cleanup_loop_step split: if_splits)
    next
      case False
      with 4 have "d = e" by simp
      with False 4 show ?thesis
        using Cons.IH(3) [of e] by (auto simp: cleanup_loop_step map_of_RemoveAll split: if_splits)
    qed
  }
qed

section \<open>Properties of the logs\<close>

definition calm_env :: "time \<Rightarrow> log_env" where
  "calm_env t = \<lparr>now_check = t, now_open = t, now_stamp = t, mkdir_fails = (\<lambda>_. False), at_open = no_faults,
     at_rotate = no_faults, at_retry = no_faults, write_fails = None\<rparr>"

definition empty_fs :: fs where
  "empty_fs = \<lparr>fs_root = False, fs_dirs = [], fs_plain = []\<rparr>"

definition log_A :: "FrameLogger \<times> fs" where
  "log_A = log_exec (EvOpen (calm_env 0) ''A'') (NewFrameLogger 50, empty_fs)"

lemma log_A_reach: "logs.reach log_A"
proof -
  have "event_ok (EvOpen (calm_env 0) ''A'')"
    by code_simp
  then have "log_step (NewFrameLogger 50, empty_fs) log_A"
    unfolding log_A_def by (rule log_step.intros)
  then show ?thesis
    by (rule logs.reach_step [OF logs.reach_init, rotated]) blast
qed

lemma log_A_session:
  "\<exists>s. map_of (fl_sessions (fst log_A)) (SanitizeDID ''A'') = Some s \<and> ready (calm_env 0) (snd log_A) s"
proof -
  have "case map_of (fl_sessions (fst log_A)) (SanitizeDID ''A'') of None \<Rightarrow> False
    | Some s \<Rightarrow> format_day 0 \<notin> set (fs_plain (snd log_A)) \<and>
     (ls_day s = format_day 0 \<longrightarrow>
        (case (ls_hex s, ls_txt s) of
           (Some h, Some t) \<Rightarrow> lf_open h \<and> \<not> lf_err h \<and> lf_open t \<and> \<not> lf_err t
         | _ \<Rightarrow> False))"
    by code_simp
  then show ?thesis
    by (auto simp: ready_def calm_def calm_env_def split: option.splits)
qed







text \<open>
  C30: A hex line is 23 characters of time, the marker of an incoming frame, the bytes of
  the frame, from which the frame can be read back, and the only line break of the line.
\<close>

theorem hex_line_readable:
  "hex_line t raw = format_stamp t @ '' IN '' @ hex_dump raw @ [CHR 0x0A]
   \<and> length (format_stamp t) = 23 \<and> read_hex (hex_dump raw) = Some raw
   \<and> CHR 0x0A \<notin> set (butlast (hex_line t raw)) \<and> length (hex_line t raw) = 28 + 3 * length raw"
  using format_stamp_shape [of t] hex_dump_no_newline [of raw]
  by (simp add: hex_line_def read_hex_dump length_hex_dump butlast_append)

text \<open>
  C31: A cleanup keeps today and the \<open>N - 1\<close> days before it (at least today), whatever
  fails, and the directories whose names are not dates, and plain files; it removes every
  folder of an earlier day whose removal does not fail, and counts exactly these.
\<close>

theorem cleanup_retention:
  assumes "cleanupOldLogsAt False rm retentionDays now fs = (r, fs')" and "fs_root fs"
  shows "fs_plain fs' = fs_plain fs
    \<and> (\<forall>d. parse_date d = None \<longrightarrow> map_of (fs_dirs fs') d = map_of (fs_dirs fs) d)
    \<and> (\<forall>z. printable_day z \<and> day_of_time now - max 1 retentionDays < z \<longrightarrow>
         map_of (fs_dirs fs') (format_date z) = map_of (fs_dirs fs) (format_date z))
    \<and> (\<forall>z. printable_day z \<and> z \<le> day_of_time now - max 1 retentionDays \<and> rm (format_date z) = None \<longrightarrow>
         \<not> has_dir fs' (format_date z))
    \<and> r = Some (length (filter (\<lambda>d. too_old (day_of_time now - max 1 retentionDays + 1) d \<and> rm d = None)
         (map fst (fs_dirs fs))))"
proof -
  let ?cut = "day_of_time now - max 1 retentionDays + 1"
  have cut: "day_of_time now - ((if retentionDays < 1 then 1 else retentionDays) - 1) = ?cut"
    by (simp add: max_def)
  obtain m where m: "cleanup_loop rm ?cut (map fst (fs_dirs fs)) 0 fs = (m, fs')" and r: "r = Some m"
    using assms by (auto simp: cleanupOldLogsAt_def Let_def cut split: prod.splits)
  note spec = cleanup_loop_spec [OF m]
  have gone: "map_of (fs_dirs fs') d = None" if "too_old ?cut d" "rm d = None" for d
  proof (cases "d \<in> set (map fst (fs_dirs fs))")
    case True
    then show ?thesis using spec(4) [OF True] that by simp
  next
    case False
    then show ?thesis using spec(3) [of d] by (simp add: map_of_eq_None_iff)
  qed
  have old: "too_old ?cut (format_date z) \<longleftrightarrow> z < ?cut" if "printable_day z" for z
    using that by (simp add: too_old_def parse_date_format_date)
  have "map_of (fs_dirs fs') d = map_of (fs_dirs fs) d" if "parse_date d = None" for d
    using spec(3) [of d] that by (simp add: too_old_def)
  moreover have "map_of (fs_dirs fs') (format_date z) = map_of (fs_dirs fs) (format_date z)"
    if "printable_day z" "day_of_time now - max 1 retentionDays < z" for z
    using spec(3) [of "format_date z"] old [OF that(1)] that(2) by simp
  moreover have "\<not> has_dir fs' (format_date z)"
    if "printable_day z" "z \<le> day_of_time now - max 1 retentionDays" "rm (format_date z) = None" for z
    using gone [of "format_date z"] old [OF that(1)] that(2,3) by (simp add: has_dir_def)
  ultimately show ?thesis
    using spec(1,2) r by simp
qed

theorem cleanup_retention_witness:
  "\<exists>fs'. cleanupOldLogsAt False (\<lambda>_. None) 7 (20000 * Day)
      (empty_fs\<lparr>fs_root := True, fs_dirs := [(format_date 19993, []), (''keep'', [])]\<rparr>) = (Some 1, fs')
    \<and> \<not> has_dir fs' (format_date 19993) \<and> has_dir fs' ''keep''"
proof -
  let ?fs = "empty_fs\<lparr>fs_root := True, fs_dirs := [(format_date 19993, []), (''keep'', [])]\<rparr>"
  obtain r fs' where c: "cleanupOldLogsAt False (\<lambda>_. None) 7 (20000 * Day) ?fs = (r, fs')"
    by fastforce
  have "printable_day 19993" "parse_date ''keep'' = None"
    "filter (\<lambda>d. too_old 19994 d) [format_date 19993, ''keep''] = [format_date 19993]" "format_date 19993 \<noteq> ''keep''"
    by code_simp+
  moreover have "day_of_time (20000 * Day) = 20000"
    by (simp add: day_of_time_def Day_def Hour_def Minute_def Second_def)
  ultimately show ?thesis
    using cleanup_retention [OF c] c by (auto simp: has_dir_def)
qed

section \<open>Limits of the naming scheme\<close>

text \<open>
  Names with a dot are why the invariant excludes them: the second part of device \<^verbatim>\<open>A\<close> is
  the first file of device \<^verbatim>\<open>A.2\<close>.
\<close>

lemma part_names_collide: "part_name (SanitizeDID ''A'') ''.hex'' 2 = part_name (SanitizeDID ''A.2'') ''.hex'' 1"
  by code_simp

text \<open>
  A part left almost full by an earlier session takes one more line: a session whose first
  part has 9 of 10 bytes moves to a second part of 9 bytes and makes it 14 bytes long.
\<close>

lemma part_limit_exceeded:
  "fs_file (snd (writeLine (calm_env 0) 10 (part_file ''d'' ''A'' ''.txt'' 1 9) ''12345''
     \<lparr>fs_root = True, fs_dirs = [(''d'', [(''A.txt'', ''123456789''), (''A.2.txt'', ''123456789'')])], fs_plain = []\<rparr>))
     ''d'' ''A.2.txt'' = Some ''12345678912345''"
  by code_simp

end
