(* ===== verification/Float64.thy ===== *)
theory Float64
  imports Complex_Main Files
begin

text \<open>
  What the program uses of Go's \<^verbatim>\<open>float64\<close>: IEEE 754 double precision values as their 64 bits,
  with addition, subtraction, multiplication, division and conversion from integers rounded
  to nearest, ties to even; conversion to \<^verbatim>\<open>int64\<close> truncates, and out of range gives the value of
  the amd64 instruction; the format \<^verbatim>\<open>%+.6f\<close>. Every operation computes on integers: a finite value is
  \<open>m * 2^e\<close>, and the exact result, a fraction of integers, is rounded once. The compiler is assumed
  not to fuse a product and a sum (as on amd64). Of a not-a-number result only that it is one matters.
\<close>

type_synonym f64 = "64 word"

definition f64_sign :: "f64 \<Rightarrow> bool" where "f64_sign w \<longleftrightarrow> 2 ^ 63 \<le> uint w"
definition f64_exp :: "f64 \<Rightarrow> int" where "f64_exp w = uint w div 2 ^ 52 mod 2 ^ 11"
definition f64_mant :: "f64 \<Rightarrow> int" where "f64_mant w = uint w mod 2 ^ 52"

definition IsNaN :: "f64 \<Rightarrow> bool" where
  "IsNaN w \<longleftrightarrow> f64_exp w = 2047 \<and> f64_mant w \<noteq> 0"

definition IsInf :: "f64 \<Rightarrow> bool" where
  "IsInf w \<longleftrightarrow> f64_exp w = 2047 \<and> f64_mant w = 0"

definition is_finite :: "f64 \<Rightarrow> bool" where
  "is_finite w \<longleftrightarrow> f64_exp w \<noteq> 2047"

definition NaN :: f64 where "NaN = 0x7FF8000000000001"

definition pack :: "bool \<Rightarrow> int \<Rightarrow> f64" where
  "pack s n = of_int (n + (if s then 2 ^ 63 else 0))"

definition Inf64 :: "bool \<Rightarrow> f64" where
  "Inf64 s = pack s (2047 * 2 ^ 52)"

text \<open>The magnitude \<open>m * 2^e\<close> of a finite value and its signed mantissa.\<close>

definition f64_scale :: "f64 \<Rightarrow> int \<times> int" where
  "f64_scale w =
     (if f64_exp w = 0 then (f64_mant w, - 1074) else (2 ^ 52 + f64_mant w, f64_exp w - 1075))"

definition f64_int :: "f64 \<Rightarrow> int" where
  "f64_int w = (if f64_sign w then - fst (f64_scale w) else fst (f64_scale w))"

text \<open>The number of binary digits.\<close>

function blen :: "int \<Rightarrow> int" where
  "blen n = (if n \<le> 0 then 0 else 1 + blen (n div 2))"
  by pat_completeness auto

termination
  by (relation "measure nat") auto

declare blen.simps [simp del]

definition round_half_even :: "int \<Rightarrow> int \<Rightarrow> int" where
  "round_half_even n d =
     (let q = n div d; r = n mod d in
      if 2 * r < d then q else if 2 * r > d then q + 1 else if even q then q else q + 1)"

text \<open>The fraction \<open>n / d\<close> times a power of two.\<close>

definition scale2 :: "int \<Rightarrow> int \<Rightarrow> int \<Rightarrow> int \<times> int" where
  "scale2 n d e = (if 0 \<le> e then (n * 2 ^ nat e, d) else (n, d * 2 ^ nat (- e)))"

text \<open>The double nearest to \<open>n / d\<close>, with the sign given.\<close>

definition round_frac :: "bool \<Rightarrow> int \<Rightarrow> int \<Rightarrow> f64" where
  "round_frac s n d =
     (if n = 0 then pack s 0
      else let k = blen n - blen d;
               (n1, d1) = scale2 n d (- k);
               e = (if n1 < d1 then k - 1 else k);
               E = max (e - 52) (- 1074);
               (n2, d2) = scale2 n d (- E);
               bits = (E + 1074) * 2 ^ 52 + round_half_even n2 d2
           in if 2047 * 2 ^ 52 \<le> bits then Inf64 s else pack s bits)"

definition f64_of_int :: "int \<Rightarrow> f64" where
  "f64_of_int i = round_frac (i < 0) \<bar>i\<bar> 1"

text \<open>An exact value \<open>m * 2^e\<close> with a signed mantissa; zero gets the sign given.\<close>

definition round_dyadic :: "bool \<Rightarrow> int \<Rightarrow> int \<Rightarrow> f64" where
  "round_dyadic zs m e =
     (let (n, d) = scale2 \<bar>m\<bar> 1 e in round_frac (if m = 0 then zs else m < 0) n d)"

definition f64_neg :: "f64 \<Rightarrow> f64" where
  "f64_neg w = w + 2 ^ 63"

definition f64_add :: "f64 \<Rightarrow> f64 \<Rightarrow> f64" where
  "f64_add a b =
     (if IsNaN a \<or> IsNaN b then NaN
      else if IsInf a then (if IsInf b \<and> f64_sign a \<noteq> f64_sign b then NaN else a)
      else if IsInf b then b
      else let ea = snd (f64_scale a); eb = snd (f64_scale b); e = min ea eb
           in round_dyadic (f64_sign a \<and> f64_sign b)
                (f64_int a * 2 ^ nat (ea - e) + f64_int b * 2 ^ nat (eb - e)) e)"

definition f64_sub :: "f64 \<Rightarrow> f64 \<Rightarrow> f64" where
  "f64_sub a b = f64_add a (f64_neg b)"

definition f64_mul :: "f64 \<Rightarrow> f64 \<Rightarrow> f64" where
  "f64_mul a b =
     (let s = (f64_sign a \<noteq> f64_sign b) in
      if IsNaN a \<or> IsNaN b then NaN
      else if IsInf a \<or> IsInf b
      then (if is_finite a \<and> f64_int a = 0 \<or> is_finite b \<and> f64_int b = 0 then NaN else Inf64 s)
      else round_dyadic s (f64_int a * f64_int b) (snd (f64_scale a) + snd (f64_scale b)))"

definition f64_div :: "f64 \<Rightarrow> f64 \<Rightarrow> f64" where
  "f64_div a b =
     (let s = (f64_sign a \<noteq> f64_sign b) in
      if IsNaN a \<or> IsNaN b \<or> IsInf a \<and> IsInf b then NaN
      else if IsInf a then Inf64 s
      else if IsInf b then pack s 0
      else if f64_int b = 0 then (if f64_int a = 0 then NaN else Inf64 s)
      else let (n, d) = scale2 (fst (f64_scale a)) (fst (f64_scale b)) (snd (f64_scale a) - snd (f64_scale b))
           in round_frac s n d)"

definition f64_is_zero :: "f64 \<Rightarrow> bool" where
  "f64_is_zero w \<longleftrightarrow> is_finite w \<and> f64_int w = 0"

text \<open>The comparisons; with a NaN each of them is false.\<close>

definition f64_less :: "f64 \<Rightarrow> f64 \<Rightarrow> bool" where
  "f64_less a b \<longleftrightarrow> \<not> IsNaN a \<and> \<not> IsNaN b \<and>
     (if IsInf a then f64_sign a \<and> \<not> (IsInf b \<and> f64_sign b)
      else if IsInf b then \<not> f64_sign b
      else let ea = snd (f64_scale a); eb = snd (f64_scale b); e = min ea eb
           in f64_int a * 2 ^ nat (ea - e) < f64_int b * 2 ^ nat (eb - e))"

definition f64_le :: "f64 \<Rightarrow> f64 \<Rightarrow> bool" where
  "f64_le a b \<longleftrightarrow> \<not> IsNaN a \<and> \<not> IsNaN b \<and> \<not> f64_less b a"

text \<open>Truncation to a 64-bit integer.\<close>

definition int64_of_f64 :: "f64 \<Rightarrow> int" where
  "int64_of_f64 w =
     (if \<not> is_finite w then - (2 ^ 63)
      else let (n, d) = scale2 (fst (f64_scale w)) 1 (snd (f64_scale w));
               i = (if f64_sign w then - (n div d) else n div d)
           in if - (2 ^ 63) \<le> i \<and> i < 2 ^ 63 then i else - (2 ^ 63))"

text \<open>Decimal digits of a natural number given as an integer, and \<^verbatim>\<open>fmt.Sprintf("%+.6f", v)\<close>.\<close>

function deci :: "int \<Rightarrow> string" where
  "deci n = (if n < 10 then [char_of (48 + nat n)] else deci (n div 10) @ [char_of (48 + nat (n mod 10))])"
  by pat_completeness auto

termination
  by (relation "measure nat") auto

declare deci.simps [simp del]

definition pad6 :: "int \<Rightarrow> string" where
  "pad6 n = (let s = deci n in replicate (6 - length s) (CHR ''0'') @ s)"

definition format_f6 :: "f64 \<Rightarrow> string" where
  "format_f6 w =
     (let s = (if f64_sign w then ''-'' else ''+'') in
      if IsNaN w then ''+NaN''
      else if IsInf w then s @ ''Inf''
      else let (n, d) = scale2 (fst (f64_scale w) * 10 ^ 6) 1 (snd (f64_scale w));
               N = round_half_even n d
           in s @ deci (N div 10 ^ 6) @ ''.'' @ pad6 (N mod 10 ^ 6))"

section \<open>Rounding\<close>

lemma deci_dec: "deci (int n) = dec n"
proof (induction n rule: dec.induct)
  case (1 n)
  have "int n div 10 = int (n div 10)" "int n mod 10 = int (n mod 10)"
    by (simp_all add: zdiv_int zmod_int)
  with 1 show ?case
    by (subst deci.simps, subst dec.simps) simp
qed

lemma round_half_even_exact: "d > 0 \<Longrightarrow> d dvd n \<Longrightarrow> round_half_even n d = n div d"
  by (auto simp: round_half_even_def)

lemma round_half_even_near:
  assumes "d > 0"
  shows "2 * \<bar>round_half_even n d * d - n\<bar> \<le> d"
proof -
  define q r where "q = n div d" and "r = n mod d"
  have n: "n = q * d + r" "0 \<le> r" "r < d"
    using assms by (simp_all add: q_def r_def)
  have "round_half_even n d = q \<and> 2 * r \<le> d \<or> round_half_even n d = q + 1 \<and> d \<le> 2 * r"
    by (auto simp: round_half_even_def Let_def q_def r_def)
  with n show ?thesis
    by (auto simp: algebra_simps)
qed

lemma IsNaN_NaN [simp]: "IsNaN NaN"
  by (simp add: IsNaN_def NaN_def f64_exp_def f64_mant_def)

lemma finite_cases: "is_finite w \<longleftrightarrow> \<not> IsNaN w \<and> \<not> IsInf w"
  by (auto simp: is_finite_def IsNaN_def IsInf_def)

section \<open>Magnitudes\<close>

lemma blen_pos: "0 < n \<Longrightarrow> 1 \<le> blen n \<and> 2 ^ nat (blen n - 1) \<le> n \<and> n < 2 ^ nat (blen n)"
proof (induction n rule: blen.induct)
  case (1 n)
  show ?case
  proof (cases "n = 1")
    case True
    then show ?thesis by (simp add: blen.simps [of 1] blen.simps [of 0])
  next
    case False
    with 1 have IH: "1 \<le> blen (n div 2)" "2 ^ nat (blen (n div 2) - 1) \<le> n div 2" "n div 2 < 2 ^ nat (blen (n div 2))"
      by (simp_all add: pos_imp_zdiv_pos_iff)
    then obtain j where j: "blen (n div 2) = int j + 1"
      by (metis add.commute diff_add_cancel zle_iff_zadd)
    then have b: "blen n = int j + 2"
      using 1 by (simp add: blen.simps [of n])
    have "2 ^ j \<le> n div 2" "n div 2 < 2 ^ Suc j"
      using IH j by (simp_all add: nat_add_distrib)
    then have "2 ^ Suc j \<le> n" "n < 2 ^ Suc (Suc j)"
      by simp_all
    moreover have "nat (blen n) = Suc (Suc j)" "nat (blen n - 1) = Suc j" "1 \<le> blen n"
      using b by simp_all
    ultimately show ?thesis
      by metis
  qed
qed

lemma blen_nonneg: "0 \<le> blen n"
  by (induction n rule: blen.induct) (subst blen.simps, simp)

lemma blen_le: "0 \<le> n \<Longrightarrow> n < 2 ^ k \<Longrightarrow> blen n \<le> int k"
proof (rule ccontr)
  assume n: "0 \<le> n" "n < 2 ^ k" and "\<not> blen n \<le> int k"
  then have "0 < n" "k \<le> nat (blen n - 1)"
    by (auto simp: blen.simps [of n] split: if_splits)
  then have "2 ^ k \<le> n"
    using blen_pos [of n] power_increasing [of k "nat (blen n - 1)" "2 :: int"] by linarith
  with n show False by simp
qed

lemma zdiv_lt_of_lt_mult:
  assumes "x < c * d" "0 < d"
  shows "x div d < (c :: int)"
proof (rule ccontr)
  assume "\<not> x div d < c"
  then have "c * d \<le> x div d * d"
    using assms(2) by (intro mult_right_mono) simp_all
  moreover have "x div d * d \<le> x"
    using assms(2) div_mult_mod_eq [of x d] pos_mod_sign [of d x] by linarith
  ultimately show False
    using assms(1) by simp
qed

lemma scale2_val:
  assumes "scale2 n d e = (a, b)" "0 < d"
  shows "0 < b" "real_of_int a / real_of_int b = real_of_int n / real_of_int d * 2 powi e"
proof -
  show "0 < b"
    using assms by (auto simp: scale2_def split: if_splits)
  show "real_of_int a / real_of_int b = real_of_int n / real_of_int d * 2 powi e"
  proof (cases "0 \<le> e")
    case True
    then have "(2 :: real) powi e = 2 ^ nat e"
      by (simp add: power_int_def)
    with True assms show ?thesis
      by (auto simp: scale2_def)
  next
    case False
    then have "(2 :: real) powi e = inverse (2 ^ nat (- e))"
      by (simp only: power_int_def if_False power_inverse)
    with False assms show ?thesis
      by (auto simp: scale2_def divide_inverse)
  qed
qed

lemma ratio_blen:
  assumes "0 < n" "0 < d"
  shows "real_of_int n / real_of_int d < 2 powi (blen n - blen d + 1)"
proof -
  have "real_of_int n < 2 powi (blen n)"
  proof -
    have "real_of_int n < real_of_int (2 ^ nat (blen n))"
      using blen_pos [OF assms(1)] by (simp only: of_int_less_iff)
    then show ?thesis
      by (simp add: power_int_def blen_nonneg)
  qed
  moreover have "2 powi (blen d - 1) \<le> real_of_int d"
  proof -
    have "real_of_int (2 ^ nat (blen d - 1)) \<le> real_of_int d" "1 \<le> blen d"
      using blen_pos [OF assms(2)] by (simp_all only: of_int_le_iff)
    then show ?thesis
      by (simp add: power_int_def)
  qed
  moreover have "(0 :: real) < 2 powi (blen d - 1)"
    by simp
  ultimately have "real_of_int n / real_of_int d < 2 powi (blen n) / 2 powi (blen d - 1)"
    using assms by (intro frac_less) simp_all
  also have "\<dots> = 2 powi (blen n - blen d + 1)"
    by (simp flip: power_int_diff) (simp add: algebra_simps)
  finally show ?thesis .
qed

text \<open>The rounded mantissa has at most 53 bits, or is the next power of two.\<close>

lemma round_mantissa:
  assumes "0 < n" "0 < d" "scale2 n d (- E) = (n2, d2)" "blen n - blen d - 52 \<le> E + of_bool b"
    "b \<Longrightarrow> real_of_int n / real_of_int d < 2 powi (blen n - blen d)"
  shows "0 \<le> round_half_even n2 d2 \<and> round_half_even n2 d2 \<le> 2 ^ 53"
proof -
  let ?r = "real_of_int n / real_of_int d"
  have d2: "0 < d2" and v: "real_of_int n2 / real_of_int d2 = ?r * 2 powi (- E)"
    using scale2_val [OF assms(3,2)] by auto
  have "?r < 2 powi (E + 53)"
  proof (cases b)
    case True
    then have "?r < 2 powi (blen n - blen d)"
      by (rule assms(5))
    also have "\<dots> \<le> 2 powi (E + 53)"
      using assms(4) True by (intro power_int_increasing) simp_all
    finally show ?thesis .
  next
    case False
    have "?r < 2 powi (blen n - blen d + 1)"
      by (rule ratio_blen [OF assms(1,2)])
    also have "\<dots> \<le> 2 powi (E + 53)"
      using assms(4) False by (intro power_int_increasing) simp_all
    finally show ?thesis .
  qed
  then have "real_of_int n2 / real_of_int d2 < 2 powi (E + 53) * 2 powi (- E)"
    unfolding v by (intro mult_strict_right_mono) simp_all
  also have "\<dots> = 2 ^ 53"
    by (simp flip: power_int_add)
  finally have "real_of_int n2 < real_of_int (2 ^ 53 * d2)"
    using d2 by (simp add: pos_divide_less_eq)
  then have "n2 < 2 ^ 53 * d2"
    by (simp only: of_int_less_iff)
  then have "n2 div d2 < 2 ^ 53"
    using d2 by (intro zdiv_lt_of_lt_mult) simp_all
  moreover have "0 \<le> n2"
    using assms(1,3) by (auto simp: scale2_def split: if_splits)
  then have "0 \<le> n2 div d2"
    using d2 by (simp add: pos_imp_zdiv_nonneg_iff)
  ultimately show ?thesis
    by (auto simp: round_half_even_def Let_def)
qed

lemma pack_fields:
  assumes "0 \<le> x" "x < 2 ^ 63"
  shows "f64_exp (pack s x) = x div 2 ^ 52" "f64_mant (pack s x) = x mod 2 ^ 52" "f64_sign (pack s x) = s"
proof -
  have u: "uint (pack s x) = x + (if s then 2 ^ 63 else 0)"
    using assms unfolding pack_def by (subst uint_word_of_int_eq, subst take_bit_int_eq_self) simp_all
  have "x div 2 ^ 52 < 2 ^ 11"
    using assms(2) by (intro zdiv_lt_of_lt_mult) simp_all
  moreover have "0 \<le> x div 2 ^ 52"
    using assms(1) by (simp add: pos_imp_zdiv_nonneg_iff)
  moreover have "(x + 2 ^ 63) div 2 ^ 52 = x div 2 ^ 52 + 2 ^ 11"
    by (simp add: div_add1_eq)
  ultimately show "f64_exp (pack s x) = x div 2 ^ 52"
    by (simp add: f64_exp_def u)
  show "f64_mant (pack s x) = x mod 2 ^ 52"
    by (simp add: f64_mant_def u mod_add_eq [symmetric])
  show "f64_sign (pack s x) = s"
    using assms by (simp add: f64_sign_def u)
qed

lemma round_frac_bits:
  assumes "0 < n" "0 < d"
  shows "\<exists>E m. - 1074 \<le> E \<and> E \<le> max (blen n - blen d - 52) (- 1074) \<and> 0 \<le> m \<and> m \<le> 2 ^ 53 \<and>
    round_frac s n d =
      (if 2047 * 2 ^ 52 \<le> (E + 1074) * 2 ^ 52 + m then Inf64 s else pack s ((E + 1074) * 2 ^ 52 + m))"
proof -
  define k where "k = blen n - blen d"
  obtain n1 d1 where 1: "scale2 n d (- k) = (n1, d1)"
    by fastforce
  define e where "e = (if n1 < d1 then k - 1 else k)"
  define E where "E = max (e - 52) (- 1074)"
  obtain n2 d2 where 2: "scale2 n d (- E) = (n2, d2)"
    by fastforce
  have "real_of_int n / real_of_int d < 2 powi k" if "n1 < d1"
  proof -
    have "real_of_int n1 / real_of_int d1 < 1"
      using that scale2_val(1) [OF 1 assms(2)] by simp
    then have "real_of_int n / real_of_int d * 2 powi (- k) < 1"
      using scale2_val(2) [OF 1 assms(2)] by simp
    then have "real_of_int n / real_of_int d / 2 powi k < 1"
      by (simp add: power_int_minus divide_inverse)
    then show ?thesis
      by (subst (asm) pos_divide_less_eq) auto
  qed
  then have "0 \<le> round_half_even n2 d2 \<and> round_half_even n2 d2 \<le> 2 ^ 53"
    by (intro round_mantissa [OF assms 2, of "n1 < d1"]) (auto simp: E_def e_def k_def)
  moreover have "- 1074 \<le> E" "E \<le> max (blen n - blen d - 52) (- 1074)"
    by (auto simp: E_def e_def k_def)
  moreover have "round_frac s n d =
      (if 2047 * 2 ^ 52 \<le> (E + 1074) * 2 ^ 52 + round_half_even n2 d2 then Inf64 s
       else pack s ((E + 1074) * 2 ^ 52 + round_half_even n2 d2))"
    using assms(1) by (simp add: round_frac_def k_def [symmetric] 1 e_def [symmetric] E_def [symmetric] 2 Let_def)
  ultimately show ?thesis
    by blast
qed

lemma round_frac_finite:
  assumes "0 \<le> n" "n < 2 ^ 64"
  shows "is_finite (round_frac s n 1)"
proof (cases "n = 0")
  case True
  then show ?thesis
    by (simp add: round_frac_def is_finite_def pack_fields)
next
  case False
  then obtain E m where E: "E \<le> max (blen n - blen 1 - 52) (- 1074)" "- 1074 \<le> E" "0 \<le> m" "m \<le> 2 ^ 53"
    and r: "round_frac s n 1 =
      (if 2047 * 2 ^ 52 \<le> (E + 1074) * 2 ^ 52 + m then Inf64 s else pack s ((E + 1074) * 2 ^ 52 + m))"
    using round_frac_bits [of n 1 s] assms(1) by auto
  have "blen n \<le> 64" "0 \<le> blen (1 :: int)"
    using blen_le [of n 64] assms blen_nonneg by simp_all
  then have "E \<le> 12"
    using E(1) by linarith
  define x where "x = (E + 1074) * 2 ^ 52 + m"
  have "x \<le> 1088 * 2 ^ 52" "0 \<le> x"
    using \<open>E \<le> 12\<close> E(2-4) by (simp_all add: x_def)
  moreover have "x div 2 ^ 52 < 2047"
    using calculation by (intro zdiv_lt_of_lt_mult) simp_all
  moreover have "round_frac s n 1 = pack s x"
    using r calculation(1) by (simp add: x_def)
  ultimately show ?thesis
    by (simp add: is_finite_def pack_fields)
qed

lemma f64_of_int_finite: "\<bar>i\<bar> < 2 ^ 64 \<Longrightarrow> is_finite (f64_of_int i)"
  by (simp add: f64_of_int_def round_frac_finite)

lemma int64_of_zero [simp]: "int64_of_f64 (pack s 0) = 0"
  by (simp add: int64_of_f64_def is_finite_def pack_fields f64_scale_def scale2_def)

lemma f64_mul_zero: "is_finite w \<Longrightarrow> \<exists>s. f64_mul 0 w = pack s 0"
proof -
  assume w: "is_finite w"
  have z: "f64_exp 0 = 0" "f64_mant 0 = 0" "f64_int 0 = 0"
    by (simp_all add: f64_exp_def f64_mant_def f64_int_def f64_scale_def)
  have "round_dyadic s 0 e = pack s 0" for s e
    by (simp add: round_dyadic_def scale2_def round_frac_def)
  with w z show ?thesis
    by (auto simp: f64_mul_def Let_def finite_cases IsNaN_def IsInf_def)
qed

end
