(* ===== verification/Measurements.thy ===== *)
theory Measurements
  imports Float64 Go_Time "HOL-Library.Sublist"
begin

unbundle bit_operations_syntax

text \<open>
  The store of the measurements of command 0x59 (\<^verbatim>\<open>src/internal/store/measurement_store.go\<close>).
  The TCP side puts measurements into a bounded channel and never waits; the goroutine of
  \<^verbatim>\<open>insertLoop\<close> collects them into batches and copies a batch into the table, and the goroutine
  of \<^verbatim>\<open>cleanupLoop\<close> deletes old rows. Each branch of the select of a loop is a function on the
  store, whose field \<open>ms_table\<close> is the table \<^verbatim>\<open>measurements\<close> and whose field \<open>ms_batch\<close> is the
  local variable of the insert loop; whether the database accepts a statement is an argument.
  The second half is the query of the charts: validity masks, averaging in binary64 and
  thinning to a number of points. The counter of dropped measurements, a 64-bit integer that is
  only printed, is a natural number here.
\<close>

section \<open>State\<close>

record Measurement =
  me_DeviceID :: string
  me_MsgNo :: u32
  me_Ts :: time
  me_ReceivedAt :: time
  me_Off1 :: f64
  me_Off2 :: f64
  me_Off3 :: f64
  me_StaticCnt :: u32
  me_Validity :: u32

definition measurementBatchSize :: nat where "measurementBatchSize = 512"
definition measurementQueueSize :: nat where "measurementQueueSize = 2048"

record MeasurementStore =
  ms_retentionDays :: int
  ms_ch :: "Measurement chan"
  ms_quit :: bool
  ms_dropped :: nat
  ms_batch :: "Measurement list"
  ms_inserting :: bool
  ms_cleaning :: bool
  ms_table :: "Measurement list"

definition NewMeasurementStore :: "Measurement list \<Rightarrow> int \<Rightarrow> MeasurementStore" where
  "NewMeasurementStore rows retentionDays =
     \<lparr>ms_retentionDays = (if retentionDays < 1 then 7 else retentionDays),
      ms_ch = make_chan measurementQueueSize, ms_quit = False, ms_dropped = 0,
      ms_batch = [], ms_inserting = False, ms_cleaning = False, ms_table = rows\<rparr>"

section \<open>Methods and loops\<close>

definition Start :: "MeasurementStore \<Rightarrow> MeasurementStore" where
  "Start s = s\<lparr>ms_inserting := True, ms_cleaning := True, ms_batch := []\<rparr>"

definition Enqueue :: "Measurement \<Rightarrow> MeasurementStore \<Rightarrow> MeasurementStore" where
  "Enqueue m s =
     (let (c, ok) = try_send m (ms_ch s) in
      if ok then s\<lparr>ms_ch := c\<rparr> else s\<lparr>ms_dropped := ms_dropped s + 1\<rparr>)"

text \<open>The copy of a batch into the table: all of its rows, or none when the statement fails.\<close>

definition insertBatch :: "bool \<Rightarrow> Measurement list \<Rightarrow> Measurement list \<Rightarrow> bool \<times> Measurement list" where
  "insertBatch ok ms table = (if ok then (True, table @ ms) else (False, table))"

definition flush :: "bool \<Rightarrow> MeasurementStore \<Rightarrow> MeasurementStore" where
  "flush ok s =
     (if ms_batch s = [] then s
      else s\<lparr>ms_table := snd (insertBatch ok (ms_batch s) (ms_table s)), ms_batch := []\<rparr>)"

text \<open>
  The three branches of the insert loop. A branch that cannot be taken (an empty channel, a
  store not asked to stop, a loop that has returned) leaves the store as it is.
\<close>

definition insert_recv :: "bool \<Rightarrow> MeasurementStore \<Rightarrow> MeasurementStore" where
  "insert_recv ok s =
     (case chan_recv (ms_ch s) of
        None \<Rightarrow> s
      | Some (m, c) \<Rightarrow>
          if \<not> ms_inserting s then s
          else let s = s\<lparr>ms_ch := c, ms_batch := ms_batch s @ [m]\<rparr>
               in if length (ms_batch s) \<ge> measurementBatchSize then flush ok s else s)"

definition insert_tick :: "bool \<Rightarrow> MeasurementStore \<Rightarrow> MeasurementStore" where
  "insert_tick ok s = (if ms_inserting s then flush ok s else s)"

definition insert_quit :: "bool \<Rightarrow> MeasurementStore \<Rightarrow> MeasurementStore" where
  "insert_quit ok s =
     (if ms_inserting s \<and> ms_quit s then (flush ok s)\<lparr>ms_inserting := False\<rparr> else s)"

definition cleanup :: "bool \<Rightarrow> time \<Rightarrow> MeasurementStore \<Rightarrow> MeasurementStore" where
  "cleanup ok now s =
     (if \<not> ok then s
      else s\<lparr>ms_table := filter (\<lambda>m. \<not> me_ReceivedAt m < now - ms_retentionDays s * Day) (ms_table s)\<rparr>)"

definition cleanup_tick :: "bool \<Rightarrow> time \<Rightarrow> MeasurementStore \<Rightarrow> MeasurementStore" where
  "cleanup_tick ok now s = (if ms_cleaning s then cleanup ok now s else s)"

definition cleanup_quit :: "MeasurementStore \<Rightarrow> MeasurementStore" where
  "cleanup_quit s = (if ms_quit s then s\<lparr>ms_cleaning := False\<rparr> else s)"

text \<open>\<^verbatim>\<open>Close\<close> up to its wait for the two loops, which then end by their quit branches.\<close>

definition CloseMeasurements :: "MeasurementStore \<Rightarrow> MeasurementStore" where
  "CloseMeasurements s = (if ms_quit s then s else s\<lparr>ms_quit := True\<rparr>)"

section \<open>Points of a chart\<close>

record Point =
  pt_Ts :: int
  pt_ReceivedAt :: int
  pt_Off1 :: "f64 option"
  pt_Off2 :: "f64 option"
  pt_Off3 :: "f64 option"
  pt_Validity :: u32
  pt_N :: nat

record rawPoint =
  rp_ts :: time
  rp_receivedAt :: time
  rp_off1 :: f64
  rp_off2 :: f64
  rp_off3 :: f64
  rp_validity :: u32

definition applyValidity :: "rawPoint \<Rightarrow> rawPoint" where
  "applyValidity p =
     (let p = (if rp_validity p AND 1 = 0 then p\<lparr>rp_off1 := NaN\<rparr> else p);
          p = (if rp_validity p AND 2 = 0 then p\<lparr>rp_off2 := NaN\<rparr> else p)
      in (if rp_validity p AND 4 = 0 then p\<lparr>rp_off3 := NaN\<rparr> else p))"

definition f2p :: "f64 \<Rightarrow> f64 option" where
  "f2p v = (if IsNaN v \<or> IsInf v then None else Some v)"

definition off_field :: "nat \<Rightarrow> rawPoint \<Rightarrow> f64" where
  "off_field idx r = (if idx = 2 then rp_off2 r else if idx = 3 then rp_off3 r else rp_off1 r)"

fun avg_loop :: "nat \<Rightarrow> rawPoint list \<Rightarrow> f64 \<times> int \<Rightarrow> f64 \<times> int" where
  "avg_loop idx [] acc = acc"
| "avg_loop idx (r # rs) (summed, n) =
     (let v = off_field idx r in
      if IsNaN v \<or> IsInf v then avg_loop idx rs (summed, n)
      else avg_loop idx rs (f64_add summed v, n + 1))"

definition avgOff :: "rawPoint list \<Rightarrow> nat \<Rightarrow> f64 option" where
  "avgOff b idx =
     (let (summed, n) = avg_loop idx b (0, 0) in
      if n = 0 then None else Some (f64_div summed (f64_of_int n)))"

definition rawToPoints :: "rawPoint list \<Rightarrow> Point list" where
  "rawToPoints raw =
     map (\<lambda>r. \<lparr>pt_Ts = UnixMilli (rp_ts r), pt_ReceivedAt = UnixMilli (rp_receivedAt r),
               pt_Off1 = f2p (rp_off1 r), pt_Off2 = f2p (rp_off2 r), pt_Off3 = f2p (rp_off3 r),
               pt_Validity = rp_validity r, pt_N = 1\<rparr>) raw"

text \<open>One pass of the bucket loop on a non-empty bucket.\<close>

definition bucket_point :: "rawPoint list \<Rightarrow> Point" where
  "bucket_point b =
     \<lparr>pt_Ts = UnixMilli (rp_ts (hd b)), pt_ReceivedAt = UnixMilli (rp_receivedAt (hd b)),
      pt_Off1 = avgOff b 1, pt_Off2 = avgOff b 2, pt_Off3 = avgOff b 3,
      pt_Validity = foldl (\<lambda>v r. v AND rp_validity r) (- 1) b, pt_N = length b\<rparr>"

text \<open>The loop \<^verbatim>\<open>for i := 0; i < len(raw); i += bucketSize\<close>, over the rest of the slice.\<close>

function buckets :: "nat \<Rightarrow> rawPoint list \<Rightarrow> Point list" where
  "buckets k raw =
     (if raw = [] \<or> k = 0 then [] else bucket_point (take k raw) # buckets k (drop k raw))"
  by pat_completeness auto

termination
  by (relation "measure (\<lambda>(k, raw). length raw)") auto

declare buckets.simps [simp del]

definition downsample :: "rawPoint list \<Rightarrow> int \<Rightarrow> Point list" where
  "downsample raw maxPoints =
     (if raw = [] then []
      else if maxPoints \<le> 0 \<or> int (length raw) \<le> maxPoints then rawToPoints raw
      else buckets (nat ((int (length raw) + maxPoints - 1) div maxPoints)) raw)"

definition raw_of :: "Measurement \<Rightarrow> rawPoint" where
  "raw_of m = \<lparr>rp_ts = me_Ts m, rp_receivedAt = me_ReceivedAt m, rp_off1 = me_Off1 m, rp_off2 = me_Off2 m,
               rp_off3 = me_Off3 m, rp_validity = me_Validity m\<rparr>"

text \<open>The query: \<^verbatim>\<open>None\<close> when the database fails. Rows of equal time come in the order of the table.\<close>

definition QueryRange ::
  "bool \<Rightarrow> string \<Rightarrow> time \<Rightarrow> time \<Rightarrow> int \<Rightarrow> Measurement list \<Rightarrow> Point list option" where
  "QueryRange ok deviceID tfrom tto maxPoints table =
     (if \<not> ok then None
      else let rows = sort_key me_ReceivedAt
                        (filter (\<lambda>m. me_DeviceID m = deviceID \<and> tfrom \<le> me_ReceivedAt m \<and> me_ReceivedAt m \<le> tto) table)
           in Some (downsample (map (\<lambda>m. applyValidity (raw_of m)) rows) maxPoints))"

section \<open>The flow of measurements\<close>

text \<open>
  What can happen to a store: a connection enqueues, a loop takes one of its branches, the store
  is closed. The flag of an event is the outcome of its statement.
\<close>

datatype ms_event =
    EvEnqueue Measurement
  | EvRecv bool
  | EvTick bool
  | EvQuit bool
  | EvCleanup bool time
  | EvCleanupQuit
  | EvClose_ms

fun ms_exec :: "ms_event \<Rightarrow> MeasurementStore \<Rightarrow> MeasurementStore" where
  "ms_exec (EvEnqueue m) s = Enqueue m s"
| "ms_exec (EvRecv ok) s = insert_recv ok s"
| "ms_exec (EvTick ok) s = insert_tick ok s"
| "ms_exec (EvQuit ok) s = insert_quit ok s"
| "ms_exec (EvCleanup ok now) s = cleanup_tick ok now s"
| "ms_exec EvCleanupQuit s = cleanup_quit s"
| "ms_exec EvClose_ms s = CloseMeasurements s"

fun enqueued :: "ms_event list \<Rightarrow> Measurement list" where
  "enqueued [] = []"
| "enqueued (EvEnqueue m # evs) = m # enqueued evs"
| "enqueued (ev # evs) = enqueued evs"

text \<open>No statement of the event fails, and it is not the deletion of old rows.\<close>

fun gentle :: "ms_event \<Rightarrow> bool" where
  "gentle (EvRecv ok) = ok"
| "gentle (EvTick ok) = ok"
| "gentle (EvQuit ok) = ok"
| "gentle (EvCleanup ok now) = False"
| "gentle _ = True"

text \<open>Rows stored, rows of the current batch, and measurements still queued, oldest first.\<close>

definition flow :: "MeasurementStore \<Rightarrow> Measurement list" where
  "flow s = ms_table s @ ms_batch s @ ch_buf (ms_ch s)"

definition ms_inv :: "MeasurementStore \<Rightarrow> bool" where
  "ms_inv s \<longleftrightarrow> ch_cap (ms_ch s) = measurementQueueSize \<and> length (ch_buf (ms_ch s)) \<le> measurementQueueSize
     \<and> length (ms_batch s) < measurementBatchSize \<and> 1 \<le> ms_retentionDays s"

lemma ms_inv_New: "ms_inv (NewMeasurementStore rows n)" "ms_inv s \<Longrightarrow> ms_inv (Start s)"
  by (simp_all add: ms_inv_def NewMeasurementStore_def make_chan_def measurementBatchSize_def Start_def)

lemma flush_simps [simp]:
  "ms_ch (flush ok s) = ms_ch s" "ms_batch (flush ok s) = []" "ms_dropped (flush ok s) = ms_dropped s"
  "ms_retentionDays (flush ok s) = ms_retentionDays s" "ms_quit (flush ok s) = ms_quit s"
  "ms_table (flush ok s) = (if ok then ms_table s @ ms_batch s else ms_table s)"
  by (simp_all add: flush_def insertBatch_def)

lemmas ms_ops = insert_tick_def insert_quit_def cleanup_tick_def cleanup_quit_def cleanup_def CloseMeasurements_def

lemma insert_recv_cases:
  obtains (idle) "insert_recv ok s = s"
  | (batch) m ms where "ch_buf (ms_ch s) = m # ms" "length (ms_batch s) + 1 < measurementBatchSize"
      "insert_recv ok s = s\<lparr>ms_ch := (ms_ch s)\<lparr>ch_buf := ms\<rparr>, ms_batch := ms_batch s @ [m]\<rparr>"
  | (full) m ms where "ch_buf (ms_ch s) = m # ms"
      "insert_recv ok s = flush ok (s\<lparr>ms_ch := (ms_ch s)\<lparr>ch_buf := ms\<rparr>, ms_batch := ms_batch s @ [m]\<rparr>)"
proof (cases "ms_inserting s \<and> ch_buf (ms_ch s) \<noteq> []")
  case True
  then obtain m ms where "ch_buf (ms_ch s) = m # ms"
    by (cases "ch_buf (ms_ch s)") auto
  then show ?thesis
    using True batch [of m ms] full [of m ms]
    by (cases "length (ms_batch s) + 1 < measurementBatchSize")
      (auto simp: insert_recv_def chan_recv_def Let_def not_less)
next
  case False
  then show ?thesis
    by (intro idle) (auto simp: insert_recv_def chan_recv_def split: list.splits)
qed

lemma ms_exec_inv: "ms_inv s \<Longrightarrow> ms_inv (ms_exec ev s)"
proof (cases ev)
  case (EvRecv ok)
  assume "ms_inv s"
  then show ?thesis
    by (cases rule: insert_recv_cases [of ok s])
      (auto simp: EvRecv ms_inv_def measurementBatchSize_def)
qed (auto simp: ms_inv_def Enqueue_def try_send_def ms_ops measurementBatchSize_def split: if_splits)

lemma ms_exec_flow:
  assumes "gentle ev" "ms_inv s"
  shows "flow (ms_exec ev s) = flow s @ (if length (ch_buf (ms_ch s)) < measurementQueueSize then enqueued [ev] else [])
     \<and> ms_dropped (ms_exec ev s) + length (flow (ms_exec ev s)) = ms_dropped s + length (flow s) + length (enqueued [ev])"
proof (cases ev)
  case (EvRecv ok)
  with assms(1) show ?thesis
    by (cases rule: insert_recv_cases [of ok s]) (auto simp: flow_def)
next
  case (EvEnqueue m)
  with assms(2) show ?thesis
    by (auto simp: ms_inv_def Enqueue_def try_send_def flow_def)
qed (use assms in \<open>auto simp: ms_ops flow_def\<close>)

lemma subseq_skip: "subseq (as @ cs) (as @ bs @ cs)"
  by (intro list_emb_append_mono) auto

lemma ms_exec_subseq:
  "subseq (flow (ms_exec ev s)) (flow s @ enqueued [ev])"
proof (cases ev)
  case (EvRecv ok)
  then show ?thesis
    using subseq_skip [of "ms_table s" "tl (ch_buf (ms_ch s))" "ms_batch s @ [hd (ch_buf (ms_ch s))]"]
    by (cases rule: insert_recv_cases [of ok s]) (auto simp: flow_def)
next
  case (EvCleanup ok now)
  then show ?thesis
    by (auto simp: flow_def ms_ops intro!: list_emb_append_mono)
qed (auto simp: flow_def ms_ops Enqueue_def try_send_def subseq_skip)

lemma enqueued_Cons: "enqueued (ev # evs) = enqueued [ev] @ enqueued evs"
  by (cases ev) simp_all

lemma ms_run_subseq: "subseq (flow (fold ms_exec evs s)) (flow s @ enqueued evs)"
proof (induction evs arbitrary: s)
  case (Cons ev evs)
  have "subseq (flow (fold ms_exec (ev # evs) s)) (flow (ms_exec ev s) @ enqueued evs)"
    using Cons by simp
  also have "subseq \<dots> ((flow s @ enqueued [ev]) @ enqueued evs)"
    by (intro list_emb_append_mono ms_exec_subseq subseq_order.order_refl)
  finally show ?case
    by (simp add: enqueued_Cons [of ev evs])
qed simp

lemma ms_run_inv: "ms_inv s \<Longrightarrow> ms_inv (fold ms_exec evs s)"
  by (induction evs arbitrary: s) (auto intro: ms_exec_inv)

lemma ms_run_flow:
  assumes "list_all gentle evs" "ms_inv s"
  shows "\<exists>acc. flow (fold ms_exec evs s) = flow s @ acc \<and>
    ms_dropped (fold ms_exec evs s) + length (flow (fold ms_exec evs s))
      = ms_dropped s + length (flow s) + length (enqueued evs)"
  using assms
proof (induction evs arbitrary: s)
  case (Cons ev evs)
  then have "gentle ev" "list_all gentle evs" "ms_inv (ms_exec ev s)"
    by (simp_all add: ms_exec_inv)
  note ev = ms_exec_flow [OF \<open>gentle ev\<close> Cons.prems(2)]
  from Cons.IH [OF \<open>list_all gentle evs\<close> \<open>ms_inv (ms_exec ev s)\<close>] obtain acc
    where acc: "flow (fold ms_exec (ev # evs) s) = flow (ms_exec ev s) @ acc"
      "ms_dropped (fold ms_exec (ev # evs) s) + length (flow (fold ms_exec (ev # evs) s))
        = ms_dropped (ms_exec ev s) + length (flow (ms_exec ev s)) + length (enqueued evs)"
    by auto
  have "\<exists>acc. flow (fold ms_exec (ev # evs) s) = flow s @ acc"
    unfolding acc(1) ev [THEN conjunct1] by simp
  moreover have "length (enqueued (ev # evs)) = length (enqueued [ev]) + length (enqueued evs)"
    by (subst enqueued_Cons) simp
  ultimately show ?case
    using acc(2) ev by auto
qed simp

section \<open>Buckets\<close>

lemma length_buckets: "0 < k \<Longrightarrow> length (buckets k raw) = (length raw + k - 1) div k"
proof (induction k raw rule: buckets.induct)
  case (1 k raw)
  show ?case
  proof (cases "raw = []")
    case True
    with 1(2) show ?thesis by (subst buckets.simps) (simp add: div_eq_0_iff)
  next
    case False
    then have "length raw + k - 1 = (length raw - 1) + k"
      by (cases raw) auto
    moreover have "((length raw - 1) + k) div k = (length raw - 1) div k + 1"
      using 1(2) by (intro div_add_self2) simp
    ultimately have "(length raw + k - 1) div k = Suc ((length raw - 1) div k)"
      by (simp only: Suc_eq_plus1)
    moreover have "(length raw - 1) div k = (length raw - k + k - 1) div k"
    proof (cases "k \<le> length raw")
      case False
      with 1(2) have "(length raw - 1) div k = 0" "(length raw - k + k - 1) div k = 0"
        by (simp_all add: div_eq_0_iff)
      then show ?thesis
        by simp
    next
      case True
      then have "length raw - k + k - 1 = length raw - 1"
        by simp
      then show ?thesis
        by (simp only:)
    qed
    moreover have "length (buckets k raw) = Suc (length (buckets k (drop k raw)))"
      using False 1(2) by (subst buckets.simps) simp
    moreover have "length (buckets k (drop k raw)) = (length raw - k + k - 1) div k"
      using 1(1) False 1(2) by simp
    ultimately show ?thesis
      by simp
  qed
qed

lemma bucket_count:
  assumes "0 < mx" "mx < L"
  shows "(L + (L + mx - 1) div mx - 1) div ((L + mx - 1) div mx) \<le> (mx :: nat)"
proof -
  define k where "k = (L + mx - 1) div mx"
  have "k * mx + (L + mx - 1) mod mx = L + mx - 1"
    by (simp add: k_def)
  moreover have "(L + mx - 1) mod mx < mx"
    using assms(1) by (rule mod_less_divisor)
  ultimately have "L \<le> mx * k"
    using assms(1) unfolding mult.commute [of mx] by linarith
  moreover from this have "0 < k"
    using assms by (cases k) auto
  ultimately have "(L + k - 1) div k \<le> ((k - 1) + mx * k) div k"
    by (intro div_le_mono) simp
  also have "\<dots> = mx + (k - 1) div k"
    using \<open>0 < k\<close> by (intro div_mult_self1) simp
  also have "\<dots> = mx"
    using \<open>0 < k\<close> by (simp add: div_eq_0_iff)
  finally show ?thesis
    by (simp add: k_def)
qed

lemma sum_buckets: "0 < k \<Longrightarrow> sum_list (map pt_N (buckets k raw)) = length raw"
proof (induction k raw rule: buckets.induct)
  case (1 k raw)
  then show ?case
    by (subst buckets.simps) (auto simp: bucket_point_def)
qed

text \<open>Every point is made of a non-empty run of raw points.\<close>

lemma buckets_from:
  assumes "p \<in> set (buckets k raw)"
  obtains b where "p = bucket_point b" "b \<noteq> []" "set b \<subseteq> set raw"
proof -
  have "\<exists>b. p = bucket_point b \<and> b \<noteq> [] \<and> set b \<subseteq> set raw"
    using assms
  proof (induction k raw rule: buckets.induct)
    case (1 k raw)
    from 1(2) have ne: "\<not> (raw = [] \<or> k = 0)"
      by (subst (asm) buckets.simps) (auto split: if_splits)
    from 1(2) ne have "p = bucket_point (take k raw) \<or> p \<in> set (buckets k (drop k raw))"
      by (subst (asm) buckets.simps) auto
    then show ?case
    proof
      assume "p = bucket_point (take k raw)"
      with ne show ?thesis
        by (intro exI [of _ "take k raw"]) (auto dest: in_set_takeD)
    next
      assume "p \<in> set (buckets k (drop k raw))"
      with 1(1) [OF ne] show ?thesis
        by (meson order_trans set_drop_subset)
    qed
  qed
  with that show thesis
    by blast
qed

lemma UnixMilli_mono: "t \<le> u \<Longrightarrow> UnixMilli t \<le> UnixMilli u"
  by (simp add: UnixMilli_def Millisecond_def zdiv_mono1)

lemma sorted_buckets:
  "sorted (map rp_receivedAt raw) \<Longrightarrow> sorted (map pt_ReceivedAt (buckets k raw))"
proof (induction k raw rule: buckets.induct)
  case (1 k raw)
  show ?case
  proof (cases "raw = [] \<or> k = 0")
    case False
    have d: "sorted (map rp_receivedAt (drop k raw))"
      using 1(2) by (simp add: sorted_wrt_drop flip: drop_map)
    have "UnixMilli (rp_receivedAt (hd raw)) \<le> pt_ReceivedAt p" if p: "p \<in> set (buckets k (drop k raw))" for p
    proof -
      obtain b where "p = bucket_point b" "b \<noteq> []" "set b \<subseteq> set (drop k raw)"
        using p by (rule buckets_from)
      then have b: "p = bucket_point b" "b \<noteq> []" "set b \<subseteq> set raw"
        by (auto dest: in_set_dropD)
      then have "rp_receivedAt (hd raw) \<le> rp_receivedAt (hd b)"
        using 1(2) False subsetD [OF b(3) hd_in_set [OF b(2)]] by (cases raw) auto
      with b(1) show ?thesis
        by (simp add: bucket_point_def UnixMilli_mono)
    qed
    then show ?thesis
      using 1(1) [OF False d] False by (subst buckets.simps) (auto simp: bucket_point_def)
  qed (simp add: buckets.simps)
qed

text \<open>A point shows a value only when one of its samples has a finite one.\<close>

lemma avg_loop_count: "snd (avg_loop idx b (a, n)) \<noteq> n \<Longrightarrow> \<exists>r \<in> set b. is_finite (off_field idx r)"
  by (induction idx b "(a, n)" arbitrary: a n rule: avg_loop.induct) (auto simp: Let_def finite_cases split: if_splits)

lemma avgOff_from: "avgOff b idx \<noteq> None \<Longrightarrow> \<exists>r \<in> set b. is_finite (off_field idx r)"
  using avg_loop_count [of idx b 0 0] by (auto simp: avgOff_def split: prod.splits if_splits)

section \<open>Properties of the measurement store\<close>


definition sample_at :: "time \<Rightarrow> u32 \<Rightarrow> Measurement" where
  "sample_at t v = \<lparr>me_DeviceID = ''A'', me_MsgNo = 1, me_Ts = t, me_ReceivedAt = t, me_Off1 = 0x3FF0000000000000,
     me_Off2 = 0x4000000000000000, me_Off3 = 0, me_StaticCnt = 0, me_Validity = v\<rparr>"


lemma QueryRange_facts:
  assumes "QueryRange True did t0 t1 maxPoints table = Some ps" and "0 < maxPoints"
  shows "sum_list (map pt_N ps)
      = length (filter (\<lambda>m. me_DeviceID m = did \<and> t0 \<le> me_ReceivedAt m \<and> me_ReceivedAt m \<le> t1) table)
    \<and> int (length ps) \<le> maxPoints \<and> sorted (map pt_ReceivedAt ps)
    \<and> (\<forall>p \<in> set ps. 1 \<le> pt_N p \<and> (pt_Off1 p \<noteq> None \<longrightarrow>
         (\<exists>m \<in> set table. me_DeviceID m = did \<and> t0 \<le> me_ReceivedAt m \<and> me_ReceivedAt m \<le> t1 \<and>
            me_Validity m AND 1 \<noteq> 0 \<and> is_finite (me_Off1 m))))"
proof -
  define rows where "rows = sort_key me_ReceivedAt
    (filter (\<lambda>m. me_DeviceID m = did \<and> t0 \<le> me_ReceivedAt m \<and> me_ReceivedAt m \<le> t1) table)"
  define raw where "raw = map (\<lambda>m. applyValidity (raw_of m)) rows"
  have "rp_receivedAt (applyValidity (raw_of m)) = me_ReceivedAt m" for m
    by (simp add: applyValidity_def raw_of_def Let_def)
  then have sorted: "sorted (map rp_receivedAt raw)"
    by (simp add: raw_def rows_def comp_def)
  have valid: "\<exists>m \<in> set table. me_DeviceID m = did \<and> t0 \<le> me_ReceivedAt m \<and> me_ReceivedAt m \<le> t1 \<and>
      me_Validity m AND 1 \<noteq> 0 \<and> is_finite (me_Off1 m)" if "r \<in> set raw" "is_finite (rp_off1 r)" for r
  proof -
    from that(1) obtain m where "m \<in> set rows" "r = applyValidity (raw_of m)"
      by (auto simp: raw_def)
    moreover from this that(2) have "me_Validity m AND 1 \<noteq> 0 \<and> is_finite (me_Off1 m)"
      by (auto simp: applyValidity_def raw_of_def Let_def finite_cases split: if_splits)
    ultimately show ?thesis
      by (auto simp: rows_def)
  qed
  have ps: "ps = downsample raw maxPoints"
    using assms(1) by (simp add: QueryRange_def rows_def raw_def)
  have len: "length raw = length (filter (\<lambda>m. me_DeviceID m = did \<and> t0 \<le> me_ReceivedAt m \<and> me_ReceivedAt m \<le> t1) table)"
    by (simp add: raw_def rows_def)
  consider "raw = []" | "raw \<noteq> []" "int (length raw) \<le> maxPoints" | "maxPoints < int (length raw)"
    by force
  then show ?thesis
  proof cases
    case 1
    then show ?thesis
      using ps assms(2) len by (simp add: downsample_def)
  next
    case 2
    have ps: "ps = rawToPoints raw"
      using 2 ps by (simp add: downsample_def)
    have "sorted (map pt_ReceivedAt ps)"
      using sorted by (auto simp: ps rawToPoints_def sorted_wrt_map comp_def elim!: sorted_wrt_mono_rel [rotated] intro: UnixMilli_mono)
    moreover have "1 \<le> pt_N p \<and> (pt_Off1 p \<noteq> None \<longrightarrow> (\<exists>r \<in> set raw. is_finite (rp_off1 r)))" if "p \<in> set ps" for p
      using that by (auto simp: ps rawToPoints_def f2p_def finite_cases split: if_splits)
    moreover have "sum_list (map pt_N ps) = length raw" "length ps = length raw"
      by (simp_all add: ps rawToPoints_def comp_def sum_list_triv)
    ultimately show ?thesis
      using 2(2) valid len by metis
  next
    case 3
    define k where "k = nat ((int (length raw) + maxPoints - 1) div maxPoints)"
    have k: "k = (length raw + nat maxPoints - 1) div nat maxPoints"
      using assms(2) 3 by (simp add: k_def nat_div_distrib nat_add_distrib nat_diff_distrib)
    have "0 < k"
      using assms(2) 3 by (cases "raw = []") (simp_all add: k_def pos_imp_zdiv_pos_iff)
    have bs: "ps = buckets k raw"
      using ps 3 assms(2) by (auto simp: downsample_def k_def)
    have "length ps \<le> nat maxPoints"
      using bucket_count [of "nat maxPoints" "length raw"] assms(2) 3 \<open>0 < k\<close>
      by (simp add: bs length_buckets k)
    moreover have "1 \<le> pt_N p \<and> (pt_Off1 p \<noteq> None \<longrightarrow> (\<exists>r \<in> set raw. is_finite (rp_off1 r)))" if "p \<in> set ps" for p
      using that unfolding bs
      by (rule buckets_from) (use avgOff_from [of _ 1] in \<open>fastforce simp: bucket_point_def off_field_def Suc_le_eq\<close>)
    ultimately show ?thesis
      using valid sorted_buckets [OF sorted] sum_buckets [OF \<open>0 < k\<close>] assms(2) len by (auto simp: bs)
  qed
qed

text \<open>
  C38: The points of a chart, for a limit of points, account for every stored measurement of the device in the
  interval exactly once, are at most as many as the limit, and come in the order of reception;
  a value is shown only when one of the samples of its point has that slot marked valid and finite.
\<close>

theorem QueryRange_points:
  assumes "QueryRange True did t0 t1 maxPoints table = Some ps" and "0 < maxPoints"
  shows "sum_list (map pt_N ps)
      = length (filter (\<lambda>m. me_DeviceID m = did \<and> t0 \<le> me_ReceivedAt m \<and> me_ReceivedAt m \<le> t1) table)
    \<and> int (length ps) \<le> maxPoints \<and> sorted (map pt_ReceivedAt ps)
    \<and> (\<forall>p \<in> set ps. 1 \<le> pt_N p \<and> (pt_Off1 p \<noteq> None \<longrightarrow>
         (\<exists>m \<in> set table. me_DeviceID m = did \<and> t0 \<le> me_ReceivedAt m \<and> me_ReceivedAt m \<le> t1 \<and>
            me_Validity m AND 1 \<noteq> 0 \<and> is_finite (me_Off1 m))))"
  using QueryRange_facts [OF assms] .

theorem QueryRange_points_witness:
  "\<exists>ps. QueryRange True ''A'' 0 10 2 [sample_at 3 7, sample_at 1 6, sample_at 2 7, sample_at 50 7] = Some ps \<and>
     sum_list (map pt_N ps) = 3 \<and> int (length ps) \<le> 2"
proof -
  let ?t = "[sample_at 3 7, sample_at 1 6, sample_at 2 7, sample_at 50 7]"
  obtain ps where "QueryRange True ''A'' 0 10 2 ?t = Some ps"
    by (simp add: QueryRange_def)
  then show ?thesis
    using QueryRange_points [of "''A''" 0 10 2 ?t ps] by (simp add: sample_at_def)
qed

section \<open>The end of the store\<close>

text \<open>
  The stop of the insert loop writes its batch but not what is still queued: a measurement put into the queue
  just before the store is closed does not reach the table when the loop takes the stop first.
\<close>

lemma close_loses_queue:
  assumes "ms_inserting s" and "\<not> ms_quit s"
  shows "ms_table (insert_quit True (CloseMeasurements (Enqueue m s))) = ms_table s @ ms_batch s"
    and "\<not> ms_inserting (insert_quit True (CloseMeasurements (Enqueue m s)))"
  using assms by (auto simp: insert_quit_def CloseMeasurements_def Enqueue_def flush_def insertBatch_def split: prod.split)

end
