(* ===== verification/Ntp.thy ===== *)
theory Ntp
  imports Float64 Go_Time "HOL-Library.Multiset"
begin

text \<open>
  The clock disciplined by NTP (\<^verbatim>\<open>src/internal/ntp/ntp.go\<close>). The answers of the servers of one
  round, offsets or errors, are the argument of \<open>sync\<close>; a time is its number of nanoseconds,
  so the monotonic and the wall reading of one instant are the same number. The background
  goroutine, \<open>clock_loop\<close>, calls \<open>sync\<close> at its start and then at every tick until the clock is
  stopped. What the NTP package returns to one query is the argument of \<open>queryNTP\<close>.
\<close>

section \<open>Model\<close>

record clock_state =
  st_offset :: duration
  st_slope :: f64
  st_ref :: time

record ntp_sample =
  smp_at :: time
  smp_off :: duration

definition maxSamples :: nat where "maxSamples = 8"

record Clock =
  servers :: "string list"
  interval :: duration
  timeout :: duration
  clk_st :: "clock_state option"
  samples :: "ntp_sample list"
  clk_quit :: bool

definition NewClock :: "string list \<Rightarrow> duration \<Rightarrow> duration \<Rightarrow> Clock" where
  "NewClock srvs ival tmo =
     \<lparr>servers = (if srvs = [] then [''ntp1.vniiftri.ru'', ''ntp2.vniiftri.ru'', ''ntp3.vniiftri.ru'',
          ''ntp4.vniiftri.ru'', ''ntp21.vniiftri.ru''] else srvs),
      interval = (if ival \<le> 0 then Minute else ival),
      timeout = (if tmo \<le> 0 then 3 * Second else tmo),
      clk_st = None, samples = [], clk_quit = False\<rparr>"

text \<open>\<^verbatim>\<open>Duration.Seconds\<close>: whole seconds plus the rest over \<open>10^9\<close>, both of the sign of the duration.\<close>

definition Seconds :: "duration \<Rightarrow> f64" where
  "Seconds d =
     (let q = (if d < 0 then - (- d div Second) else d div Second); r = d - q * Second
      in f64_add (f64_of_int q) (f64_div (f64_of_int r) (f64_of_int Second)))"

text \<open>The sums of the loop of \<^verbatim>\<open>fit\<close>.\<close>

fun fit_sums :: "time \<Rightarrow> ntp_sample list \<Rightarrow> f64 \<times> f64 \<times> f64 \<times> f64 \<Rightarrow> f64 \<times> f64 \<times> f64 \<times> f64" where
  "fit_sums ref [] acc = acc"
| "fit_sums ref (s # ss) (sx, sy, sxx, sxy) =
     (let x = Seconds (time_Sub (smp_at s) ref); y = Seconds (smp_off s)
      in fit_sums ref ss (f64_add sx x, f64_add sy y, f64_add sxx (f64_mul x x), f64_add sxy (f64_mul x y)))"

definition fit :: "ntp_sample list \<Rightarrow> duration \<times> f64" where
  "fit ss =
     (if ss = [] then (0, 0)
      else if length ss < 2 then (smp_off (last ss), 0)
      else let ref = smp_at (last ss);
               n = f64_of_int (int (length ss));
               (sx, sy, sxx, sxy) = fit_sums ref ss (0, 0, 0, 0);
               denom = f64_sub (f64_mul n sxx) (f64_mul sx sx);
               slope = (if \<not> f64_is_zero denom
                        then f64_div (f64_sub (f64_mul n sxy) (f64_mul sx sy)) denom else 0);
               intercept = f64_div (f64_sub sy (f64_mul slope sx)) n
           in (int64_of_f64 (f64_mul intercept (f64_of_int Second)), slope))"

definition addSample :: "ntp_sample \<Rightarrow> Clock \<Rightarrow> Clock" where
  "addSample s c =
     (let ss = samples c @ [s];
          ss = (if length ss > maxSamples then tl ss else ss);
          (off, slope) = fit ss
      in c\<lparr>samples := ss, clk_st := Some \<lparr>st_offset = off, st_slope = slope, st_ref = smp_at (last ss)\<rparr>\<rparr>)"

text \<open>The offsets of the servers that answered, sorted; the middle one is taken.\<close>

definition median :: "duration list \<Rightarrow> duration" where
  "median offs = sort offs ! (length offs div 2)"

definition clock_sync :: "time \<Rightarrow> duration option list \<Rightarrow> Clock \<Rightarrow> Clock" where
  "clock_sync now answers c =
     (let offs = List.map_filter id answers in
      if offs = [] then c else addSample \<lparr>smp_at = now, smp_off = median offs\<rparr> c)"

text \<open>One query: no response, or a response that is valid or not, with its offset.\<close>

definition queryNTP :: "(bool \<times> duration) option \<Rightarrow> duration option" where
  "queryNTP resp =
     (case resp of
        None \<Rightarrow> None
      | Some (valid, offset) \<Rightarrow> if \<not> valid then None else Some offset)"

text \<open>What the \<open>select\<close> of the background goroutine receives: a tick, with the answers of its round, or the stop.\<close>

datatype clock_event = ClockTick time "duration option list" | ClockQuit

fun clock_ticks :: "clock_event list \<Rightarrow> Clock \<Rightarrow> Clock" where
  "clock_ticks [] c = c"
| "clock_ticks (ClockTick now answers # es) c = clock_ticks es (clock_sync now answers c)"
| "clock_ticks (ClockQuit # es) c = c"

definition clock_loop :: "time \<Rightarrow> duration option list \<Rightarrow> clock_event list \<Rightarrow> Clock \<Rightarrow> Clock" where
  "clock_loop now answers es c = clock_ticks es (clock_sync now answers c)"

text \<open>\<^verbatim>\<open>Stop\<close> may be called again: it closes the channel only once.\<close>

definition StopClock :: "Clock \<Rightarrow> Clock" where
  "StopClock c = (if clk_quit c then c else c\<lparr>clk_quit := True\<rparr>)"

text \<open>A sum of durations wraps at 64 bits.\<close>

definition dur_add :: "duration \<Rightarrow> duration \<Rightarrow> duration" where
  "dur_add a b = (a + b + 2 ^ 63) mod 2 ^ 64 - 2 ^ 63"

definition Correct :: "Clock \<Rightarrow> time \<Rightarrow> time" where
  "Correct c t =
     (case clk_st c of
        None \<Rightarrow> t
      | Some st \<Rightarrow>
          t + dur_add (st_offset st)
                (int64_of_f64 (f64_mul (st_slope st) (f64_of_int (time_Sub t (st_ref st))))))"

definition Now :: "Clock \<Rightarrow> time \<Rightarrow> time" where
  "Now c now = Correct c now"

section \<open>The window of samples\<close>

definition clock_inv :: "Clock \<Rightarrow> bool" where
  "clock_inv c \<longleftrightarrow>
     length (samples c) \<le> maxSamples \<and>
     (clk_st c = None \<longleftrightarrow> samples c = []) \<and>
     (case clk_st c of None \<Rightarrow> True
      | Some st \<Rightarrow> st_ref st = smp_at (last (samples c)) \<and> (st_offset st, st_slope st) = fit (samples c))"

lemma clock_inv_New: "clock_inv (NewClock s i t)"
  by (simp add: clock_inv_def NewClock_def)

lemma addSample_samples:
  "samples (addSample s c) =
     (if length (samples c) < maxSamples then samples c @ [s] else tl (samples c) @ [s])"
  by (cases "samples c") (auto simp: addSample_def Let_def maxSamples_def split: prod.split)

lemma addSample_inv:
  assumes "clock_inv c"
  shows "clock_inv (addSample s c)"
proof -
  have "samples (addSample s c) \<noteq> []"
    by (simp add: addSample_samples)
  moreover have "length (samples (addSample s c)) \<le> maxSamples"
    using assms by (auto simp: addSample_samples clock_inv_def maxSamples_def)
  moreover have "clk_st (addSample s c) = Some \<lparr>st_offset = fst (fit (samples (addSample s c))),
      st_slope = snd (fit (samples (addSample s c))), st_ref = smp_at (last (samples (addSample s c)))\<rparr>"
    by (simp add: addSample_def Let_def split: prod.split)
  ultimately show ?thesis
    by (simp add: clock_inv_def)
qed

lemma clock_sync_inv: "clock_inv c \<Longrightarrow> clock_inv (clock_sync now answers c)"
  by (simp add: clock_sync_def Let_def addSample_inv)

fun sync_rounds :: "(time \<times> duration option list) list \<Rightarrow> Clock \<Rightarrow> Clock" where
  "sync_rounds [] c = c"
| "sync_rounds ((now, answers) # rs) c = sync_rounds rs (clock_sync now answers c)"

text \<open>The rounds of the goroutine until it receives the stop.\<close>

fun rounds_of :: "clock_event list \<Rightarrow> (time \<times> duration option list) list" where
  "rounds_of [] = []"
| "rounds_of (ClockTick now answers # es) = (now, answers) # rounds_of es"
| "rounds_of (ClockQuit # es) = []"

lemma clock_ticks_rounds: "clock_ticks es c = sync_rounds (rounds_of es) c"
  by (induction es c rule: clock_ticks.induct) simp_all

lemma clock_loop_rounds: "clock_loop now answers es c = sync_rounds ((now, answers) # rounds_of es) c"
  by (simp add: clock_loop_def clock_ticks_rounds)

lemma sync_rounds_inv: "clock_inv c \<Longrightarrow> clock_inv (sync_rounds rs c)"
  by (induction rs c rule: sync_rounds.induct) (simp_all add: clock_sync_inv)

text \<open>The samples of the rounds in which a server answered.\<close>

fun successes :: "(time \<times> duration option list) list \<Rightarrow> ntp_sample list" where
  "successes [] = []"
| "successes ((now, answers) # rs) =
     (let offs = List.map_filter id answers in
      (if offs = [] then [] else [\<lparr>smp_at = now, smp_off = median offs\<rparr>]) @ successes rs)"

lemma addSample_last_n:
  "samples c = last_n maxSamples xs \<Longrightarrow> samples (addSample s c) = last_n maxSamples (xs @ [s])"
proof (cases "length xs < maxSamples")
  case False
  then have "Suc (length xs - 8) = length xs - 7"
    by (simp add: maxSamples_def)
  then have "tl (drop (length xs - 8) xs) = drop (length xs - 7) xs"
    by (metis drop_Suc tl_drop)
  moreover assume "samples c = last_n maxSamples xs"
  ultimately show ?thesis
    using False by (simp add: addSample_samples last_n_def maxSamples_def)
qed (simp add: addSample_samples last_n_def maxSamples_def)

lemma sync_rounds_samples:
  "samples c = last_n maxSamples xs \<Longrightarrow> samples (sync_rounds rs c) = last_n maxSamples (xs @ successes rs)"
proof (induction rs c arbitrary: xs rule: sync_rounds.induct)
  case (2 now answers rs c)
  show ?case
  proof (cases "List.map_filter id answers = []")
    case True
    with 2 show ?thesis by (simp add: clock_sync_def)
  next
    case False
    let ?s = "\<lparr>smp_at = now, smp_off = median (List.map_filter id answers)\<rparr>"
    have "samples (clock_sync now answers c) = last_n maxSamples (xs @ [?s])"
      using False 2(2) by (simp add: clock_sync_def addSample_last_n)
    from 2(1) [OF this] False show ?thesis
      by simp
  qed
qed simp

section \<open>Properties of the clock\<close>

text \<open>
  C36: The offset taken in a round cannot be moved out of an interval by a minority of wrong
  servers: when more than half of the answers lie in it, so does the median.
\<close>

theorem median_robust:
  assumes "length offs < 2 * length (filter (\<lambda>x. a \<le> x \<and> x \<le> b) offs)"
  shows "a \<le> median offs \<and> median offs \<le> b"
proof -
  let ?s = "sort offs" and ?m = "length offs div 2"
  let ?in = "\<lambda>x. a \<le> x \<and> x \<le> b"
  have "length (filter ?in offs) = length (filter ?in ?s)"
    by (metis mset_filter mset_sort size_mset)
  then have few: "2 * length (filter (\<lambda>x. \<not> ?in x) ?s) < length ?s"
    using assms sum_length_filter_compl [of ?in ?s] by simp
  have "offs \<noteq> []"
    using assms by auto
  then have m: "?m < length ?s"
    by (cases offs) auto
  have out: "\<not> (\<forall>i. l \<le> i \<and> i < u \<longrightarrow> \<not> ?in (?s ! i))" if "u \<le> length ?s" "length ?s \<le> 2 * (u - l)" for l u
  proof
    assume *: "\<forall>i. l \<le> i \<and> i < u \<longrightarrow> \<not> ?in (?s ! i)"
    have "card {l..<u} \<le> card {i. i < length ?s \<and> \<not> ?in (?s ! i)}"
      using * that(1) by (intro card_mono) auto
    then have "u - l \<le> length (filter (\<lambda>x. \<not> ?in x) ?s)"
      by (simp add: length_filter_conv_card)
    with few that(2) show False by linarith
  qed
  have "a \<le> ?s ! ?m"
  proof (rule ccontr)
    assume "\<not> a \<le> ?s ! ?m"
    then have "\<forall>i. 0 \<le> i \<and> i < Suc ?m \<longrightarrow> \<not> ?in (?s ! i)"
      using sorted_nth_mono [of ?s _ ?m] m by (metis less_Suc_eq_le order_trans sorted_sort)
    moreover have "length ?s \<le> 2 * (Suc ?m - 0)"
      by simp
    ultimately show False
      using out [of "Suc ?m" 0] m by (simp only: length_sort Suc_le_eq)
  qed
  moreover have "?s ! ?m \<le> b"
  proof (rule ccontr)
    assume "\<not> ?s ! ?m \<le> b"
    then have "\<forall>i. ?m \<le> i \<and> i < length ?s \<longrightarrow> \<not> ?in (?s ! i)"
      using sorted_nth_mono [of ?s ?m] by (metis order_trans sorted_sort)
    moreover have "length ?s \<le> 2 * (length ?s - ?m)"
      by simp
    ultimately show False
      using out [of "length ?s" ?m] by (simp only: order.refl)
  qed
  ultimately show ?thesis
    by (simp add: median_def)
qed

theorem median_robust_witness: "4 \<le> median [5, 4, 1000000] \<and> median [5, 4, 1000000] \<le> 5"
  by (rule median_robust) simp

text \<open>
  C37: After any rounds the estimate is the fit of the medians of the last eight rounds in
  which a server answered, in their order, referred to the newest; rounds without an answer
  change nothing, and before the first answer the clock is the system clock.
\<close>

theorem clock_window:
  "samples (sync_rounds rs (NewClock s i t)) = last_n 8 (successes rs)
   \<and> clk_st (sync_rounds rs (NewClock s i t)) =
       (if successes rs = [] then None
        else Some \<lparr>st_offset = fst (fit (last_n 8 (successes rs))), st_slope = snd (fit (last_n 8 (successes rs))),
                   st_ref = smp_at (last (successes rs))\<rparr>)
   \<and> (if successes rs = [] then Correct (sync_rounds rs (NewClock s i t)) now = now else True)"
proof -
  let ?c = "sync_rounds rs (NewClock s i t)"
  have s: "samples ?c = last_n 8 (successes rs)"
    using sync_rounds_samples [of "NewClock s i t" "[]" rs] by (simp add: NewClock_def last_n_def maxSamples_def)
  have inv: "clock_inv ?c"
    by (intro sync_rounds_inv clock_inv_New)
  show ?thesis
  proof (cases "successes rs = []")
    case True
    then have "samples ?c = []"
      by (simp add: s last_n_def)
    with inv True s show ?thesis
      by (simp add: clock_inv_def Correct_def)
  next
    case False
    then have ne: "samples ?c \<noteq> []" "last (samples ?c) = last (successes rs)"
      by (auto simp: s last_n_def Suc_le_eq not_le)
    then obtain st where st: "clk_st ?c = Some st"
      using inv by (auto simp: clock_inv_def)
    with inv ne have "st_ref st = smp_at (last (successes rs))" "(st_offset st, st_slope st) = fit (samples ?c)"
      by (auto simp: clock_inv_def)
    then have "st = \<lparr>st_offset = fst (fit (samples ?c)), st_slope = snd (fit (samples ?c)),
        st_ref = smp_at (last (successes rs))\<rparr>"
      by (cases "fit (samples ?c)") (cases st, simp)
    with False s st show ?thesis
      by simp
  qed
qed

text \<open>
  After the first successful round the corrected time is the local time plus the median
  offset, exactly: with one sample the drift is zero, whatever the time asked for.
\<close>

theorem Correct_first_sample:
  assumes "successes rs = [smp]" and "\<bar>smp_off smp\<bar> < 2 ^ 63"
  shows "Correct (sync_rounds rs (NewClock s i t)) now = now + smp_off smp"
proof -
  let ?c = "sync_rounds rs (NewClock s i t)"
  have smp: "samples ?c = [smp]"
    using sync_rounds_samples [of "NewClock s i t" "[]" rs] assms(1)
    by (simp add: NewClock_def last_n_def maxSamples_def)
  have "clock_inv ?c"
    by (intro sync_rounds_inv clock_inv_New)
  with smp obtain st where st: "clk_st ?c = Some st" "st_offset st = smp_off smp" "st_slope st = 0"
    by (auto simp: clock_inv_def fit_def split: option.splits)
  have "\<bar>time_Sub now (st_ref st)\<bar> < 2 ^ 64"
    by (simp add: time_Sub_def maxDuration_def minDuration_def)
  then obtain z where "f64_mul 0 (f64_of_int (time_Sub now (st_ref st))) = pack z 0"
    using f64_mul_zero [OF f64_of_int_finite] by blast
  moreover have "dur_add (smp_off smp) 0 = smp_off smp"
    using assms(2) by (simp add: dur_add_def)
  ultimately show ?thesis
    using st by (simp add: Correct_def)
qed

theorem Correct_first_sample_witness:
  "Correct (sync_rounds [(50, [None, None]), (100, [Some 7, None, Some 9, Some 8])] (NewClock [] 0 0)) 1000 = 1008"
proof -
  have "successes [(50, [None, None]), (100, [Some 7, None, Some 9, Some 8])] = [\<lparr>smp_at = 100, smp_off = 8\<rparr>]"
    by code_simp
  from Correct_first_sample [OF this] show ?thesis
    by simp
qed

end
