(* ===== verification/Wire_Message.thy ===== *)
theory Wire_Message
  imports Wire_Frame
begin

text \<open>
  The contract between a command handler and the server (\<^verbatim>\<open>src/internal/tcp/message.go\<close>): a
  handler returns a message with a delivery mode, the server serialises it with
  \<open>WireBytes\<close> for the hub, and the goroutine of each subscriber turns these bytes back
  into a frame (the body of the receive loop in \<^verbatim>\<open>handleConnection\<close>).
\<close>

datatype DeliveryMode = DeliverNone | DeliverBroadcast | DeliverUnicast | DeliverDirect

definition DeliveryMode_String :: "DeliveryMode \<Rightarrow> string" where
  "DeliveryMode_String m =
     (case m of DeliverNone \<Rightarrow> ''DeliverNone'' | DeliverBroadcast \<Rightarrow> ''DeliverBroadcast''
      | DeliverUnicast \<Rightarrow> ''DeliverUnicast'' | DeliverDirect \<Rightarrow> ''DeliverDirect'')"

record message =
  Mode :: DeliveryMode
  msg_Addr :: byte
  msg_Cmd :: byte
  Payload :: bytes
  Targets :: "string list"

definition WireBytes :: "message \<Rightarrow> bytes" where
  "WireBytes m = [msg_Addr m, msg_Cmd m] @ Payload m"

text \<open>The frame the server builds from a message for a unicast or for its log.\<close>

definition message_frame :: "message \<Rightarrow> frame" where
  "message_frame m = \<lparr>Addr = msg_Addr m, Cmd = msg_Cmd m, Data = Payload m\<rparr>"

text \<open>The frame a subscriber builds from the bytes the hub delivered.\<close>

definition broadcast_frame :: "bytes \<Rightarrow> frame" where
  "broadcast_frame data =
     (if length data \<ge> 2 then \<lparr>Addr = data ! 0, Cmd = data ! 1, Data = drop 2 data\<rparr>
      else \<lparr>Addr = AddrServerStatus, Cmd = CmdAuth, Data = data\<rparr>)"

lemma length_WireBytes [simp]: "length (WireBytes m) = 2 + length (Payload m)"
  by (simp add: WireBytes_def)

lemma broadcast_frame_WireBytes [simp]: "broadcast_frame (WireBytes m) = message_frame m"
  by (simp add: broadcast_frame_def message_frame_def WireBytes_def)

lemma message_frame_wf: "length (Payload m) \<le> FrameMaxDataLen \<Longrightarrow> frame_wf (message_frame m)"
  by (simp add: frame_wf_def message_frame_def)

end
