(* ===== verification/Server_Context.thy ===== *)
theory Server_Context
  imports Device_Store Challenge Hub Log_Lines Measurements Ntp Wire_Message "HOL-Library.Monad_Syntax"
begin

text \<open>
  What the command handlers share (\<^verbatim>\<open>src/internal/tcp/handler.go\<close> and the fields of
  \<^verbatim>\<open>CryptoServer\<close>): the stores, the hub, the file logs, the measurements, the clock and the two
  channels of the web interface are the record \<open>server\<close>; a nil pointer is \<^const>\<open>None\<close>. The
  record \<open>CmdContext\<close> has the fields that belong to one connection, and \<open>conn\<close> the socket: the
  chunks written to it so far, and for each write whether it succeeds. A handler is a function on
  a \<open>hstate\<close>, the three together. A panic, or a call that never returns, is the result \<^const>\<open>None\<close>
  of the option monad.

  An entry of the log channel is the event type, the device and the message; the message is kept
  as a value with its arguments (\<open>log_text\<close>) instead of the formatted text, and the time stamp
  of an entry is left out. Lines of the server's standard log are not modelled.
\<close>

section \<open>The log channel\<close>

datatype log_text =
    NewConnection | IdleTimeout | Disconnected
  | RawFrame bytes
  | BroadcastSent bytes "string list" "string list"
  | ParamReceived frame | ParamBadAddr byte byte | ParamBadLen nat nat bytes | ParamDID bytes string
  | ParamRequest byte | ParamNotFound string | ParamFound string nat | ParamNotInService string
  | DeniedNotFound | DeniedNotInService
  | ChallengeGenFailed | ChallengeGenerated bytes | ChallengeFrame frame bytes | ChallengeSent bytes
  | AuthReceived frame | AuthBadAddr byte byte | AuthBadLen nat nat bytes | AuthParsed bytes string byte bytes
  | AuthBadVersion byte byte string | AuthBadDID string string | AuthTTLCheck bytes time | AuthTTLError bytes
  | AuthExpired bytes | AuthKeyError string | AuthVerifying string bytes bytes | AuthVerifyFailed string bytes bytes
  | AuthTwoStatuses byte byte | AuthStatus byte bytes | StatusSent byte bytes | AuthAuthorized string
  | DeniedVersion | DeniedDID | DeniedExpired | DeniedSignature | Authorized

record log_entry =
  le_type :: string
  le_device :: string
  le_message :: log_text

record TimeLogEntry =
  tl_DeviceID :: string
  tl_Dir :: string
  tl_At :: int
  tl_Frame :: bytes
  tl_DeviceTimeMs :: int
  tl_ServerTimeMs :: int
  tl_ReceivedAtMs :: int

section \<open>Shared state, context and socket\<close>

record server =
  sv_db :: database
  sv_hub :: hub
  sv_logs :: "(FrameLogger \<times> fs) option"
  sv_measurements :: "MeasurementStore option"
  sv_clock :: "Clock option"
  sv_logChan :: "log_entry chan option"
  sv_timeLogs :: "TimeLogEntry chan option"

record CmdContext =
  DeviceID :: string
  Authenticated :: bool
  ReceivedAt :: time
  LastRaw :: bytes

record conn =
  tx :: "bytes list"
  tx_fails :: "nat \<Rightarrow> bool"
  tx_count :: nat

record hstate =
  ctx :: CmdContext
  sock :: conn
  srv :: server

definition conn_Write :: "bytes \<Rightarrow> conn \<Rightarrow> bool \<times> conn" where
  "conn_Write raw c =
     (if tx_fails c (tx_count c) then (False, c\<lparr>tx_count := tx_count c + 1\<rparr>)
      else (True, c\<lparr>tx := tx c @ [raw], tx_count := tx_count c + 1\<rparr>))"

definition hs_Write :: "bytes \<Rightarrow> hstate \<Rightarrow> bool \<times> hstate" where
  "hs_Write raw s = (let (ok, c) = conn_Write raw (sock s) in (ok, s\<lparr>sock := c\<rparr>))"

text \<open>\<^verbatim>\<open>select { case ch <- x: default: }\<close> on a channel that may be nil.\<close>

definition offer :: "'a \<Rightarrow> 'a chan option \<Rightarrow> 'a chan option" where
  "offer x ch = map_option (\<lambda>c. fst (try_send x c)) ch"

definition log_event :: "string \<Rightarrow> string \<Rightarrow> log_text \<Rightarrow> server \<Rightarrow> server" where
  "log_event eventType deviceID msg sv =
     sv\<lparr>sv_logChan := offer \<lparr>le_type = eventType, le_device = deviceID, le_message = msg\<rparr> (sv_logChan sv)\<rparr>"

text \<open>\<^verbatim>\<open>logEvent\<close> and \<^verbatim>\<open>logDebug\<close> of a handler: with the device of the context.\<close>

definition logEvent :: "string \<Rightarrow> log_text \<Rightarrow> hstate \<Rightarrow> hstate" where
  "logEvent eventType msg s = s\<lparr>srv := log_event eventType (DeviceID (ctx s)) msg (srv s)\<rparr>"

definition logDebug :: "log_text \<Rightarrow> hstate \<Rightarrow> hstate" where
  "logDebug msg s = logEvent ''debug'' msg s"

section \<open>Results of a handler\<close>

datatype handler_error =
    BadAddr byte | BadDataLen nat | StoreFailed store_error | NotInService | CryptoFailed crypto_error
  | WriteFailed | BadVersion byte | DIDMismatch string string | ChallengeExpired

type_synonym handler_result = "handler_error + message option"

text \<open>The inputs of one frame: the clock readings, random bytes and database outcomes.\<close>

record frame_env =
  fe_received :: time
  fe_now :: time
  fe_at :: time
  fe_random :: rand_source
  fe_seen :: db_env
  fe_key :: db_env
  fe_service :: db_env
  fe_auth_seen :: db_env
  fe_log_open :: log_env
  fe_log_hex :: log_env
  fe_log_txt :: log_env

section \<open>What logging and writing leave alone\<close>

lemma offer_none [simp]: "offer x ch = None \<longleftrightarrow> ch = None"
  by (simp add: offer_def)

lemma log_event_simps [simp]:
  "sv_db (log_event t d m sv) = sv_db sv" "sv_hub (log_event t d m sv) = sv_hub sv"
  "sv_logs (log_event t d m sv) = sv_logs sv" "sv_measurements (log_event t d m sv) = sv_measurements sv"
  "sv_clock (log_event t d m sv) = sv_clock sv" "sv_timeLogs (log_event t d m sv) = sv_timeLogs sv"
  by (simp_all add: log_event_def)

lemma logEvent_simps [simp]:
  "ctx (logEvent t m s) = ctx s" "sock (logEvent t m s) = sock s"
  "sv_db (srv (logEvent t m s)) = sv_db (srv s)" "sv_hub (srv (logEvent t m s)) = sv_hub (srv s)"
  "sv_logs (srv (logEvent t m s)) = sv_logs (srv s)" "sv_clock (srv (logEvent t m s)) = sv_clock (srv s)"
  "sv_measurements (srv (logEvent t m s)) = sv_measurements (srv s)"
  "sv_timeLogs (srv (logEvent t m s)) = sv_timeLogs (srv s)"
  by (simp_all add: logEvent_def)

lemma logDebug_simps [simp]:
  "ctx (logDebug m s) = ctx s" "sock (logDebug m s) = sock s"
  "sv_db (srv (logDebug m s)) = sv_db (srv s)" "sv_hub (srv (logDebug m s)) = sv_hub (srv s)"
  "sv_logs (srv (logDebug m s)) = sv_logs (srv s)" "sv_clock (srv (logDebug m s)) = sv_clock (srv s)"
  "sv_measurements (srv (logDebug m s)) = sv_measurements (srv s)"
  "sv_timeLogs (srv (logDebug m s)) = sv_timeLogs (srv s)"
  by (simp_all add: logDebug_def)

lemma hs_Write_snd [simp]: "ctx (snd (hs_Write raw s)) = ctx s" "srv (snd (hs_Write raw s)) = srv s"
  by (simp_all add: hs_Write_def split: prod.splits)

lemma hs_Write_fst: "fst (hs_Write raw s) \<longleftrightarrow> \<not> tx_fails (sock s) (tx_count (sock s))"
  by (simp add: hs_Write_def conn_Write_def)

definition writable :: "hstate \<Rightarrow> bool" where
  "writable s \<longleftrightarrow> (\<forall>n. \<not> tx_fails (sock s) n)"

lemma writable_Write:
  assumes "writable s"
  shows "fst (hs_Write raw s)" "tx (sock (snd (hs_Write raw s))) = tx (sock s) @ [raw]"
    "writable (snd (hs_Write raw s))"
  using assms by (simp_all add: writable_def hs_Write_def conn_Write_def)

lemma writable_log [simp]:
  "writable (logEvent t m s) \<longleftrightarrow> writable s" "writable (logDebug m s) \<longleftrightarrow> writable s"
  by (simp_all add: writable_def)

text \<open>
  A step that only logs and writes: of the shared state at most the log channel changed, and the
  socket has more written to it.
\<close>

definition quiet :: "hstate \<Rightarrow> hstate \<Rightarrow> bool" where
  "quiet s s' \<longleftrightarrow> ctx s' = ctx s \<and> tx_fails (sock s') = tx_fails (sock s) \<and> (\<exists>out. tx (sock s') = tx (sock s) @ out)
     \<and> (\<exists>ch. srv s' = (srv s)\<lparr>sv_logChan := ch\<rparr>)"

lemma quiet_refl [intro, simp]: "quiet s s"
proof -
  have "srv s = (srv s)\<lparr>sv_logChan := sv_logChan (srv s)\<rparr>"
    by simp
  then show ?thesis
    unfolding quiet_def by (metis append_Nil2)
qed

lemma quiet_trans [trans]:
  assumes "quiet a b" "quiet b c"
  shows "quiet a c"
proof -
  from assms obtain o1 o2 c1 c2 where "tx (sock b) = tx (sock a) @ o1" "tx (sock c) = tx (sock b) @ o2"
    "srv b = (srv a)\<lparr>sv_logChan := c1\<rparr>" "srv c = (srv b)\<lparr>sv_logChan := c2\<rparr>"
    by (auto simp: quiet_def)
  then have "tx (sock c) = tx (sock a) @ o1 @ o2" "srv c = (srv a)\<lparr>sv_logChan := c2\<rparr>"
    by simp_all
  with assms show ?thesis
    unfolding quiet_def by metis
qed

lemma quiet_log: "quiet s (logEvent t m s)" "quiet s (logDebug m s)"
proof -
  show 1: "quiet s (logEvent t m s)" for t
    by (auto simp: quiet_def logEvent_def log_event_def)
  show "quiet s (logDebug m s)"
    unfolding logDebug_def by (rule 1)
qed

lemma quiet_Write: "quiet s (snd (hs_Write raw s))"
proof -
  have "\<exists>ch. srv s = (srv s)\<lparr>sv_logChan := ch\<rparr>"
    by (rule exI [of _ "sv_logChan (srv s)"]) simp
  moreover have "\<exists>out. tx (sock (snd (hs_Write raw s))) = tx (sock s) @ out"
    by (simp add: hs_Write_def conn_Write_def)
  moreover have "tx_fails (sock (snd (hs_Write raw s))) = tx_fails (sock s)"
    by (simp add: hs_Write_def conn_Write_def)
  ultimately show ?thesis
    by (simp add: quiet_def)
qed

lemma quiet_logI: "quiet s s' \<Longrightarrow> quiet s (logEvent t m s')" "quiet s s' \<Longrightarrow> quiet s (logDebug m s')"
  by (blast intro: quiet_trans quiet_log)+

lemma quiet_WriteI: "quiet s s' \<Longrightarrow> quiet s (snd (hs_Write raw s'))"
  by (blast intro: quiet_trans quiet_Write)

lemmas quiet_intros = quiet_refl quiet_logI quiet_WriteI

lemma quietD:
  assumes "quiet s s'"
  shows "ctx s' = ctx s" "sv_db (srv s') = sv_db (srv s)" "sv_hub (srv s') = sv_hub (srv s)"
    "sv_logs (srv s') = sv_logs (srv s)" "sv_measurements (srv s') = sv_measurements (srv s)"
    "sv_clock (srv s') = sv_clock (srv s)" "sv_timeLogs (srv s') = sv_timeLogs (srv s)"
    "writable s' \<longleftrightarrow> writable s"
  using assms by (auto simp: quiet_def writable_def)

lemma quiet_shared:
  "quiet s s' \<Longrightarrow> sv_hub (srv s') = sv_hub (srv s) \<and> sv_logs (srv s') = sv_logs (srv s)
     \<and> sv_measurements (srv s') = sv_measurements (srv s)"
  by (simp add: quietD)

section \<open>Sample values\<close>

text \<open>
  A server with the one device of \<open>db_one\<close>, nobody connected and the optional parts switched off;
  a socket that accepts everything; a frame received when the clock shows a time; and
  a cryptography with one key and one signature.
\<close>

definition server_one :: server where
  "server_one = \<lparr>sv_db = db_one, sv_hub = hub_New, sv_logs = None, sv_measurements = None, sv_clock = None,
     sv_logChan = None, sv_timeLogs = None\<rparr>"

definition hstate_one :: hstate where
  "hstate_one = \<lparr>ctx = \<lparr>DeviceID = [], Authenticated = False, ReceivedAt = 0, LastRaw = []\<rparr>,
     sock = \<lparr>tx = [], tx_fails = (\<lambda>_. False), tx_count = 0\<rparr>, srv = server_one\<rparr>"

definition frame_env_at :: "time \<Rightarrow> frame_env" where
  "frame_env_at t = \<lparr>fe_received = t, fe_now = t, fe_at = t, fe_random = Some (\<lambda>_. 7), fe_seen = env_at t, fe_key = env_at t,
     fe_service = env_at t, fe_auth_seen = env_at t, fe_log_open = calm_env t, fe_log_hex = calm_env t, fe_log_txt = calm_env t\<rparr>"

definition plain_crypto :: "unit crypto_lib" where
  "plain_crypto = \<lparr>pem_Decode = (\<lambda>s. Some (bytes_of_string s)), ParsePKIXPublicKey = (\<lambda>_. Some (RSAKey ())),
     ParsePKCS1PublicKey = (\<lambda>_. None), Sum256 = (\<lambda>b. b), VerifyPKCS1v15 = (\<lambda>_ _ sig. sig = replicate 256 7)\<rparr>"

lemma writable_one [simp]: "writable hstate_one"
  by (simp add: writable_def hstate_one_def)

end
