(* ===== verification/Cmd59.thy ===== *)
theory Cmd59
  imports Server_Context
begin

unbundle bit_operations_syntax

text \<open>
  The handler of regular data messages, command 0x59 (\<^verbatim>\<open>src/internal/cmd/cmd0x59/handler.go\<close>):
  decoding of the 44 bytes, the line of the readable log, and the handler, which logs and stores
  what it can decode and hands every message of the right specifier on for broadcast.
\<close>

definition DataLen :: nat where "DataLen = 44"

record Msg =
  Number :: u32
  UTC :: u64
  Off1 :: f64
  Off2 :: f64
  Off3 :: f64
  Static :: u32
  Validity :: u32

datatype decode_error = DataTooShort nat

definition Decode :: "bytes \<Rightarrow> decode_error + Msg" where
  "Decode data =
     (if length data < DataLen then Inl (DataTooShort (length data))
      else Inr \<lparr>Number = Uint32 (slice 0 4 data), UTC = Uint64 (slice 4 12 data), Off1 = Uint64 (slice 12 20 data),
                Off2 = Uint64 (slice 20 28 data), Off3 = Uint64 (slice 28 36 data), Static = Uint32 (slice 36 40 data),
                Validity = Uint32 (slice 40 44 data)\<rparr>)"

section \<open>The readable log\<close>

text \<open>The year of a layout, at least four digits, and the layout \<^verbatim>\<open>2006-01-02T15:04:05.000Z\<close>.\<close>

definition year4 :: "int \<Rightarrow> string" where
  "year4 y = (let d = deci \<bar>y\<bar> in (if y < 0 then ''-'' else []) @ replicate (4 - length d) (CHR ''0'') @ d)"

definition format_utc :: "time \<Rightarrow> string" where
  "format_utc t =
     (let (y, m, d) = date_of_day (day_of_time t)
      in year4 y @ ''-'' @ pad2 m @ ''-'' @ pad2 d @ ''T'' @ format_clock t @ ''Z'')"

definition binary8 :: "u32 \<Rightarrow> string" where
  "binary8 w = map (\<lambda>i. if bit w (7 - i) then CHR ''1'' else CHR ''0'') [0..<8]"

definition off_text :: "u32 \<Rightarrow> f64 \<Rightarrow> u32 \<Rightarrow> string" where
  "off_text validity v flag = format_f6 v @ (if validity AND flag = 0 then ''(invalid)'' else [])"

text \<open>The label of the message number, in UTF-8.\<close>

definition number_label :: string where
  "number_label = string_of_bytes [0xD0, 0x9D, 0xD0, 0xBE, 0xD0, 0xBC, 0xD0, 0xB5, 0xD1, 0x80, 0x5F, 0xD1, 0x81, 0xD0, 0xBE,
     0xD0, 0xBE, 0xD0, 0xB1, 0xD1, 0x89, 0xD0, 0xB5, 0xD0, 0xBD, 0xD0, 0xB8, 0xD1, 0x8F, 0x3D]"

definition FormatLog59 :: "Msg \<Rightarrow> time \<Rightarrow> string \<Rightarrow> string" where
  "FormatLog59 m t did =
     format_stamp t @ ''  '' @ did @ ''  0x59  '' @ number_label @ deci (uint (Number m))
     @ ''  UTC='' @ format_utc (time_of_ms (sint (UTC m)))
     @ ''  iekf_hw_offset_1='' @ off_text (Validity m) (Off1 m) 1
     @ ''  iekf_hw_offset_2='' @ off_text (Validity m) (Off2 m) 2
     @ ''  iekf_hw_offset_3='' @ off_text (Validity m) (Off3 m) 4
     @ ''  static_cnt='' @ deci (uint (Static m)) @ ''  validity=0b'' @ binary8 (Validity m)"

section \<open>The handler\<close>

definition measurement_of :: "string \<Rightarrow> time \<Rightarrow> Msg \<Rightarrow> Measurement" where
  "measurement_of did now m =
     \<lparr>me_DeviceID = did, me_MsgNo = Number m, me_Ts = (if UTC m = 0 then now else time_of_ms (sint (UTC m))),
      me_ReceivedAt = now, me_Off1 = Off1 m, me_Off2 = Off2 m, me_Off3 = Off3 m, me_StaticCnt = Static m,
      me_Validity = Validity m\<rparr>"

definition Handle59 :: "frame_env \<Rightarrow> frame \<Rightarrow> hstate \<Rightarrow> handler_result \<times> hstate" where
  "Handle59 e fr s =
     (if Addr fr \<noteq> AddrDeviceRegular then (Inr None, s)
      else let did = DeviceID (ctx s); now = fe_now e;
               s = (case Decode (Data fr) of
                      Inl err \<Rightarrow> s
                    | Inr m \<Rightarrow>
                        s\<lparr>srv := (srv s)\<lparr>
                            sv_logs := map_option (LogTxt (fe_log_txt e) did (FormatLog59 m now did)) (sv_logs (srv s)),
                            sv_measurements := map_option (Enqueue (measurement_of did now m)) (sv_measurements (srv s))\<rparr>\<rparr>)
           in (Inr (Some \<lparr>Mode = DeliverBroadcast, msg_Addr = AddrBroadcast, msg_Cmd = Cmd fr, Payload = Data fr,
                          Targets = []\<rparr>), s))"

lemma Handle59_frame:
  "ctx (snd (Handle59 e fr s)) = ctx s" "sock (snd (Handle59 e fr s)) = sock s"
  "sv_db (srv (snd (Handle59 e fr s))) = sv_db (srv s)" "sv_hub (srv (snd (Handle59 e fr s))) = sv_hub (srv s)"
  "sv_clock (srv (snd (Handle59 e fr s))) = sv_clock (srv s)"
  by (simp_all add: Handle59_def Let_def split: sum.split)

section \<open>Properties of the data messages\<close>

text \<open>The 44 bytes of a message.\<close>

definition msg_bytes :: "Msg \<Rightarrow> bytes" where
  "msg_bytes m = PutUint32 (Number m) @ PutUint64 (UTC m) @ PutUint64 (Off1 m) @ PutUint64 (Off2 m) @ PutUint64 (Off3 m)
     @ PutUint32 (Static m) @ PutUint32 (Validity m)"

lemma slice_slice:
  assumes "i \<le> j" "j \<le> k"
  shows "slice i j xs @ slice j k xs = slice i k xs"
proof -
  have k: "k - i = (j - i) + (k - j)" and j: "j - i + i = j"
    using assms by simp_all
  show ?thesis
    unfolding slice_def k take_add drop_drop j ..
qed

lemma Decode_iff: "Decode data = Inr m \<longleftrightarrow> DataLen \<le> length data \<and> take DataLen data = msg_bytes m"
proof (cases "DataLen \<le> length data")
  case True
  have len: "length (slice i j data) = j - i" if "j \<le> 44" for i j
    using that True by (simp add: DataLen_def)
  define m' where "m' = \<lparr>Number = Uint32 (slice 0 4 data), UTC = Uint64 (slice 4 12 data), Off1 = Uint64 (slice 12 20 data),
    Off2 = Uint64 (slice 20 28 data), Off3 = Uint64 (slice 28 36 data), Static = Uint32 (slice 36 40 data),
    Validity = Uint32 (slice 40 44 data)\<rparr>"
  have dec: "Decode data = Inr m'"
    using True by (simp add: Decode_def m'_def)
  have "msg_bytes m' = slice 0 44 data"
    by (simp add: msg_bytes_def m'_def le_simps len slice_slice)
  then have m': "msg_bytes m' = take DataLen data"
    by (simp add: slice_def DataLen_def)
  have "m' = m" if t: "take DataLen data = msg_bytes m"
  proof -
    obtain rest where "data = msg_bytes m @ rest"
      using t by (metis append_take_drop_id)
    then show ?thesis
      by (simp add: m'_def msg_bytes_def slice_def le_simps)
  qed
  with dec m' True show ?thesis
    by auto
qed (simp add: Decode_def)

lemma length_msg_bytes [simp]: "length (msg_bytes m) = 44"
  by (simp add: msg_bytes_def)

text \<open>
  C40: The decoder accepts exactly the data of at least 44 bytes, and its fields are those whose
  little-endian encoding, in the order of the protocol, is the first 44 bytes; so it loses
  nothing of them, and the bytes after them are ignored.
\<close>

theorem Decode_layout:
  "Decode data = Inr m \<longleftrightarrow> (\<exists>rest. data = msg_bytes m @ rest)"
  by (auto simp: Decode_iff DataLen_def) (metis append_take_drop_id)

text \<open>
  Whatever its data, a message with the specifier 0x76 is broadcast unchanged under the
  specifier 0x70; when the data can be decoded, the measurement store is given one measurement with
  the decoded values, the time of the frame, or the time of reception when the frame has none, and
  when they are too short nothing is stored or logged. A frame with another specifier has no effect.
\<close>

theorem Handle59_spec:
  assumes "Handle59 e fr s = (r, s')"
  shows "if Addr fr \<noteq> AddrDeviceRegular then r = Inr None \<and> s' = s
    else r = Inr (Some \<lparr>Mode = DeliverBroadcast, msg_Addr = AddrBroadcast, msg_Cmd = Cmd fr, Payload = Data fr, Targets = []\<rparr>)
      \<and> (length (Data fr) < 44 \<longrightarrow> s' = s)
      \<and> (\<forall>m rest. Data fr = msg_bytes m @ rest \<longrightarrow>
           sv_measurements (srv s') = map_option (Enqueue \<lparr>me_DeviceID = DeviceID (ctx s), me_MsgNo = Number m,
             me_Ts = (if UTC m = 0 then fe_now e else sint (UTC m) * Millisecond), me_ReceivedAt = fe_now e,
             me_Off1 = Off1 m, me_Off2 = Off2 m, me_Off3 = Off3 m, me_StaticCnt = Static m, me_Validity = Validity m\<rparr>)
             (sv_measurements (srv s)))"
proof -
  have "Decode (Data fr) = Inr m" if "Data fr = msg_bytes m @ rest" for m rest
    using that by (simp add: Decode_iff DataLen_def)
  moreover have "Decode (Data fr) = Inl (DataTooShort (length (Data fr)))" if "length (Data fr) < 44"
    using that by (simp add: Decode_def DataLen_def)
  ultimately show ?thesis
    using assms by (auto simp: Handle59_def Let_def measurement_of_def time_of_ms_def split: if_splits)
qed

definition zero_msg :: Msg where
  "zero_msg = \<lparr>Number = 0, UTC = 0, Off1 = 0, Off2 = 0, Off3 = 0, Static = 0, Validity = 0\<rparr>"

theorem Handle59_spec_witness:
  "\<exists>r s'. Handle59 (frame_env_at 5) \<lparr>Addr = AddrDeviceRegular, Cmd = CmdRegular, Data = msg_bytes zero_msg\<rparr>
      (hstate_one\<lparr>srv := server_one\<lparr>sv_measurements := Some (NewMeasurementStore [] 7)\<rparr>\<rparr>) = (r, s') \<and>
     sv_measurements (srv s') = Some (Enqueue \<lparr>me_DeviceID = [], me_MsgNo = 0, me_Ts = 5, me_ReceivedAt = 5,
       me_Off1 = 0, me_Off2 = 0, me_Off3 = 0, me_StaticCnt = 0, me_Validity = 0\<rparr> (NewMeasurementStore [] 7))"
proof -
  let ?fr = "\<lparr>Addr = AddrDeviceRegular, Cmd = CmdRegular, Data = msg_bytes zero_msg\<rparr>"
    and ?s = "hstate_one\<lparr>srv := server_one\<lparr>sv_measurements := Some (NewMeasurementStore [] 7)\<rparr>\<rparr>"
  obtain r s' where 1: "Handle59 (frame_env_at 5) ?fr ?s = (r, s')"
    by fastforce
  show ?thesis
    using Handle59_spec [OF 1] 1
    by (auto simp: hstate_one_def frame_env_at_def zero_msg_def dest!: spec [of _ zero_msg] spec [of _ "[]"])
qed

end
