(* ===== verification/Cmd65.thy ===== *)
theory Cmd65
  imports Server_Context
begin

text \<open>
  The authorization handler, command 0x65 (\<^verbatim>\<open>src/internal/cmd/cmd0x65/handler.go\<close> and
  \<^verbatim>\<open>heartbeat.go\<close>): a state machine of three steps that first answers a parameter request with a
  challenge, then checks the signed answer, and afterwards answers the time requests that keep
  the connection alive. Each handler function is one definition with the gates of the code in
  their order; the functions thread the handler and the \<open>hstate\<close> explicitly, in the option monad
  (\<^const>\<open>None\<close> is a panic).
\<close>

section \<open>State\<close>

datatype authStep = stepWaitParam | stepWaitAuth | stepDone

record Handler65 =
  h_step :: authStep
  h_deviceID :: string
  h_challenge :: bytes
  h_pubKeyPEM :: string

text \<open>The zero value the factory creates.\<close>

definition new_Handler65 :: Handler65 where
  "new_Handler65 = \<lparr>h_step = stepWaitParam, h_deviceID = [], h_challenge = [], h_pubKeyPEM = []\<rparr>"

section \<open>Responses\<close>

definition status_frame :: "byte \<Rightarrow> frame" where
  "status_frame code = \<lparr>Addr = AddrServerStatus, Cmd = CmdAuth, Data = [code]\<rparr>"

definition sendStatus :: "byte \<Rightarrow> hstate \<Rightarrow> hstate option" where
  "sendStatus code s = do {
     raw \<leftarrow> EncodeFrame (status_frame code);
     let s = logDebug (AuthStatus code raw) s;
     let s = logEvent ''message'' (StatusSent code raw) s;
     Some (snd (hs_Write raw s))
   }"

definition sendTwoStatuses :: "byte \<Rightarrow> hstate \<Rightarrow> hstate option" where
  "sendTwoStatuses resultCode s = do {
     let s = logDebug (AuthTwoStatuses StatusOK resultCode) s;
     s \<leftarrow> sendStatus StatusOK s;
     sendStatus resultCode s
   }"

definition refuse :: "byte \<Rightarrow> handler_error \<Rightarrow> Handler65 \<Rightarrow> hstate \<Rightarrow> (handler_result \<times> Handler65 \<times> hstate) option" where
  "refuse code err h s = do { s \<leftarrow> sendStatus code s; Some (Inl err, h, s) }"

definition refuse_two ::
  "byte \<Rightarrow> log_text option \<Rightarrow> handler_error \<Rightarrow> Handler65 \<Rightarrow> hstate \<Rightarrow> (handler_result \<times> Handler65 \<times> hstate) option" where
  "refuse_two code denied err h s = do {
     s \<leftarrow> sendTwoStatuses code s;
     Some (Inl err, h, case denied of None \<Rightarrow> s | Some d \<Rightarrow> logEvent ''auth'' d s)
   }"

section \<open>The parameter request\<close>

definition challenge_frame :: "bytes \<Rightarrow> frame" where
  "challenge_frame challenge = \<lparr>Addr = AddrChallengeResponse, Cmd = CmdAuth, Data = StatusOK # challenge\<rparr>"

text \<open>From gate 6 on: the challenge is made, kept and sent.\<close>

definition issue_challenge ::
  "frame_env \<Rightarrow> Handler65 \<Rightarrow> hstate \<Rightarrow> (handler_result \<times> Handler65 \<times> hstate) option" where
  "issue_challenge e h s =
     (case GenerateChallenge (fe_random e) (fe_now e) of
        Inl err \<Rightarrow> refuse StatusTimeoutError (CryptoFailed err) h (logDebug ChallengeGenFailed s)
      | Inr challenge \<Rightarrow> do {
          let h = h\<lparr>h_challenge := challenge\<rparr>;
          let s = logDebug (ChallengeGenerated challenge) s;
          raw \<leftarrow> EncodeFrame (challenge_frame challenge);
          let s = logDebug (ChallengeFrame (challenge_frame challenge) raw) s;
          let (ok, s) = hs_Write raw s;
          if \<not> ok then Some (Inl WriteFailed, h, s)
          else Some (Inr None, h\<lparr>h_step := stepWaitAuth\<rparr>, logEvent ''message'' (ChallengeSent challenge) s)
        })"

definition handleParamRequest ::
  "frame_env \<Rightarrow> frame \<Rightarrow> Handler65 \<Rightarrow> hstate \<Rightarrow> (handler_result \<times> Handler65 \<times> hstate) option" where
  "handleParamRequest e fr h s = (
     let s = logDebug (ParamReceived fr) s in
     if Addr fr \<noteq> AddrParamRequest then
       refuse StatusSpecError (BadAddr (Addr fr)) h (logDebug (ParamBadAddr AddrParamRequest (Addr fr)) s)
     else if length (Data fr) < DeviceIDSize then
       refuse StatusDataLenError (BadDataLen (length (Data fr))) h
         (logDebug (ParamBadLen DeviceIDSize (length (Data fr)) (Data fr)) s)
     else
       let did = TrimDeviceID (take DeviceIDSize (Data fr));
           h = h\<lparr>h_deviceID := did\<rparr>;
           s = logDebug (ParamDID (take DeviceIDSize (Data fr)) did) s;
           s = s\<lparr>ctx := (ctx s)\<lparr>DeviceID := did\<rparr>\<rparr>;
           s = logEvent ''auth'' (ParamRequest (Addr fr)) s
       in case GetPublicKey (fe_key e) did (sv_db (srv s)) of
            Inl err \<Rightarrow> do {
              s \<leftarrow> sendStatus StatusCmdExecError (logDebug (ParamNotFound did) s);
              Some (Inl (StoreFailed err), h, logEvent ''auth'' DeniedNotFound s)
            }
          | Inr pem \<Rightarrow>
              let s = logDebug (ParamFound did (length pem)) s in
              if IsInService (fe_service e) did (sv_db (srv s)) \<noteq> Inr True then do {
                s \<leftarrow> sendStatus StatusCmdExecError (logDebug (ParamNotInService did) s);
                Some (Inl NotInService, h, logEvent ''auth'' DeniedNotInService s)
              }
              else issue_challenge e (h\<lparr>h_pubKeyPEM := pem\<rparr>) s)"

section \<open>The authorization\<close>

definition expectedAuthLen :: nat where "expectedAuthLen = DeviceIDSize + 1 + 256"

text \<open>The end of a successful authorization.\<close>

definition authorize ::
  "frame_env \<Rightarrow> Handler65 \<Rightarrow> hstate \<Rightarrow> (handler_result \<times> Handler65 \<times> hstate) option" where
  "authorize e h s = do {
     s \<leftarrow> sendTwoStatuses StatusAuthorized s;
     let s = s\<lparr>ctx := (ctx s)\<lparr>Authenticated := True\<rparr>\<rparr>;
     let s = logDebug (AuthAuthorized (h_deviceID h)) s;
     let s = logEvent ''auth'' Authorized s;
     let s = s\<lparr>srv := (srv s)\<lparr>sv_db := snd (UpdateLastSeen (fe_auth_seen e) (h_deviceID h) (sv_db (srv s)))\<rparr>\<rparr>;
     Some (Inr None, h\<lparr>h_step := stepDone\<rparr>, s)
   }"

definition handleAuth ::
  "'k crypto_lib \<Rightarrow> frame_env \<Rightarrow> frame \<Rightarrow> Handler65 \<Rightarrow> hstate \<Rightarrow> (handler_result \<times> Handler65 \<times> hstate) option" where
  "handleAuth lib e fr h s = (
     let s = logDebug (AuthReceived fr) s in
     if Addr fr \<noteq> AddrAuthCommand then
       refuse StatusSpecError (BadAddr (Addr fr)) h (logDebug (AuthBadAddr AddrAuthCommand (Addr fr)) s)
     else if length (Data fr) < expectedAuthLen then
       refuse StatusDataLenError (BadDataLen (length (Data fr))) h
         (logDebug (AuthBadLen expectedAuthLen (length (Data fr)) (Data fr)) s)
     else
       let respDID = TrimDeviceID (take DeviceIDSize (Data fr));
           version = Data fr ! DeviceIDSize;
           signature = slice (DeviceIDSize + 1) (DeviceIDSize + 1 + 256) (Data fr);
           s = logDebug (AuthParsed (take DeviceIDSize (Data fr)) respDID version signature) s
       in
       if version \<noteq> AuthProtocolVersion then
         refuse_two StatusDataValueError (Some DeniedVersion) (BadVersion version) h
           (logDebug (AuthBadVersion AuthProtocolVersion version respDID) s)
       else if respDID \<noteq> h_deviceID h then
         refuse_two StatusDataValueError (Some DeniedDID) (DIDMismatch (h_deviceID h) respDID) h
           (logDebug (AuthBadDID (h_deviceID h) respDID) s)
       else
         let s = logDebug (AuthTTLCheck (h_challenge h) (fe_at e)) s in
         case IsChallengeExpired (h_challenge h) (fe_now e) of
           Inl err \<Rightarrow> refuse_two StatusTimeoutError None (CryptoFailed err) h (logDebug (AuthTTLError (h_challenge h)) s)
         | Inr True \<Rightarrow>
             refuse_two StatusCmdExecError (Some DeniedExpired) ChallengeExpired h (logDebug (AuthExpired (h_challenge h)) s)
         | Inr False \<Rightarrow>
             (case ParsePublicKey lib (h_pubKeyPEM h) of
                Inl err \<Rightarrow> refuse_two StatusTimeoutError None (CryptoFailed err) h (logDebug (AuthKeyError (h_deviceID h)) s)
              | Inr pubKey \<Rightarrow>
                  let s = logDebug (AuthVerifying (h_deviceID h) (h_challenge h) signature) s in
                  (case VerifyChallengeResponse lib pubKey (h_challenge h) signature of
                     Some err \<Rightarrow>
                       refuse_two StatusDataValueError (Some DeniedSignature) (CryptoFailed err) h
                         (logDebug (AuthVerifyFailed (h_deviceID h) (h_challenge h) signature) s)
                   | None \<Rightarrow> authorize e h s)))"

section \<open>Time requests\<close>

definition buildTimeResponse :: "u64 \<Rightarrow> u64 \<Rightarrow> bytes" where
  "buildTimeResponse serverTimeMs receivedAtMs = PutUint64 serverTimeMs @ PutUint64 receivedAtMs"

definition time_frame :: "u64 \<Rightarrow> u64 \<Rightarrow> frame" where
  "time_frame serverTimeMs receivedAtMs =
     \<lparr>Addr = AddrTimeResponse, Cmd = CmdAuth, Data = buildTimeResponse serverTimeMs receivedAtMs\<rparr>"

definition handleHeartbeat ::
  "frame_env \<Rightarrow> frame \<Rightarrow> Handler65 \<Rightarrow> hstate \<Rightarrow> (handler_result \<times> Handler65 \<times> hstate) option" where
  "handleHeartbeat e fr h s =
     (if Addr fr \<noteq> AddrTimeRequest then refuse StatusSpecError (BadAddr (Addr fr)) h s
      else if length (Data fr) \<noteq> TimeDataLen then refuse StatusDataLenError (BadDataLen (length (Data fr))) h s
      else do {
        let (receivedAt, serverNow) =
          (case sv_clock (srv s) of
             None \<Rightarrow> (ReceivedAt (ctx s), fe_now e)
           | Some c \<Rightarrow> (Correct c (ReceivedAt (ctx s)), Now c (fe_now e)));
        let deviceTimeMs = Uint64 (take TimeDataLen (Data fr));
        raw \<leftarrow> EncodeFrame (time_frame (ms_word serverNow) (ms_word receivedAt));
        let rx = \<lparr>tl_DeviceID = DeviceID (ctx s), tl_Dir = ''rx'', tl_At = UnixMilli (fe_at e), tl_Frame = LastRaw (ctx s),
                  tl_DeviceTimeMs = sint deviceTimeMs, tl_ServerTimeMs = 0, tl_ReceivedAtMs = UnixMilli receivedAt\<rparr>;
        let tx = \<lparr>tl_DeviceID = DeviceID (ctx s), tl_Dir = ''tx'', tl_At = UnixMilli (fe_at e), tl_Frame = raw,
                  tl_DeviceTimeMs = 0, tl_ServerTimeMs = UnixMilli serverNow, tl_ReceivedAtMs = UnixMilli receivedAt\<rparr>;
        let s = s\<lparr>srv := (srv s)\<lparr>sv_timeLogs := offer tx (offer rx (sv_timeLogs (srv s)))\<rparr>\<rparr>;
        let (ok, s) = hs_Write raw s;
        Some (if ok then Inr None else Inl WriteFailed, h, s)
      })"

definition Handle65 ::
  "'k crypto_lib \<Rightarrow> frame_env \<Rightarrow> frame \<Rightarrow> Handler65 \<Rightarrow> hstate \<Rightarrow> (handler_result \<times> Handler65 \<times> hstate) option" where
  "Handle65 lib e fr h s =
     (case h_step h of
        stepWaitParam \<Rightarrow> handleParamRequest e fr h s
      | stepWaitAuth \<Rightarrow> handleAuth lib e fr h s
      | stepDone \<Rightarrow> handleHeartbeat e fr h s)"

definition IsDone :: "Handler65 \<Rightarrow> bool" where
  "IsDone h \<longleftrightarrow> h_step h = stepDone"

section \<open>Responses always encode\<close>

lemma status_frame_encodes: "EncodeFrame (status_frame code) = Some (frame_bytes (status_frame code))"
  by (simp add: EncodeFrame_eq frame_wf_def status_frame_def FrameMaxDataLen_def)

lemma time_frame_encodes: "EncodeFrame (time_frame a b) = Some (frame_bytes (time_frame a b))"
  by (simp add: EncodeFrame_eq frame_wf_def time_frame_def buildTimeResponse_def FrameMaxDataLen_def)

lemma challenge_frame_encodes:
  "GenerateChallenge rnd now = Inr c \<Longrightarrow> EncodeFrame (challenge_frame c) = Some (frame_bytes (challenge_frame c))"
  using GenerateChallenge_length by (simp add: EncodeFrame_eq frame_wf_def challenge_frame_def FrameMaxDataLen_def)

lemma sendStatus_quiet: "\<exists>s'. sendStatus code s = Some s' \<and> quiet s s'"
  by (simp add: sendStatus_def status_frame_encodes Let_def quiet_intros)

lemma sendTwoStatuses_quiet: "\<exists>s'. sendTwoStatuses code s = Some s' \<and> quiet s s'"
proof -
  obtain s1 where 1: "sendStatus StatusOK (logDebug (AuthTwoStatuses StatusOK code) s) = Some s1"
    "quiet (logDebug (AuthTwoStatuses StatusOK code) s) s1"
    using sendStatus_quiet by blast
  obtain s2 where 2: "sendStatus code s1 = Some s2" "quiet s1 s2"
    using sendStatus_quiet by blast
  have "quiet s s2"
    using quiet_trans [OF quiet_log(2) quiet_trans [OF 1(2) 2(2)]] .
  with 1(1) 2(1) show ?thesis
    by (simp add: sendTwoStatuses_def)
qed

text \<open>What the device receives, when the socket can be written.\<close>

lemma sendStatus_tx:
  assumes "sendStatus code s = Some s'" "writable s"
  shows "tx (sock s') = tx (sock s) @ [frame_bytes (status_frame code)]"
  using assms by (auto simp: sendStatus_def status_frame_encodes Let_def writable_Write)

lemma sendTwoStatuses_tx:
  assumes "sendTwoStatuses code s = Some s'" "writable s"
  shows "tx (sock s') = tx (sock s) @ [frame_bytes (status_frame StatusOK), frame_bytes (status_frame code)]"
proof -
  obtain s1 where 1: "sendStatus StatusOK (logDebug (AuthTwoStatuses StatusOK code) s) = Some s1"
    "quiet (logDebug (AuthTwoStatuses StatusOK code) s) s1"
    using sendStatus_quiet by blast
  then have "sendStatus code s1 = Some s'" "writable s1"
    using assms quietD(8) [OF 1(2)] by (auto simp: sendTwoStatuses_def)
  then show ?thesis
    using sendStatus_tx [OF 1(1)] sendStatus_tx [of code s1 s'] assms(2) by simp
qed

text \<open>A gate that refuses: an error, the handler as it was, and nothing but logs and replies.\<close>

definition refused :: "hstate \<Rightarrow> Handler65 \<Rightarrow> (handler_result \<times> Handler65 \<times> hstate) option \<Rightarrow> bool" where
  "refused s h r \<longleftrightarrow> (\<exists>err s'. r = Some (Inl err, h, s') \<and> quiet s s'
     \<and> (writable s \<longrightarrow> tx (sock s') \<noteq> [] \<and> last (tx (sock s')) \<noteq> frame_bytes (status_frame StatusAuthorized)))"

lemma status_frame_inject:
  "frame_bytes (status_frame a) = frame_bytes (status_frame b) \<longleftrightarrow> a = b"
  by (auto simp: status_frame_def frame.enc_inject frame_wf_def FrameMaxDataLen_def)

lemma refuse_refused: "quiet s0 s \<Longrightarrow> code \<noteq> StatusAuthorized \<Longrightarrow> refused s0 h (refuse code err h s)"
proof -
  assume q: "quiet s0 s" and c: "code \<noteq> StatusAuthorized"
  obtain s' where s': "sendStatus code s = Some s'" "quiet s s'"
    using sendStatus_quiet by blast
  then show ?thesis
    using quiet_trans [OF q s'(2)] sendStatus_tx [OF s'(1)] quietD(8) [OF q] c
    by (simp add: refused_def refuse_def status_frame_inject)
qed

lemma refuse_two_refused: "quiet s0 s \<Longrightarrow> code \<noteq> StatusAuthorized \<Longrightarrow> refused s0 h (refuse_two code d err h s)"
proof -
  assume q: "quiet s0 s" and c: "code \<noteq> StatusAuthorized"
  obtain s' where s': "sendTwoStatuses code s = Some s'" "quiet s s'"
    using sendTwoStatuses_quiet by blast
  then show ?thesis
    using quiet_trans [OF q s'(2)] sendTwoStatuses_tx [OF s'(1)] quietD(8) [OF q] c
    by (cases d) (simp_all add: refused_def refuse_two_def status_frame_inject quiet_logI)
qed

lemma status_not_authorized [simp]:
  "StatusSpecError \<noteq> StatusAuthorized" "StatusDataLenError \<noteq> StatusAuthorized" "StatusDataValueError \<noteq> StatusAuthorized"
  "StatusTimeoutError \<noteq> StatusAuthorized" "StatusCmdExecError \<noteq> StatusAuthorized"
  by (simp_all add: proto_consts)

section \<open>The gates of the authorization\<close>

text \<open>The signed answer is accepted.\<close>

definition auth_accepts :: "'k crypto_lib \<Rightarrow> time \<Rightarrow> frame \<Rightarrow> Handler65 \<Rightarrow> bool" where
  "auth_accepts lib now fr h \<longleftrightarrow>
     Addr fr = AddrAuthCommand \<and> expectedAuthLen \<le> length (Data fr) \<and> Data fr ! DeviceIDSize = AuthProtocolVersion
     \<and> TrimDeviceID (take DeviceIDSize (Data fr)) = h_deviceID h
     \<and> IsChallengeExpired (h_challenge h) now = Inr False
     \<and> (\<exists>k. ParsePublicKey lib (h_pubKeyPEM h) = Inr k \<and>
          VerifyPKCS1v15 lib k (Sum256 lib (h_challenge h)) (slice 15 271 (Data fr)))"

lemma handleAuth_refuses: "\<not> auth_accepts lib (fe_now e) fr h \<Longrightarrow> refused s h (handleAuth lib e fr h s)"
  unfolding handleAuth_def Let_def auth_accepts_def
  by (auto simp: expectedAuthLen_def DeviceIDSize_def not_less VerifyChallengeResponse_def
      intro!: refuse_refused refuse_two_refused quiet_intros split: sum.split bool.split option.split)

lemma handleAuth_accepts:
  assumes "auth_accepts lib (fe_now e) fr h"
  shows "\<exists>s1. (quiet s s1 \<and> sock s1 = sock s) \<and> handleAuth lib e fr h s = authorize e h s1"
proof -
  from assms obtain k where "Addr fr = AddrAuthCommand" "\<not> length (Data fr) < expectedAuthLen"
    "\<not> Data fr ! DeviceIDSize \<noteq> AuthProtocolVersion"
    "\<not> TrimDeviceID (take DeviceIDSize (Data fr)) \<noteq> h_deviceID h"
    "IsChallengeExpired (h_challenge h) (fe_now e) = Inr False" "ParsePublicKey lib (h_pubKeyPEM h) = Inr k"
    "VerifyChallengeResponse lib k (h_challenge h) (slice (DeviceIDSize + 1) (DeviceIDSize + 1 + 256) (Data fr)) = None"
    by (auto simp: auth_accepts_def VerifyChallengeResponse_def DeviceIDSize_def)
  then have "handleAuth lib e fr h s = authorize e h
      (logDebug (AuthVerifying (h_deviceID h) (h_challenge h) (slice (DeviceIDSize + 1) (DeviceIDSize + 1 + 256) (Data fr)))
      (logDebug (AuthTTLCheck (h_challenge h) (fe_at e))
      (logDebug (AuthParsed (take DeviceIDSize (Data fr)) (h_deviceID h) AuthProtocolVersion
        (slice (DeviceIDSize + 1) (DeviceIDSize + 1 + 256) (Data fr))) (logDebug (AuthReceived fr) s))))"
    unfolding handleAuth_def Let_def by simp
  then show ?thesis
    by (rule exI [of _ "logDebug _ _", OF conjI, rotated]) (simp add: quiet_intros)
qed

lemma authorize_eq:
  "\<exists>s'. authorize e h s = Some (Inr None, h\<lparr>h_step := stepDone\<rparr>, s') \<and> ctx s' = (ctx s)\<lparr>Authenticated := True\<rparr>
     \<and> sv_hub (srv s') = sv_hub (srv s) \<and> sv_logs (srv s') = sv_logs (srv s)
     \<and> sv_measurements (srv s') = sv_measurements (srv s)
     \<and> sv_db (srv s') = snd (UpdateLastSeen (fe_auth_seen e) (h_deviceID h) (sv_db (srv s)))
     \<and> (writable s \<longrightarrow> tx (sock s') = tx (sock s) @
          [frame_bytes (status_frame StatusOK), frame_bytes (status_frame StatusAuthorized)])"
proof -
  obtain s1 where s1: "sendTwoStatuses StatusAuthorized s = Some s1" "quiet s s1"
    using sendTwoStatuses_quiet by blast
  then show ?thesis
    using sendTwoStatuses_tx [OF s1(1)] quietD [OF s1(2)] by (simp add: authorize_def Let_def)
qed

section \<open>The gates of the parameter request\<close>

text \<open>A challenge is issued for the device, with its key.\<close>

definition param_accepts :: "frame_env \<Rightarrow> frame \<Rightarrow> database \<Rightarrow> string \<Rightarrow> bytes \<Rightarrow> bool" where
  "param_accepts e fr db pem challenge \<longleftrightarrow>
     Addr fr = AddrParamRequest \<and> DeviceIDSize \<le> length (Data fr)
     \<and> GetPublicKey (fe_key e) (TrimDeviceID (take DeviceIDSize (Data fr))) db = Inr pem
     \<and> IsInService (fe_service e) (TrimDeviceID (take DeviceIDSize (Data fr))) db = Inr True
     \<and> GenerateChallenge (fe_random e) (fe_now e) = Inr challenge"

text \<open>The state after the device is known: only its identifier in the context is new.\<close>

definition named :: "string \<Rightarrow> hstate \<Rightarrow> hstate" where
  "named did s = s\<lparr>ctx := (ctx s)\<lparr>DeviceID := did\<rparr>\<rparr>"

definition param_did :: "frame \<Rightarrow> string" where
  "param_did fr = TrimDeviceID (take DeviceIDSize (Data fr))"

lemma issue_challenge_cases:
  assumes "quiet s0 s"
  shows "(\<exists>err s' h'. issue_challenge e h s = Some (Inl err, h', s') \<and> h_step h' = h_step h \<and> quiet s0 s'
        \<and> (writable s \<longrightarrow> GenerateChallenge (fe_random e) (fe_now e) = Inl NonceError))
    \<or> (\<exists>challenge s'. GenerateChallenge (fe_random e) (fe_now e) = Inr challenge
        \<and> issue_challenge e h s = Some (Inr None, h\<lparr>h_challenge := challenge, h_step := stepWaitAuth\<rparr>, s') \<and> quiet s0 s'
        \<and> (writable s \<longrightarrow> tx (sock s') = tx (sock s) @ [frame_bytes (challenge_frame challenge)]))"
proof (cases "GenerateChallenge (fe_random e) (fe_now e)")
  case (Inl err)
  then have "err = NonceError"
    by (auto simp: GenerateChallenge_def split: option.splits)
  moreover have "refused s0 h (issue_challenge e h s)"
    unfolding issue_challenge_def Inl by (auto intro!: refuse_refused quiet_intros assms)
  ultimately show ?thesis
    using Inl by (auto simp: refused_def)
next
  case (Inr c)
  define s1 where "s1 = logDebug (ChallengeFrame (challenge_frame c) (frame_bytes (challenge_frame c)))
    (logDebug (ChallengeGenerated c) s)"
  have s1: "quiet s0 s1" "writable s1 \<longleftrightarrow> writable s" "sock s1 = sock s"
    by (simp_all add: s1_def assms quiet_logI)
  obtain ok s2 where w: "hs_Write (frame_bytes (challenge_frame c)) s1 = (ok, s2)"
    by fastforce
  then have s2: "quiet s0 s2" "writable s \<longrightarrow> ok \<and> tx (sock s2) = tx (sock s) @ [frame_bytes (challenge_frame c)]"
    using quiet_WriteI [OF s1(1), of "frame_bytes (challenge_frame c)"] s1
      writable_Write [of s1 "frame_bytes (challenge_frame c)"] by simp_all
  have "issue_challenge e h s = (if ok
      then Some (Inr None, h\<lparr>h_challenge := c, h_step := stepWaitAuth\<rparr>, logEvent ''message'' (ChallengeSent c) s2)
      else Some (Inl WriteFailed, h\<lparr>h_challenge := c\<rparr>, s2))"
    by (simp add: issue_challenge_def Inr challenge_frame_encodes [OF Inr] Let_def s1_def [symmetric] w)
  with Inr s2 show ?thesis
    by (auto intro: quiet_logI)
qed

lemma handleParamRequest_bad:
  assumes "\<not> (Addr fr = AddrParamRequest \<and> DeviceIDSize \<le> length (Data fr))"
  shows "refused s h (handleParamRequest e fr h s)"
  using assms unfolding handleParamRequest_def Let_def
  by (auto simp: not_less intro!: refuse_refused quiet_intros)

text \<open>
  A well-formed parameter request names the device; then either an error is reported and the
  step stays, or the challenge made is kept and sent.
\<close>

lemma handleParamRequest_cases:
  fixes s :: hstate
  assumes "Addr fr = AddrParamRequest" "DeviceIDSize \<le> length (Data fr)"
  defines "did \<equiv> param_did fr" and "db \<equiv> sv_db (srv s)"
  shows "(\<exists>err h' s'. handleParamRequest e fr h s = Some (Inl err, h', s') \<and> h_step h' = h_step h \<and> quiet (named did s) s'
        \<and> (writable s \<longrightarrow> \<not> (\<exists>pem challenge. param_accepts e fr db pem challenge)))
    \<or> (\<exists>pem challenge s'. param_accepts e fr db pem challenge
        \<and> handleParamRequest e fr h s =
            Some (Inr None, \<lparr>h_step = stepWaitAuth, h_deviceID = did, h_challenge = challenge, h_pubKeyPEM = pem\<rparr>, s')
        \<and> quiet (named did s) s'
        \<and> (writable s \<longrightarrow> tx (sock s') = tx (sock s) @ [frame_bytes (challenge_frame challenge)]))"
proof -
  define s1 where "s1 = logEvent ''auth'' (ParamRequest (Addr fr))
    (named did (logDebug (ParamDID (take DeviceIDSize (Data fr)) did) (logDebug (ParamReceived fr) s)))"
  have "\<exists>ch. srv s1 = (srv s)\<lparr>sv_logChan := ch\<rparr>"
    by (auto simp: s1_def named_def logEvent_def logDebug_def log_event_def)
  then have s1: "quiet (named did s) s1" "sv_db (srv s1) = db" "sock s1 = sock s"
    by (auto simp: s1_def quiet_def named_def db_def)
  have eq: "handleParamRequest e fr h s =
      (case GetPublicKey (fe_key e) did db of
         Inl err \<Rightarrow> do {
           s \<leftarrow> sendStatus StatusCmdExecError (logDebug (ParamNotFound did) s1);
           Some (Inl (StoreFailed err), h\<lparr>h_deviceID := did\<rparr>, logEvent ''auth'' DeniedNotFound s)
         }
       | Inr pem \<Rightarrow>
           if IsInService (fe_service e) did db \<noteq> Inr True then do {
             s \<leftarrow> sendStatus StatusCmdExecError (logDebug (ParamNotInService did) (logDebug (ParamFound did (length pem)) s1));
             Some (Inl NotInService, h\<lparr>h_deviceID := did\<rparr>, logEvent ''auth'' DeniedNotInService s)
           }
           else issue_challenge e (h\<lparr>h_deviceID := did, h_pubKeyPEM := pem\<rparr>) (logDebug (ParamFound did (length pem)) s1))"
    unfolding handleParamRequest_def Let_def did_def db_def param_did_def s1_def named_def
    using assms(1,2) by (auto split: sum.split)
  have denied: "\<exists>s'. do { s \<leftarrow> sendStatus c s2; Some (Inl err, h', logEvent t m s) } = Some (Inl err, h', s') \<and> quiet (named did s) s'"
    if "quiet (named did s) s2" for c s2 t m and err :: handler_error and h' :: Handler65
    using sendStatus_quiet [of c s2] quiet_logI(1) [OF quiet_trans [OF that]] by auto
  show ?thesis
  proof (cases "GetPublicKey (fe_key e) did db")
    case (Inl err)
    then have "\<not> (\<exists>pem challenge. param_accepts e fr db pem challenge)"
      by (simp add: param_accepts_def did_def param_did_def)
    with Inl show ?thesis
      unfolding eq using denied [OF quiet_logI(2) [OF s1(1)]] by fastforce
  next
    case (Inr pem)
    show ?thesis
    proof (cases "IsInService (fe_service e) did db = Inr True")
      case False
      then have "\<not> (\<exists>pem challenge. param_accepts e fr db pem challenge)"
        by (simp add: param_accepts_def did_def param_did_def)
      with False show ?thesis
        unfolding eq Inr using denied [OF quiet_logI(2) [OF quiet_logI(2) [OF s1(1)]]] by fastforce
    next
      case True
      let ?h = "h\<lparr>h_deviceID := did, h_pubKeyPEM := pem\<rparr>" and ?s = "logDebug (ParamFound did (length pem)) s1"
      have s2: "quiet (named did s) ?s" "sock ?s = sock s" "writable ?s \<longleftrightarrow> writable s"
        using s1 by (simp_all add: quiet_logI writable_def)
      have "handleParamRequest e fr h s = issue_challenge e ?h ?s"
        using True by (simp add: eq Inr)
      moreover have "\<not> (\<exists>pem c. param_accepts e fr db pem c)" if "GenerateChallenge (fe_random e) (fe_now e) = Inl err" for err
        using that by (simp add: param_accepts_def)
      moreover have "param_accepts e fr db pem c" if "GenerateChallenge (fe_random e) (fe_now e) = Inr c" for c
        using that True Inr assms(1,2) by (simp add: param_accepts_def did_def param_did_def)
      ultimately show ?thesis
        using issue_challenge_cases [OF s2(1), of e ?h] s2 by fastforce
    qed
  qed
qed

section \<open>Time requests and the whole handler\<close>

lemma handleHeartbeat_bad:
  "\<not> (Addr fr = AddrTimeRequest \<and> length (Data fr) = TimeDataLen) \<Longrightarrow> refused s h (handleHeartbeat e fr h s)"
  unfolding handleHeartbeat_def by (auto intro!: refuse_refused)

text \<open>The times of the answer: of the clock, or of the system without one.\<close>

definition reply_times :: "frame_env \<Rightarrow> hstate \<Rightarrow> time \<times> time" where
  "reply_times e s =
     (case sv_clock (srv s) of
        None \<Rightarrow> (fe_now e, ReceivedAt (ctx s))
      | Some c \<Rightarrow> (Correct c (fe_now e), Correct c (ReceivedAt (ctx s))))"

lemma handleHeartbeat_ok:
  fixes s :: hstate and e :: frame_env
  assumes "Addr fr = AddrTimeRequest" "length (Data fr) = TimeDataLen"
  defines "raw \<equiv> frame_bytes (time_frame (ms_word (fst (reply_times e s))) (ms_word (snd (reply_times e s))))"
  shows "\<exists>r s' tl. handleHeartbeat e fr h s = Some (r, h, s') \<and> srv s' = (srv s)\<lparr>sv_timeLogs := tl\<rparr> \<and> ctx s' = ctx s
    \<and> (r = Inr None \<or> r = Inl WriteFailed) \<and> (writable s \<longrightarrow> r = Inr None \<and> tx (sock s') = tx (sock s) @ [raw])"
proof -
  obtain s1 tl where s1: "srv s1 = (srv s)\<lparr>sv_timeLogs := tl\<rparr>" "ctx s1 = ctx s" "sock s1 = sock s"
    and eq: "handleHeartbeat e fr h s = (let (ok, s') = hs_Write raw s1 in Some (if ok then Inr None else Inl WriteFailed, h, s'))"
  proof (rule that)
    show "handleHeartbeat e fr h s =
        (let (ok, s') = hs_Write raw (s\<lparr>srv := (srv s)\<lparr>sv_timeLogs :=
             offer \<lparr>tl_DeviceID = DeviceID (ctx s), tl_Dir = ''tx'', tl_At = UnixMilli (fe_at e), tl_Frame = raw,
                    tl_DeviceTimeMs = 0, tl_ServerTimeMs = UnixMilli (fst (reply_times e s)),
                    tl_ReceivedAtMs = UnixMilli (snd (reply_times e s))\<rparr>
            (offer \<lparr>tl_DeviceID = DeviceID (ctx s), tl_Dir = ''rx'', tl_At = UnixMilli (fe_at e), tl_Frame = LastRaw (ctx s),
                    tl_DeviceTimeMs = sint (Uint64 (take TimeDataLen (Data fr))), tl_ServerTimeMs = 0,
                    tl_ReceivedAtMs = UnixMilli (snd (reply_times e s))\<rparr> (sv_timeLogs (srv s)))\<rparr>\<rparr>)
         in Some (if ok then Inr None else Inl WriteFailed, h, s'))"
      unfolding raw_def handleHeartbeat_def reply_times_def Now_def
      using assms(1,2) by (cases "sv_clock (srv s)") (simp_all add: time_frame_encodes Let_def)
  qed simp_all
  obtain ok s' where w: "hs_Write raw s1 = (ok, s')"
    by fastforce
  then have "ctx s' = ctx s1" "srv s' = srv s1"
    using hs_Write_snd [of raw s1] by simp_all
  moreover have "writable s \<longrightarrow> ok \<and> tx (sock s') = tx (sock s) @ [raw]"
    using writable_Write [of s1 raw] w s1(3) by (simp add: writable_def)
  ultimately show ?thesis
    using s1 by (auto simp: eq w)
qed

text \<open>The handler never panics, and it touches neither the hub, the file logs nor the measurements.\<close>

lemma Handle65_total:
  "\<exists>r h' s'. Handle65 lib e fr h s = Some (r, h', s') \<and> sv_hub (srv s') = sv_hub (srv s)
     \<and> sv_logs (srv s') = sv_logs (srv s) \<and> sv_measurements (srv s') = sv_measurements (srv s) \<and> (\<forall>m. r \<noteq> Inr (Some m))"
proof (cases "h_step h")
  case stepWaitParam
  show ?thesis
  proof (cases "Addr fr = AddrParamRequest \<and> DeviceIDSize \<le> length (Data fr)")
    case True
    with handleParamRequest_cases [of fr e h s] show ?thesis
      by (auto simp: Handle65_def stepWaitParam named_def dest!: quiet_shared)
  next
    case False
    from handleParamRequest_bad [OF this, of s h e] show ?thesis
      by (auto simp: Handle65_def stepWaitParam refused_def dest!: quiet_shared)
  qed
next
  case stepWaitAuth
  show ?thesis
  proof (cases "auth_accepts lib (fe_now e) fr h")
    case True
    then obtain s1 where "quiet s s1" "handleAuth lib e fr h s = authorize e h s1"
      using handleAuth_accepts by blast
    then show ?thesis
      using authorize_eq [of e h s1] by (auto simp: Handle65_def stepWaitAuth dest!: quiet_shared)
  next
    case False
    from handleAuth_refuses [OF this, of s] show ?thesis
      by (auto simp: Handle65_def stepWaitAuth refused_def dest!: quiet_shared)
  qed
next
  case stepDone
  show ?thesis
  proof (cases "Addr fr = AddrTimeRequest \<and> length (Data fr) = TimeDataLen")
    case True
    with handleHeartbeat_ok [of fr e h s] show ?thesis
      by (fastforce simp: Handle65_def stepDone)
  next
    case False
    from handleHeartbeat_bad [OF this, of s h e] show ?thesis
      by (auto simp: Handle65_def stepDone refused_def dest!: quiet_shared)
  qed
qed

lemma Handle65_shared:
  "Handle65 lib e fr h s = Some (r, h', s') \<Longrightarrow> sv_hub (srv s') = sv_hub (srv s) \<and> sv_logs (srv s') = sv_logs (srv s)
     \<and> sv_measurements (srv s') = sv_measurements (srv s) \<and> (\<forall>m. r \<noteq> Inr (Some m))"
  using Handle65_total [of lib e fr h s] by auto

text \<open>What a frame can do to the state of the authorization, step by step.\<close>

lemma Handle65_step:
  assumes "Handle65 lib e fr h s = Some (r, h', s')"
  shows "h_step h = stepWaitParam \<and> Authenticated (ctx s') = Authenticated (ctx s)
      \<and> (h_step h' = stepWaitParam \<or> (\<exists>pem challenge. param_accepts e fr (sv_db (srv s)) pem challenge
           \<and> h' = \<lparr>h_step = stepWaitAuth, h_deviceID = param_did fr, h_challenge = challenge, h_pubKeyPEM = pem\<rparr>
           \<and> DeviceID (ctx s') = param_did fr))
    \<or> h_step h = stepWaitAuth
      \<and> (h' = h \<and> ctx s' = ctx s
         \<or> auth_accepts lib (fe_now e) fr h \<and> h' = h\<lparr>h_step := stepDone\<rparr> \<and> ctx s' = (ctx s)\<lparr>Authenticated := True\<rparr> \<and> r = Inr None)
    \<or> h_step h = stepDone \<and> h' = h \<and> ctx s' = ctx s"
proof (cases "h_step h")
  case stepWaitParam
  have "Authenticated (ctx (named did s)) = Authenticated (ctx s)" "DeviceID (ctx (named did s)) = did" for did
    by (simp_all add: named_def)
  moreover have "handleParamRequest e fr h s = Some (r, h', s')"
    using assms stepWaitParam by (simp add: Handle65_def)
  ultimately show ?thesis
    using handleParamRequest_cases [of fr e h s] handleParamRequest_bad [of fr s h e] stepWaitParam
    by (cases "Addr fr = AddrParamRequest \<and> DeviceIDSize \<le> length (Data fr)") (auto simp: refused_def dest: quietD(1))
next
  case stepWaitAuth
  show ?thesis
  proof (cases "auth_accepts lib (fe_now e) fr h")
    case True
    then obtain s1 where s1: "quiet s s1" "handleAuth lib e fr h s = authorize e h s1"
      using handleAuth_accepts by blast
    then show ?thesis
      using assms True authorize_eq [of e h s1] quietD(1) [OF s1(1)] by (auto simp: Handle65_def stepWaitAuth)
  next
    case False
    from handleAuth_refuses [OF this, of s] assms show ?thesis
      by (auto simp: Handle65_def stepWaitAuth refused_def dest: quietD(1))
  qed
next
  case stepDone
  then show ?thesis
    using assms handleHeartbeat_ok [of fr e h s] handleHeartbeat_bad [of fr s h e]
    by (cases "Addr fr = AddrTimeRequest \<and> length (Data fr) = TimeDataLen")
      (auto simp: Handle65_def refused_def dest: quietD(1))
qed

section \<open>Properties of the authorization\<close>

lemma param_accepts_unique:
  "param_accepts e fr db pem c \<Longrightarrow> param_accepts e fr db pem' c' \<Longrightarrow> pem' = pem \<and> c' = c"
  by (simp add: param_accepts_def)

lemma ParamRequest_issues:
  assumes "param_accepts e fr (sv_db (srv s)) pem c" and "writable s"
  shows "\<exists>s'. handleParamRequest e fr h s =
        Some (Inr None, \<lparr>h_step = stepWaitAuth, h_deviceID = param_did fr, h_challenge = c, h_pubKeyPEM = pem\<rparr>, s')
      \<and> quiet (named (param_did fr) s) s' \<and> tx (sock s') = tx (sock s) @ [frame_bytes (challenge_frame c)]"
proof -
  have fr: "Addr fr = AddrParamRequest" "DeviceIDSize \<le> length (Data fr)"
    using assms(1) by (simp_all add: param_accepts_def)
  show ?thesis
    using handleParamRequest_cases [OF fr, of e h s] assms param_accepts_unique [OF assms(1)] by blast
qed

text \<open>
  A registered device in service that holds the private key gets authorized: it asks for its
  parameters, receives a challenge, and its signed answer within five minutes is accepted,
  whatever the other connections do to the shared state in between. The device receives the
  challenge frame, then the status 0x00 and the status 0x01.
\<close>

theorem handshake_completes:
  assumes "TrimDeviceID (padDeviceID did) = did"
    and "GetPublicKey (fe_key e1) did (sv_db (srv s)) = Inr pem" and "IsInService (fe_service e1) did (sv_db (srv s)) = Inr True"
    and "fe_random e1 = Some src" and "- (2 ^ 63) \<le> UnixMilli (fe_now e1)" and "UnixMilli (fe_now e1) < 2 ^ 63"
    and "fe_now e2 - UnixMilli (fe_now e1) * Millisecond \<le> 5 * Minute"
    and "ParsePublicKey lib pem = Inr k"
    and "\<And>c. length (sign c) = 256 \<and> VerifyPKCS1v15 lib k (Sum256 lib c) (sign c)" and "writable s"
  shows "\<exists>c h1 s1. Handle65 lib e1 \<lparr>Addr = AddrParamRequest, Cmd = CmdAuth, Data = padDeviceID did\<rparr> new_Handler65 s
        = Some (Inr None, h1, s1)
      \<and> tx (sock s1) = tx (sock s) @ [frame_bytes (challenge_frame c)]
      \<and> (\<forall>sv. \<exists>h2 s2. Handle65 lib e2 \<lparr>Addr = AddrAuthCommand, Cmd = CmdAuth,
            Data = padDeviceID did @ [AuthProtocolVersion] @ sign c\<rparr> h1 (s1\<lparr>srv := sv\<rparr>) = Some (Inr None, h2, s2)
          \<and> IsDone h2 \<and> Authenticated (ctx s2) \<and> DeviceID (ctx s2) = did
          \<and> tx (sock s2) = tx (sock s1) @ [frame_bytes (status_frame StatusOK), frame_bytes (status_frame StatusAuthorized)])"
proof -
  let ?fr1 = "\<lparr>Addr = AddrParamRequest, Cmd = CmdAuth, Data = padDeviceID did\<rparr>"
  obtain c where c: "GenerateChallenge (fe_random e1) (fe_now e1) = Inr c"
    using assms(4) by (simp add: GenerateChallenge_def)
  let ?fr2 = "\<lparr>Addr = AddrAuthCommand, Cmd = CmdAuth, Data = padDeviceID did @ [AuthProtocolVersion] @ sign c\<rparr>"
  let ?h1 = "\<lparr>h_step = stepWaitAuth, h_deviceID = did, h_challenge = c, h_pubKeyPEM = pem\<rparr>"
  have "param_accepts e1 ?fr1 (sv_db (srv s)) pem c" and did: "param_did ?fr1 = did"
    using assms(1-3) c by (simp_all add: param_accepts_def param_did_def)
  then obtain s1 where s1: "handleParamRequest e1 ?fr1 new_Handler65 s = Some (Inr None, ?h1, s1)"
    "quiet (named did s) s1" "tx (sock s1) = tx (sock s) @ [frame_bytes (challenge_frame c)]"
    using ParamRequest_issues [OF _ assms(10), of e1 ?fr1 pem c new_Handler65] by auto
  have w: "writable s1" "DeviceID (ctx s1) = did"
    using quietD(1,8) [OF s1(2)] assms(10) by (simp_all add: named_def writable_def)
  have "IsChallengeExpired c (fe_now e2) = Inr False"
    using ExtractTimestamp_GenerateChallenge [OF c assms(5,6)] time_Sub_gt_TTL [of "fe_now e2"] assms(7)
    by (simp add: IsChallengeExpired_def time_of_ms_def ChallengeTTL_def)
  moreover have "slice 15 271 (padDeviceID did @ [AuthProtocolVersion] @ sign c) = sign c"
    using assms(9) [of c] by (simp add: slice_def DeviceIDSize_def)
  ultimately have acc: "auth_accepts lib (fe_now e2) ?fr2 ?h1"
    using assms(1,8) assms(9) [of c] by (simp add: auth_accepts_def expectedAuthLen_def nth_append)
  have "\<exists>h2 s2. Handle65 lib e2 ?fr2 ?h1 (s1\<lparr>srv := sv\<rparr>) = Some (Inr None, h2, s2)
      \<and> IsDone h2 \<and> Authenticated (ctx s2) \<and> DeviceID (ctx s2) = did
      \<and> tx (sock s2) = tx (sock s1) @ [frame_bytes (status_frame StatusOK), frame_bytes (status_frame StatusAuthorized)]" for sv
  proof -
    obtain s2 where s2: "quiet (s1\<lparr>srv := sv\<rparr>) s2" "sock s2 = sock s1"
        "handleAuth lib e2 ?fr2 ?h1 (s1\<lparr>srv := sv\<rparr>) = authorize e2 ?h1 s2"
      using handleAuth_accepts [OF acc, of "s1\<lparr>srv := sv\<rparr>"] by auto
    moreover have "writable s2" "DeviceID (ctx s2) = did"
      using w s2(2) quietD(1) [OF s2(1)] by (simp_all add: writable_def)
    ultimately show ?thesis
      using authorize_eq [of e2 ?h1 s2] by (auto simp: Handle65_def IsDone_def)
  qed
  with s1 show ?thesis
    by (auto simp: Handle65_def new_Handler65_def)
qed

lemma trim_A: "TrimDeviceID (padDeviceID ''A'') = ''A''"
  by code_simp

lemma device_A:
  "GetPublicKey (env_at t) ''A'' db_one = Inr ''K''" "IsInService (env_at t) ''A'' db_one = Inr True"
  "ParsePublicKey plain_crypto ''K'' = Inr ()"
  by (simp_all add: GetPublicKey_def IsInService_def query_live_def env_at_def db_one_def live_def
      ParsePublicKey_def plain_crypto_def)

theorem handshake_completes_witness:
  "\<exists>c h1 s1 h2 s2. Handle65 plain_crypto (frame_env_at 0) \<lparr>Addr = AddrParamRequest, Cmd = CmdAuth, Data = padDeviceID ''A''\<rparr>
        new_Handler65 hstate_one = Some (Inr None, h1, s1)
      \<and> Handle65 plain_crypto (frame_env_at Minute) \<lparr>Addr = AddrAuthCommand, Cmd = CmdAuth,
            Data = padDeviceID ''A'' @ [AuthProtocolVersion] @ replicate 256 7\<rparr> h1 s1 = Some (Inr None, h2, s2)
      \<and> Authenticated (ctx s2) \<and> DeviceID (ctx s2) = ''A''"
proof -
  have "\<exists>c h1 s1. Handle65 plain_crypto (frame_env_at 0) \<lparr>Addr = AddrParamRequest, Cmd = CmdAuth, Data = padDeviceID ''A''\<rparr>
        new_Handler65 hstate_one = Some (Inr None, h1, s1)
      \<and> tx (sock s1) = tx (sock hstate_one) @ [frame_bytes (challenge_frame c)]
      \<and> (\<forall>sv. \<exists>h2 s2. Handle65 plain_crypto (frame_env_at Minute) \<lparr>Addr = AddrAuthCommand, Cmd = CmdAuth,
            Data = padDeviceID ''A'' @ [AuthProtocolVersion] @ replicate 256 7\<rparr> h1 (s1\<lparr>srv := sv\<rparr>) = Some (Inr None, h2, s2)
          \<and> IsDone h2 \<and> Authenticated (ctx s2) \<and> DeviceID (ctx s2) = ''A''
          \<and> tx (sock s2) = tx (sock s1) @ [frame_bytes (status_frame StatusOK), frame_bytes (status_frame StatusAuthorized)])"
    by (rule handshake_completes [where k = "()" and sign = "\<lambda>_. replicate 256 7"])
      (simp_all add: device_A trim_A frame_env_at_def hstate_one_def server_one_def UnixMilli_def duration_defs plain_crypto_def
        writable_def ParsePublicKey_def)
  then obtain c h1 s1 where 1: "Handle65 plain_crypto (frame_env_at 0) \<lparr>Addr = AddrParamRequest, Cmd = CmdAuth, Data = padDeviceID ''A''\<rparr>
        new_Handler65 hstate_one = Some (Inr None, h1, s1)"
    and 2: "\<And>sv. \<exists>h2 s2. Handle65 plain_crypto (frame_env_at Minute) \<lparr>Addr = AddrAuthCommand, Cmd = CmdAuth,
            Data = padDeviceID ''A'' @ [AuthProtocolVersion] @ replicate 256 7\<rparr> h1 (s1\<lparr>srv := sv\<rparr>) = Some (Inr None, h2, s2)
          \<and> IsDone h2 \<and> Authenticated (ctx s2) \<and> DeviceID (ctx s2) = ''A''"
    by blast
  have "s1\<lparr>srv := srv s1\<rparr> = s1"
    by simp
  with 1 2 [of "srv s1"] show ?thesis
    by auto
qed

text \<open>
  C7: In the step that waits for the signed answer, a connection becomes authenticated exactly when
  the frame has the right specifier, length and protocol version, names the device that asked,
  and carries a signature of the unexpired challenge under the key read for that device; exactly
  then the last reply is the status 0x01. Otherwise the handler reports an error, keeps its state
  and changes nothing in the database.
\<close>

theorem authorized_reply_iff:
  assumes "Handle65 lib e fr h s = Some (r, h', s')" and "h_step h = stepWaitAuth"
    and "\<not> Authenticated (ctx s)" and "writable s"
  shows "(Authenticated (ctx s') \<longleftrightarrow> auth_accepts lib (fe_now e) fr h)
    \<and> (last (tx (sock s')) = frame_bytes (status_frame StatusAuthorized) \<longleftrightarrow> Authenticated (ctx s'))
    \<and> (if Authenticated (ctx s') then r = Inr None \<and> IsDone h'
       else (\<exists>err. r = Inl err) \<and> h' = h \<and> sv_db (srv s') = sv_db (srv s))"
proof (cases "auth_accepts lib (fe_now e) fr h")
  case True
  then obtain s1 where s1: "quiet s s1" "sock s1 = sock s" "handleAuth lib e fr h s = authorize e h s1"
    using handleAuth_accepts by blast
  then have "writable s1"
    using assms(4) by (simp add: writable_def)
  with True s1 show ?thesis
    using authorize_eq [of e h s1] assms(1,2) by (auto simp: Handle65_def IsDone_def)
next
  case False
  with handleAuth_refuses [OF this, of s] show ?thesis
    using assms by (auto simp: Handle65_def refused_def dest: quietD(1,2))
qed

theorem authorized_reply_iff_witness:
  "\<exists>r h' s'. Handle65 plain_crypto (frame_env_at 0) \<lparr>Addr = AddrAuthCommand, Cmd = CmdAuth, Data = []\<rparr>
       (new_Handler65\<lparr>h_step := stepWaitAuth\<rparr>) hstate_one = Some (r, h', s')
     \<and> \<not> Authenticated (ctx s') \<and> (\<exists>err. r = Inl err)
     \<and> last (tx (sock s')) \<noteq> frame_bytes (status_frame StatusAuthorized)"
proof -
  let ?h = "new_Handler65\<lparr>h_step := stepWaitAuth\<rparr>" and ?fr = "\<lparr>Addr = AddrAuthCommand, Cmd = CmdAuth, Data = []\<rparr>"
  obtain r h' s' where 1: "Handle65 plain_crypto (frame_env_at 0) ?fr ?h hstate_one = Some (r, h', s')"
    using Handle65_total by blast
  have "\<not> auth_accepts plain_crypto (fe_now (frame_env_at 0)) ?fr ?h"
    by (simp add: auth_accepts_def expectedAuthLen_def)
  then show ?thesis
    using authorized_reply_iff [OF 1] 1 by (simp add: hstate_one_def writable_def)
qed

text \<open>
  C39: After the authorization a time request with eight bytes of data is answered with one frame
  0x67 whose data decode to the server's time and the time of reception in milliseconds, both on
  the scale of the clock; the connection, the handler and the database stay as they are.
\<close>

theorem heartbeat_reply:
  assumes "h_step h = stepDone" and "Addr fr = AddrTimeRequest" and "length (Data fr) = 8" and "writable s"
  shows "\<exists>s' raw d. Handle65 lib e fr h s = Some (Inr None, h, s') \<and> tx (sock s') = tx (sock s) @ [raw]
    \<and> DecodeFrame raw = Inr \<lparr>Addr = AddrTimeResponse, Cmd = CmdAuth, Data = d\<rparr> \<and> length d = 16
    \<and> Uint64 (take 8 d) = ms_word (case sv_clock (srv s) of None \<Rightarrow> fe_now e | Some c \<Rightarrow> Correct c (fe_now e))
    \<and> Uint64 (drop 8 d) = ms_word (case sv_clock (srv s) of None \<Rightarrow> ReceivedAt (ctx s) | Some c \<Rightarrow> Correct c (ReceivedAt (ctx s)))
    \<and> sv_db (srv s') = sv_db (srv s) \<and> ctx s' = ctx s"
proof -
  let ?t = "reply_times e s"
  let ?f = "time_frame (ms_word (fst ?t)) (ms_word (snd ?t))"
  obtain s' tl where s': "handleHeartbeat e fr h s = Some (Inr None, h, s')" "srv s' = (srv s)\<lparr>sv_timeLogs := tl\<rparr>"
    "ctx s' = ctx s" "tx (sock s') = tx (sock s) @ [frame_bytes ?f]"
    using handleHeartbeat_ok [of fr e h s] assms by (auto simp: TimeDataLen_def)
  have "DecodeFrame (frame_bytes ?f) = Inr ?f"
    using time_frame_encodes by (simp add: DecodeFrame_eq_Inr)
  moreover have "Data ?f = PutUint64 (ms_word (fst ?t)) @ PutUint64 (ms_word (snd ?t))"
    by (simp add: time_frame_def buildTimeResponse_def)
  ultimately show ?thesis
    using s' assms(1)
    by (intro exI [of _ s'] exI [of _ "frame_bytes ?f"] exI [of _ "Data ?f"])
      (auto simp: Handle65_def time_frame_def le_simps reply_times_def split: option.splits)
qed

theorem heartbeat_reply_witness:
  "\<exists>s' raw d. Handle65 plain_crypto (frame_env_at Second) \<lparr>Addr = AddrTimeRequest, Cmd = CmdAuth, Data = replicate 8 0\<rparr>
       (new_Handler65\<lparr>h_step := stepDone\<rparr>) hstate_one = Some (Inr None, new_Handler65\<lparr>h_step := stepDone\<rparr>, s')
     \<and> tx (sock s') = [raw] \<and> DecodeFrame raw = Inr \<lparr>Addr = AddrTimeResponse, Cmd = CmdAuth, Data = d\<rparr>
     \<and> Uint64 (take 8 d) = 1000"
  using heartbeat_reply [of "new_Handler65\<lparr>h_step := stepDone\<rparr>"
      "\<lparr>Addr = AddrTimeRequest, Cmd = CmdAuth, Data = replicate 8 0\<rparr>" hstate_one plain_crypto "frame_env_at Second"]
  by (auto simp: hstate_one_def server_one_def frame_env_at_def ms_word_def UnixMilli_def duration_defs writable_def)

end
