(* ===== verification/Dispatch.thy ===== *)
theory Dispatch
  imports Cmd59 Cmd65
begin

text \<open>
  The command registry (\<^verbatim>\<open>src/internal/cmd/registry.go\<close>) and the middleware chain
  (\<^verbatim>\<open>src/internal/tcp/middleware.go\<close>). A command handler of the interface \<^verbatim>\<open>CmdHandler\<close> is a value
  of a type of handler states together with a function that processes a frame; middleware maps such
  functions to such functions. A factory always makes the same zero value, so the registry maps a
  command byte to that value. The handlers of the two command packages are the constructors of
  \<open>cmd_handler\<close>.
\<close>

type_synonym 'h handle_fun = "frame \<Rightarrow> 'h \<Rightarrow> hstate \<Rightarrow> (handler_result \<times> 'h \<times> hstate) option"

section \<open>Registry\<close>

text \<open>A duplicate registration panics.\<close>

definition Register :: "byte \<Rightarrow> 'h \<Rightarrow> (byte \<times> 'h) list \<Rightarrow> (byte \<times> 'h) list option" where
  "Register cmd factory reg =
     (if map_of reg cmd \<noteq> None then None else Some (AList.update cmd factory reg))"

definition GetAll :: "(byte \<times> 'h) list \<Rightarrow> (byte \<times> 'h) list" where
  "GetAll reg = fold (\<lambda>(k, v) m. AList.update k v m) reg []"

definition Has :: "byte \<Rightarrow> (byte \<times> 'h) list \<Rightarrow> bool" where
  "Has cmd reg = (map_of reg cmd \<noteq> None)"

section \<open>Middleware\<close>

definition authGateHandler :: "'h handle_fun \<Rightarrow> 'h handle_fun" where
  "authGateHandler next fr h s =
     (if \<not> Authenticated (ctx s) \<and> Cmd fr \<noteq> CmdAuth then Some (Inr None, h, s) else next fr h s)"

text \<open>The logging handler only writes to the standard log, which is not modelled.\<close>

definition loggingHandler :: "'h handle_fun \<Rightarrow> 'h handle_fun" where
  "loggingHandler next fr h s = do { (msg, h, s) \<leftarrow> next fr h s; Some (msg, h, s) }"

text \<open>The loop over the middleware from the last to the first.\<close>

definition Pipeline :: "'h handle_fun \<Rightarrow> ('h handle_fun \<Rightarrow> 'h handle_fun) list \<Rightarrow> 'h handle_fun" where
  "Pipeline handler mws = fold (\<lambda>mw h. mw h) (rev mws) handler"

section \<open>The handlers of the program\<close>

datatype cmd_handler = AuthHandler Handler65 | RegularHandler

definition Handle_cmd :: "'k crypto_lib \<Rightarrow> frame_env \<Rightarrow> cmd_handler handle_fun" where
  "Handle_cmd lib e fr h s =
     (case h of
        AuthHandler a \<Rightarrow> do { (r, a, s) \<leftarrow> Handle65 lib e fr a s; Some (r, AuthHandler a, s) }
      | RegularHandler \<Rightarrow> (let (r, s) = Handle59 e fr s in Some (r, RegularHandler, s)))"

text \<open>The registrations of the two \<^verbatim>\<open>init\<close> functions, in the order of their packages.\<close>

definition init_registry :: "(byte \<times> cmd_handler) list option" where
  "init_registry = do {
     reg \<leftarrow> Register CmdRegular RegularHandler [];
     Register CmdAuth (AuthHandler new_Handler65) reg
   }"

definition handlers_of_program :: "(byte \<times> cmd_handler) list" where
  "handlers_of_program = (case init_registry of None \<Rightarrow> [] | Some reg \<Rightarrow> GetAll reg)"

section \<open>Facts\<close>

lemma GetAll_lookup: "distinct (map fst reg) \<Longrightarrow> map_of (GetAll reg) = map_of reg"
proof -
  have "map_of (fold (\<lambda>(k, v) m. AList.update k v m) reg m) = map_of m ++ map_of (rev reg)" for m
    by (induction reg arbitrary: m) (auto simp: update_conv' map_add_def fun_eq_iff split: option.splits)
  then show "distinct (map fst reg) \<Longrightarrow> map_of (GetAll reg) = map_of reg"
    by (simp add: GetAll_def map_of_inject_set rev_map [symmetric])
qed

lemma Register_lookup:
  "Register cmd h reg = Some reg' \<Longrightarrow> map_of reg' = (map_of reg)(cmd \<mapsto> h) \<and> map_of reg cmd = None"
  by (auto simp: Register_def update_conv' split: if_splits)

lemma init_registry_eq: "init_registry = Some [(CmdRegular, RegularHandler), (CmdAuth, AuthHandler new_Handler65)]"
  by (simp add: init_registry_def Register_def proto_consts)

lemma handlers_of_program_lookup:
  "map_of handlers_of_program =
     [CmdRegular \<mapsto> RegularHandler, CmdAuth \<mapsto> AuthHandler new_Handler65]"
  by (simp add: handlers_of_program_def init_registry_eq GetAll_def proto_consts fun_eq_iff)

lemma loggingHandler_eq [simp]: "loggingHandler next = next"
  by (auto simp: loggingHandler_def fun_eq_iff bind_eq_None_conv split: Option.bind_split)

lemma Pipeline_eq: "Pipeline handler mws = foldr (\<lambda>mw h. mw h) mws handler"
  by (simp add: Pipeline_def foldr_conv_fold)

end
