(* ===== verification/Frame_Reader.thy ===== *)
theory Frame_Reader
  imports Wire_Frame
begin

text \<open>
  Reading frames off a connection (\<^verbatim>\<open>FrameReader\<close> of \<^verbatim>\<open>src/internal/tcp/crypto_server.go\<close>). The
  buffered reader is the list of bytes the peer will still deliver and the error that
  ends them (end of stream, a read deadline, a broken connection). \<open>ReadFrame\<close> skips to
  the preamble, reads the header, the data and the checksum, and decodes the result;
  every error path of the source is a constructor of \<open>read_error\<close>. \<open>ReadFrames\<close> is the
  sequence of reads the connection loop makes. The facts: a frame is delivered exactly
  when the stream holds its encoding behind bytes that are no preamble, and a stream of
  encoded frames with such noise between them is delivered frame by frame.
\<close>

section \<open>The byte stream\<close>

datatype io_error = EOF | UnexpectedEOF | IOTimeout | ConnBroken

record stream =
  rd_buf :: bytes
  rd_end :: io_error

text \<open>\<^verbatim>\<open>io.ReadFull\<close>: end of stream in the middle of a buffer is \<^verbatim>\<open>ErrUnexpectedEOF\<close>.\<close>

definition ReadFull :: "nat \<Rightarrow> stream \<Rightarrow> (io_error + bytes) \<times> stream" where
  "ReadFull n s =
     (if n \<le> length (rd_buf s) then (Inr (take n (rd_buf s)), s\<lparr>rd_buf := drop n (rd_buf s)\<rparr>)
      else (Inl (if rd_end s = EOF \<and> rd_buf s \<noteq> [] then UnexpectedEOF else rd_end s),
            s\<lparr>rd_buf := []\<rparr>))"

text \<open>The errors of \<^verbatim>\<open>ReadFrame\<close>: each I/O error is wrapped by the stage it happened in.\<close>

datatype read_error =
    ReadPreamble io_error
  | ReadHeader io_error
  | DataLenExceedsMax nat
  | ReadDataCRC io_error
  | BadFrame frame_error

text \<open>The loop that skips to the preamble: the bytes behind the first \<^verbatim>\<open>$\<close>.\<close>

fun scan_preamble :: "bytes \<Rightarrow> bytes option" where
  "scan_preamble [] = None"
| "scan_preamble (b # bs) = (if b = FramePreamble then Some bs else scan_preamble bs)"

definition ReadFrame :: "stream \<Rightarrow> (read_error + frame \<times> bytes) \<times> stream" where
  "ReadFrame s =
     (case scan_preamble (rd_buf s) of
        None \<Rightarrow> (Inl (ReadPreamble (rd_end s)), s\<lparr>rd_buf := []\<rparr>)
      | Some bs \<Rightarrow>
          (case ReadFull 4 (s\<lparr>rd_buf := bs\<rparr>) of
             (Inl e, s1) \<Rightarrow> (Inl (ReadHeader e), s1)
           | (Inr header, s1) \<Rightarrow>
               (let addr = header ! 0; cmd = header ! 1; dataLen = Uint16 (slice 2 4 header) in
                if unat dataLen > FrameMaxDataLen
                then (Inl (DataLenExceedsMax (unat dataLen)), s1)
                else
                  (case ReadFull (unat dataLen + 1) s1 of
                     (Inl e, s2) \<Rightarrow> (Inl (ReadDataCRC e), s2)
                   | (Inr rest, s2) \<Rightarrow>
                       (let full = [FramePreamble, addr, cmd] @ PutUint16 dataLen
                                   @ take (unat dataLen) rest @ [rest ! unat dataLen] in
                        case DecodeFrame full of
                          Inl e \<Rightarrow> (Inl (BadFrame e), s2)
                        | Inr f \<Rightarrow> (Inr (f, full), s2))))))"

section \<open>One read\<close>

lemma scan_preamble_Some:
  "scan_preamble bs = Some cs \<longleftrightarrow> (\<exists>junk. FramePreamble \<notin> set junk \<and> bs = junk @ FramePreamble # cs)"
proof (induction bs)
  case Nil
  then show ?case by simp
next
  case (Cons b bs)
  show ?case
  proof (cases "b = FramePreamble")
    case True
    then show ?thesis
      by (auto simp: Cons_eq_append_conv)
  next
    case False
    have "(\<exists>junk. FramePreamble \<notin> set junk \<and> b # bs = junk @ FramePreamble # cs)
      \<longleftrightarrow> (\<exists>junk. FramePreamble \<notin> set junk \<and> bs = junk @ FramePreamble # cs)"
      using False by (auto simp: Cons_eq_append_conv intro: exI [of _ "b # _"])
    with False Cons show ?thesis by simp
  qed
qed

lemma ReadFull_Inr:
  "ReadFull n s = (Inr bs, s') \<longleftrightarrow>
     length bs = n \<and> rd_buf s = bs @ rd_buf s' \<and> rd_end s' = rd_end s"
  by (cases s; cases s') (auto simp: ReadFull_def append_eq_conv_conj)

lemma ReadFull_append [simp]:
  "length bs = n \<Longrightarrow> ReadFull n (s\<lparr>rd_buf := bs @ rest\<rparr>) = (Inr bs, s\<lparr>rd_buf := rest\<rparr>)"
  by (simp add: ReadFull_def)

lemma ReadFrame_delivers:
  assumes raw: "EncodeFrame f = Some raw" and junk: "FramePreamble \<notin> set junk"
    and buf: "rd_buf s = junk @ raw @ rest"
  shows "ReadFrame s = (Inr (f, raw), s\<lparr>rd_buf := rest\<rparr>)"
proof -
  let ?n = "length (Data f)"
  let ?crc = "xor_all (frame_header f @ Data f)"
  let ?hdr = "[Addr f, Cmd f] @ PutUint16 (of_nat ?n)"
  have wf: "frame_wf f" and bytes: "raw = frame_bytes f"
    using raw by (auto simp: EncodeFrame_eq split: if_splits)
  have split: "raw = FramePreamble # ?hdr @ (Data f @ [?crc])"
    by (simp add: bytes frame_bytes_def frame_header_def)
  have scan: "scan_preamble (rd_buf s) = Some (?hdr @ (Data f @ [?crc]) @ rest)"
    using junk by (auto simp: scan_preamble_Some buf split)
  have dl: "Uint16 (slice 2 4 ?hdr) = of_nat ?n" "unat (of_nat ?n :: u16) = ?n"
    using frame_wf_length16 [OF wf] by (simp_all add: slice_def le_simps)
  have dec: "DecodeFrame raw = Inr f"
    using raw by (simp add: DecodeFrame_eq_Inr)
  have read1: "ReadFull 4 (s\<lparr>rd_buf := ?hdr @ (Data f @ [?crc]) @ rest\<rparr>)
      = (Inr ?hdr, s\<lparr>rd_buf := (Data f @ [?crc]) @ rest\<rparr>)"
    by (rule ReadFull_append) simp
  have read2: "ReadFull (?n + 1) (s\<lparr>rd_buf := (Data f @ [?crc]) @ rest\<rparr>)
      = (Inr (Data f @ [?crc]), s\<lparr>rd_buf := rest\<rparr>)"
    by (rule ReadFull_append) simp
  have small: "\<not> ?n > FrameMaxDataLen"
    using wf by (simp add: frame_wf_def)
  have full: "[FramePreamble, Addr f, Cmd f] @ PutUint16 (of_nat ?n) @ Data f @ [?crc] = raw"
    by (simp add: split)
  show ?thesis
    unfolding ReadFrame_def scan option.case read1 prod.case sum.case Let_def dl
    using small read2 full dec by simp
qed

lemma ReadFrame_sound:
  assumes "ReadFrame s = (Inr (f, raw), s')"
  shows "EncodeFrame f = Some raw \<and> rd_end s' = rd_end s \<and>
    (\<exists>junk. FramePreamble \<notin> set junk \<and> rd_buf s = junk @ raw @ rd_buf s')"
proof -
  from assms obtain bs where scan: "scan_preamble (rd_buf s) = Some bs"
    by (auto simp: ReadFrame_def split: option.splits)
  obtain r1 s1 where r1: "ReadFull 4 (s\<lparr>rd_buf := bs\<rparr>) = (r1, s1)"
    by fastforce
  from assms scan r1 obtain header where "r1 = Inr header"
    by (cases r1) (auto simp: ReadFrame_def)
  with r1 have h: "length header = 4" "bs = header @ rd_buf s1" "rd_end s1 = rd_end s"
    by (simp_all add: ReadFull_Inr)
  let ?dl = "Uint16 (slice 2 4 header)"
  obtain r2 s2 where r2: "ReadFull (unat ?dl + 1) s1 = (r2, s2)"
    by fastforce
  let ?full = "\<lambda>rest. [FramePreamble, header ! 0, header ! 1] @ PutUint16 ?dl
      @ take (unat ?dl) rest @ [rest ! unat ?dl]"
  from assms scan r1 \<open>r1 = Inr header\<close> r2 obtain rest where "r2 = Inr rest"
    and dec: "DecodeFrame (?full rest) = Inr f" and raw: "raw = ?full rest" and s': "s' = s2"
    by (cases r2) (auto simp: ReadFrame_def Let_def split: if_splits sum.splits)
  with r2 have rest: "length rest = unat ?dl + 1" "rd_buf s1 = rest @ rd_buf s2" "rd_end s2 = rd_end s1"
    by (simp_all add: ReadFull_Inr)
  have "take (unat ?dl) rest @ [rest ! unat ?dl] = rest"
    using rest(1) by (simp add: take_Suc_conv_app_nth [symmetric])
  moreover have "[header ! 0, header ! 1] @ PutUint16 ?dl = header"
  proof -
    have "PutUint16 ?dl = slice 2 4 header"
      using h(1) by (simp add: PutUint16_Uint16)
    moreover have "[header ! 0, header ! 1] = take 2 header"
      using h(1) by (auto simp: take_Suc_conv_app_nth numeral_eq_Suc)
    ultimately show ?thesis
      using h(1) by (simp add: slice_def)
  qed
  ultimately have "raw = FramePreamble # header @ rest"
    using raw by simp
  moreover from scan obtain junk where "FramePreamble \<notin> set junk"
    and "rd_buf s = junk @ FramePreamble # bs"
    by (auto simp: scan_preamble_Some)
  moreover have "EncodeFrame f = Some raw"
    using dec raw by (simp add: DecodeFrame_eq_Inr)
  ultimately show ?thesis
    using h rest s' by auto
qed

section \<open>The sequence of reads\<close>

lemma scan_preamble_shorter: "scan_preamble bs = Some cs \<Longrightarrow> length cs < length bs"
  by (auto simp: scan_preamble_Some)

lemma ReadFrame_shorter: "ReadFrame s = (Inr x, s') \<Longrightarrow> length (rd_buf s') < length (rd_buf s)"
  by (cases x) (auto dest!: ReadFrame_sound EncodeFrame_length simp: FrameMinLen_def)

text \<open>
  The reads of the connection loop, up to the error that ends it: the frames delivered and
  that error. Each delivered frame takes at least six bytes off the stream.
\<close>

function ReadFrames :: "stream \<Rightarrow> (frame \<times> bytes) list \<times> read_error" where
  "ReadFrames s =
     (case ReadFrame s of
        (Inl e, s') \<Rightarrow> ([], e)
      | (Inr x, s') \<Rightarrow> (let (xs, e) = ReadFrames s' in (x # xs, e)))"
  by pat_completeness auto
termination
  by (relation "measure (\<lambda>s. length (rd_buf s))") (auto dest: ReadFrame_shorter [OF sym])

declare ReadFrames.simps [simp del]

section \<open>Interface: values framed in a stream\<close>

text \<open>
  A reader over a stream in which encoded values are separated by noise it skips. The
  reader returns the next value and the stream behind it, or the error that ends the
  stream when only noise is left.
\<close>

locale framed_stream =
  fixes enc :: "'v \<Rightarrow> 'b list option"
    and noise :: "'b list \<Rightarrow> bool"
    and next_value :: "'s \<Rightarrow> ('e + 'v \<times> 'b list) \<times> 's"
    and input :: "'s \<Rightarrow> 'b list"
    and with_input :: "'b list \<Rightarrow> 's \<Rightarrow> 's"
    and drain :: "'s \<Rightarrow> ('v \<times> 'b list) list \<times> 'e"
    and at_end :: "'s \<Rightarrow> 'e"
  assumes next_delivers:
      "enc v = Some raw \<Longrightarrow> noise junk \<Longrightarrow> input s = junk @ raw @ rest
        \<Longrightarrow> next_value s = (Inr (v, raw), with_input rest s)"
    and next_end: "noise (input s) \<Longrightarrow> \<exists>s'. next_value s = (Inl (at_end s), s')"
    and input_with [simp]: "input (with_input bs s) = bs"
    and at_end_with [simp]: "at_end (with_input bs s) = at_end s"
    and drain_unfold: "drain s = (case next_value s of
        (Inl e, s') \<Rightarrow> ([], e) | (Inr x, s') \<Rightarrow> (let (xs, e) = drain s' in (x # xs, e)))"
begin

text \<open>Noise, then a value, again and again, then noise: every value is delivered, in order.\<close>

lemma drain_concat:
  assumes "\<forall>(junk, v, raw) \<in> set items. noise junk \<and> enc v = Some raw" and "noise tail"
    and "input s = concat (map (\<lambda>(junk, v, raw). junk @ raw) items) @ tail"
  shows "drain s = (map snd items, at_end s)"
  using assms(1,3)
proof (induction items arbitrary: s)
  case Nil
  with assms(2) next_end [of s] show ?case
    by (auto simp: drain_unfold [of s])
next
  case (Cons it items)
  obtain junk v raw where it: "it = (junk, v, raw)"
    by (cases it)
  let ?rest = "concat (map (\<lambda>(junk, v, raw). junk @ raw) items) @ tail"
  from Cons.prems it have "next_value s = (Inr (v, raw), with_input ?rest s)"
    by (auto intro: next_delivers [of v raw junk])
  moreover have "drain (with_input ?rest s) = (map snd items, at_end s)"
    using Cons.IH [of "with_input ?rest s"] Cons.prems(1) by simp
  ultimately show ?case
    by (simp add: drain_unfold [of s] it)
qed

end

definition stream_with :: "bytes \<Rightarrow> stream \<Rightarrow> stream" where
  "stream_with bs s = s\<lparr>rd_buf := bs\<rparr>"

definition no_preamble :: "bytes \<Rightarrow> bool" where
  "no_preamble bs \<longleftrightarrow> FramePreamble \<notin> set bs"

lemma scan_preamble_None: "scan_preamble bs = None \<longleftrightarrow> no_preamble bs"
  by (induction bs) (auto simp: no_preamble_def)

interpretation frames: framed_stream EncodeFrame no_preamble ReadFrame rd_buf stream_with ReadFrames
  "\<lambda>s. ReadPreamble (rd_end s)"
proof unfold_locales
  fix v raw junk rest and s :: stream
  assume "EncodeFrame v = Some raw" "no_preamble junk" "rd_buf s = junk @ raw @ rest"
  then show "ReadFrame s = (Inr (v, raw), stream_with rest s)"
    by (simp add: ReadFrame_delivers no_preamble_def stream_with_def)
next
  fix s :: stream
  assume "no_preamble (rd_buf s)"
  then show "\<exists>s'. ReadFrame s = (Inl (ReadPreamble (rd_end s)), s')"
    by (simp add: ReadFrame_def flip: scan_preamble_None)
qed (simp_all add: stream_with_def ReadFrames.simps [symmetric])

section \<open>Properties of the reader\<close>

text \<open>
  C10: The reader delivers frame \<open>f\<close> exactly when the stream holds the encoding of \<open>f\<close>
  behind bytes without a preamble; it then returns the bytes of that frame and leaves the
  stream right behind them.
\<close>

theorem ReadFrame_correct:
  "ReadFrame s = (Inr (f, raw), s') \<longleftrightarrow>
     EncodeFrame f = Some raw \<and> rd_end s' = rd_end s \<and>
     (\<exists>junk. FramePreamble \<notin> set junk \<and> rd_buf s = junk @ raw @ rd_buf s')"
proof
  assume "ReadFrame s = (Inr (f, raw), s')"
  then show "EncodeFrame f = Some raw \<and> rd_end s' = rd_end s \<and>
     (\<exists>junk. FramePreamble \<notin> set junk \<and> rd_buf s = junk @ raw @ rd_buf s')"
    by (rule ReadFrame_sound)
next
  assume "EncodeFrame f = Some raw \<and> rd_end s' = rd_end s \<and>
     (\<exists>junk. FramePreamble \<notin> set junk \<and> rd_buf s = junk @ raw @ rd_buf s')"
  then obtain junk where "ReadFrame s = (Inr (f, raw), s\<lparr>rd_buf := rd_buf s'\<rparr>)"
    and "rd_end s' = rd_end s"
    by (blast intro: ReadFrame_delivers)
  then show "ReadFrame s = (Inr (f, raw), s')"
    by simp
qed

text \<open>
  A stream of encoded frames, each behind any bytes without a preamble, is delivered
  frame by frame and in order; the loop ends with the stream's own error, reported as an
  error of the preamble scan.
\<close>

theorem ReadFrames_delivers_all:
  assumes "\<forall>(junk, f, raw) \<in> set items. no_preamble junk \<and> EncodeFrame f = Some raw"
    and "no_preamble tail"
    and "rd_buf s = concat (map (\<lambda>(junk, f, raw). junk @ raw) items) @ tail"
  shows "ReadFrames s = (map snd items, ReadPreamble (rd_end s))"
  using assms by (rule frames.drain_concat)

theorem ReadFrames_delivers_all_witness:
  "ReadFrames \<lparr>rd_buf = [0x00, 0x24, 0x63, 0x65, 1, 0, 1, 0x22, 0xFF], rd_end = EOF\<rparr> =
     ([(\<lparr>Addr = 0x63, Cmd = 0x65, Data = [1]\<rparr>, [0x24, 0x63, 0x65, 1, 0, 1, 0x22])], ReadPreamble EOF)"
proof -
  let ?items = "[([0x00], \<lparr>Addr = 0x63, Cmd = 0x65, Data = [1]\<rparr>, [0x24, 0x63, 0x65, 1, 0, 1, 0x22])]"
  have enc: "EncodeFrame \<lparr>Addr = 0x63, Cmd = 0x65, Data = [1]\<rparr> = Some [0x24, 0x63, 0x65, 1, 0, 1, 0x22]"
    by code_simp
  have "no_preamble [0x00]" "no_preamble [0xFF]"
    by code_simp+
  then show ?thesis
    using ReadFrames_delivers_all [of ?items "[0xFF]"
        "\<lparr>rd_buf = [0x00, 0x24, 0x63, 0x65, 1, 0, 1, 0x22, 0xFF], rd_end = EOF\<rparr>"] enc
    by simp
qed

end
