(* ===== verification/Connection.thy ===== *)
theory Connection
  imports Dispatch Frame_Reader
begin

text \<open>
  One TCP connection (\<^verbatim>\<open>handleConnection\<close> of \<^verbatim>\<open>src/internal/tcp/crypto_server.go\<close>): its local
  variables are the record \<open>connection\<close>, and the body of its read loop for a frame that was read is
  \<open>handle_frame\<close>, on the local variables and the shared server. The handlers are a parameter, the
  function of the interface \<^verbatim>\<open>CmdHandler\<close> and the registry of initial values. Reading frames is
  theory Frame_Reader. The goroutine that forwards hub messages to the socket is \<open>forward\<close>. Between
  two frames of a connection other goroutines may change the shared server in any way; the trace
  of a connection therefore has for every frame the server it met.
\<close>

section \<open>State\<close>

record 'h connection =
  cn_ctx :: CmdContext
  cn_sock :: conn
  cn_handlers :: "(byte \<times> 'h) list"
  cn_subscribed :: bool
  cn_sub :: "u64 option"
  cn_logsOpened :: bool

datatype outcome = Continue | Return

definition new_connection :: "(nat \<Rightarrow> bool) \<Rightarrow> 'h connection" where
  "new_connection fails =
     \<lparr>cn_ctx = \<lparr>DeviceID = [], Authenticated = False, ReceivedAt = 0, LastRaw = []\<rparr>,
      cn_sock = \<lparr>tx = [], tx_fails = fails, tx_count = 0\<rparr>, cn_handlers = [], cn_subscribed = False,
      cn_sub = None, cn_logsOpened = False\<rparr>"

definition accept_connection :: "string \<Rightarrow> server \<Rightarrow> server" where
  "accept_connection remote sv = log_event ''connect'' remote NewConnection sv"

section \<open>The body of the read loop\<close>

text \<open>The work before the dispatch: time and bytes of the frame, raw log, last-seen time, file log.\<close>

definition log_files :: "frame_env \<Rightarrow> bytes \<Rightarrow> 'h connection \<Rightarrow> server \<Rightarrow> 'h connection \<times> server" where
  "log_files e raw c sv =
     (case sv_logs sv of
        None \<Rightarrow> (c, sv)
      | Some lg \<Rightarrow>
          let did = DeviceID (cn_ctx c);
              lg = (if \<not> cn_logsOpened c then snd (Open (fe_log_open e) did lg) else lg)
          in (c\<lparr>cn_logsOpened := True\<rparr>, sv\<lparr>sv_logs := Some (LogHex (fe_log_hex e) did raw lg)\<rparr>))"

definition receive_frame :: "frame_env \<Rightarrow> bytes \<Rightarrow> 'h connection \<Rightarrow> server \<Rightarrow> 'h connection \<times> server" where
  "receive_frame e raw c sv =
     (let c = c\<lparr>cn_ctx := (cn_ctx c)\<lparr>ReceivedAt := fe_received e, LastRaw := raw\<rparr>\<rparr>;
          did = DeviceID (cn_ctx c);
          sv = log_event ''message'' did (RawFrame raw) sv
      in if Authenticated (cn_ctx c)
         then log_files e raw c (sv\<lparr>sv_db := snd (UpdateLastSeen (fe_seen e) did (sv_db sv))\<rparr>)
         else (c, sv))"

text \<open>The handler of a command: the one of this connection, else a new one of the registry.\<close>

definition resolve :: "(byte \<times> 'h) list \<Rightarrow> byte \<Rightarrow> 'h connection \<Rightarrow> 'h option" where
  "resolve reg cmd c =
     (case map_of (cn_handlers c) cmd of Some h \<Rightarrow> Some h | None \<Rightarrow> map_of reg cmd)"

definition subscribe_conn :: "'h connection \<Rightarrow> server \<Rightarrow> ('h connection \<times> server) option" where
  "subscribe_conn c sv =
     (if Authenticated (cn_ctx c) \<and> \<not> cn_subscribed c
      then do {
        (i, hb) \<leftarrow> Subscribe (DeviceID (cn_ctx c)) (sv_hub sv);
        Some (c\<lparr>cn_subscribed := True, cn_sub := Some i\<rparr>, sv\<lparr>sv_hub := hb\<rparr>)
      }
      else Some (c, sv))"

definition broadcast_message :: "message \<Rightarrow> 'h connection \<Rightarrow> server \<Rightarrow> server option" where
  "broadcast_message m c sv = do {
     let senderID = (case cn_sub c of None \<Rightarrow> 0 | Some i \<Rightarrow> i);
     (hb, res) \<leftarrow> Broadcast (WireBytes m) senderID (sv_hub sv);
     raw \<leftarrow> EncodeFrame (message_frame m);
     Some (log_event ''broadcast'' (DeviceID (cn_ctx c)) (BroadcastSent raw (Sent res) (Delivered res))
             (sv\<lparr>sv_hub := hb\<rparr>))
   }"

definition route_message :: "message option \<Rightarrow> 'h connection \<Rightarrow> server \<Rightarrow> ('h connection \<times> server) option" where
  "route_message msg c sv =
     (case msg of
        None \<Rightarrow> Some (c, sv)
      | Some m \<Rightarrow>
          (case Mode m of
             DeliverNone \<Rightarrow> Some (c, sv)
           | DeliverBroadcast \<Rightarrow> do { sv \<leftarrow> broadcast_message m c sv; Some (c, sv) }
           | DeliverUnicast \<Rightarrow> do {
               raw \<leftarrow> EncodeFrame (message_frame m);
               Some (c\<lparr>cn_sock := snd (conn_Write raw (cn_sock c))\<rparr>, sv)
             }
           | DeliverDirect \<Rightarrow> do { sv \<leftarrow> broadcast_message m c sv; Some (c, sv) }))"

definition dispatch ::
  "'h handle_fun \<Rightarrow> frame \<Rightarrow> 'h \<Rightarrow> 'h connection \<Rightarrow> server \<Rightarrow> (outcome \<times> 'h connection \<times> server) option" where
  "dispatch handle fr h c sv = do {
     (res, h, s) \<leftarrow> Pipeline handle [authGateHandler, loggingHandler] fr h
                       \<lparr>ctx = cn_ctx c, sock = cn_sock c, srv = sv\<rparr>;
     let c = c\<lparr>cn_ctx := ctx s, cn_sock := sock s, cn_handlers := AList.update (Cmd fr) h (cn_handlers c)\<rparr>;
     case res of
       Inl err \<Rightarrow> Some (if \<not> Authenticated (cn_ctx c) then Return else Continue, c, srv s)
     | Inr msg \<Rightarrow> do {
         (c, sv) \<leftarrow> subscribe_conn c (srv s);
         (c, sv) \<leftarrow> route_message msg c sv;
         Some (Continue, c, sv)
       }
   }"

definition handle_frame ::
  "(frame_env \<Rightarrow> 'h handle_fun) \<Rightarrow> (byte \<times> 'h) list \<Rightarrow> frame_env \<Rightarrow> frame \<Rightarrow> bytes \<Rightarrow> 'h connection \<Rightarrow> server
   \<Rightarrow> (outcome \<times> 'h connection \<times> server) option" where
  "handle_frame handle reg e fr raw c sv =
     (if raw = [] then None
      else let (c, sv) = receive_frame e raw c sv in
           case resolve reg (Cmd fr) c of
             None \<Rightarrow> Some (Continue, c, sv)
           | Some h \<Rightarrow> dispatch (handle e) fr h c sv)"

section \<open>The end of a connection\<close>

text \<open>
  The test \<^verbatim>\<open>err.(net.Error)\<close> looks at the error that \<^verbatim>\<open>ReadFrame\<close> returns, which is made by
  \<^verbatim>\<open>fmt.Errorf\<close> in every case and has no method \<^verbatim>\<open>Timeout\<close>.
\<close>

definition is_net_Error :: "read_error \<Rightarrow> bool" where
  "is_net_Error err \<longleftrightarrow> False"

definition read_failed :: "read_error \<Rightarrow> 'h connection \<Rightarrow> server \<Rightarrow> server" where
  "read_failed err c sv =
     log_event ''disconnect'' (DeviceID (cn_ctx c)) (if is_net_Error err then IdleTimeout else Disconnected) sv"

text \<open>The deferred calls: the file logs of the device are closed, whether this connection opened them or not.\<close>

definition end_connection :: "'h connection \<Rightarrow> server \<Rightarrow> server" where
  "end_connection c sv = sv\<lparr>sv_logs := map_option (Close (DeviceID (cn_ctx c))) (sv_logs sv)\<rparr>"

section \<open>The subscriber goroutine\<close>

text \<open>
  One pass of its loop with a message queued: the frame is written, and a failed write ends the
  goroutine. Its deferred \<^verbatim>\<open>Unsubscribe\<close> is \<open>forward_end\<close>.
\<close>

definition forward :: "u64 \<Rightarrow> conn \<Rightarrow> hub \<Rightarrow> (bool \<times> conn \<times> hub) option" where
  "forward i cn hb = do {
     (data, hb) \<leftarrow> Receive i hb;
     raw \<leftarrow> EncodeFrame (broadcast_frame data);
     let (ok, cn) = conn_Write raw cn;
     Some (ok, cn, hb)
   }"

definition forward_end :: "u64 \<Rightarrow> hub \<Rightarrow> hub option" where
  "forward_end i hb = Unsubscribe i hb"

section \<open>Traces of a connection\<close>

type_synonym frame_event = "server \<times> frame_env \<times> frame \<times> bytes"

inductive conn_trace ::
  "(frame_env \<Rightarrow> 'h handle_fun) \<Rightarrow> (byte \<times> 'h) list \<Rightarrow> frame_event list \<Rightarrow> 'h connection \<Rightarrow> bool"
  for handle reg where
  trace_new: "conn_trace handle reg [] (new_connection fails)"
| trace_frame: "conn_trace handle reg evs c \<Longrightarrow> handle_frame handle reg e fr raw c sv = Some (Continue, c', sv')
    \<Longrightarrow> conn_trace handle reg (evs @ [(sv, e, fr, raw)]) c'"
| trace_forward: "conn_trace handle reg evs c \<Longrightarrow> forward i (cn_sock c) hb = Some (ok, cn, hb')
    \<Longrightarrow> conn_trace handle reg evs (c\<lparr>cn_sock := cn\<rparr>)"

section \<open>The middleware chain\<close>

text \<open>The chain the server builds around a handler.\<close>

definition gated :: "(frame_env \<Rightarrow> 'h handle_fun) \<Rightarrow> frame_env \<Rightarrow> 'h handle_fun" where
  "gated handle e = Pipeline (handle e) [authGateHandler, loggingHandler]"

lemma gated_eq: "gated handle e fr h s =
    (if \<not> Authenticated (ctx s) \<and> Cmd fr \<noteq> CmdAuth then Some (Inr None, h, s) else handle e fr h s)"
  by (simp add: gated_def Pipeline_eq authGateHandler_def)

section \<open>Interface: command handlers\<close>

text \<open>
  What the connection relies on: a handler returns, leaves the hub to the server, hands on no more
  data than it got, and never takes an authentication back.
\<close>

locale cmd_handlers =
  fixes handle :: "frame_env \<Rightarrow> 'h handle_fun"
  assumes handle_total: "\<exists>r h' s'. handle e fr h s = Some (r, h', s')"
    and handle_hub: "handle e fr h s = Some (r, h', s') \<Longrightarrow> sv_hub (srv s') = sv_hub (srv s)"
    and handle_payload: "handle e fr h s = Some (Inr (Some m), h', s') \<Longrightarrow> length (Payload m) \<le> length (Data fr)"
    and handle_auth: "handle e fr h s = Some (r, h', s') \<Longrightarrow> Authenticated (ctx s) \<Longrightarrow> Authenticated (ctx s')"
begin

lemma gated_props:
  "\<exists>r h' s'. gated handle e fr h s = Some (r, h', s') \<and> sv_hub (srv s') = sv_hub (srv s)
     \<and> (\<forall>m. r = Inr (Some m) \<longrightarrow> length (Payload m) \<le> length (Data fr))
     \<and> (Authenticated (ctx s) \<longrightarrow> Authenticated (ctx s'))"
proof -
  obtain r h' s' where "handle e fr h s = Some (r, h', s')"
    using handle_total by blast
  then show ?thesis
    using handle_hub handle_payload handle_auth by (auto simp: gated_eq)
qed

end

lemma receive_frame_simps [simp]:
  "Authenticated (cn_ctx (fst (receive_frame e raw c sv))) = Authenticated (cn_ctx c)"
  "DeviceID (cn_ctx (fst (receive_frame e raw c sv))) = DeviceID (cn_ctx c)"
  "cn_handlers (fst (receive_frame e raw c sv)) = cn_handlers c"
  "cn_sock (fst (receive_frame e raw c sv)) = cn_sock c"
  "cn_sub (fst (receive_frame e raw c sv)) = cn_sub c"
  "cn_subscribed (fst (receive_frame e raw c sv)) = cn_subscribed c"
  "sv_hub (snd (receive_frame e raw c sv)) = sv_hub sv"
  "sv_measurements (snd (receive_frame e raw c sv)) = sv_measurements sv"
  by (simp_all add: receive_frame_def log_files_def Let_def split: option.split)

lemma receive_frame_db:
  "\<not> Authenticated (cn_ctx c) \<Longrightarrow> sv_db (snd (receive_frame e raw c sv)) = sv_db sv"
  by (simp add: receive_frame_def Let_def)

text \<open>
  What a connection needs of the hub: the only way not to return is to subscribe to a hub that was
  stopped, and identifiers do not wrap around.
\<close>

definition hub_serves :: "'h connection \<Rightarrow> server \<Rightarrow> bool" where
  "hub_serves c sv \<longleftrightarrow> hub_inv (sv_hub sv)
     \<and> (cn_subscribed c \<or> \<not> stopped (sv_hub sv) \<and> nextID (sv_hub sv) \<noteq> - 1)"

lemma subscribe_conn_total:
  assumes "hub_serves c sv"
  shows "\<exists>c' sv'. subscribe_conn c sv = Some (c', sv') \<and> hub_serves c' sv'"
proof (cases "Authenticated (cn_ctx c) \<and> \<not> cn_subscribed c")
  case True
  with assms obtain i hb where "Subscribe (DeviceID (cn_ctx c)) (sv_hub sv) = Some (i, hb)"
    by (cases "stopped (sv_hub sv)") (auto simp: hub_serves_def Subscribe_def Let_def)
  then show ?thesis
    using True assms Subscribe_inv [of "sv_hub sv" "DeviceID (cn_ctx c)"] by (simp add: subscribe_conn_def hub_serves_def)
next
  case False
  then show ?thesis
    using assms by (auto simp: subscribe_conn_def)
qed

lemma Broadcast_total: "hub_inv h \<Longrightarrow> \<exists>h' r. Broadcast data i h = Some (h', r)"
  using Broadcast_eq [of h data i] by (cases "stopped h") (auto simp: Broadcast_def)

lemma Broadcast_keeps:
  "hub_inv h \<Longrightarrow> Broadcast data i h = Some (h', r) \<Longrightarrow> nextID h' = nextID h \<and> stopped h' = stopped h"
  using Broadcast_eq [of h data i] by (cases "stopped h") (auto simp: Broadcast_def)

lemma route_message_total:
  assumes "hub_serves c sv" "\<And>m. msg = Some m \<Longrightarrow> length (Payload m) \<le> FrameMaxDataLen"
  shows "\<exists>c' sv'. route_message msg c sv = Some (c', sv') \<and> hub_serves c' sv'"
proof (cases msg)
  case (Some m)
  let ?i = "case cn_sub c of None \<Rightarrow> 0 | Some i \<Rightarrow> i"
  have inv: "hub_inv (sv_hub sv)"
    using assms(1) by (simp add: hub_serves_def)
  obtain hb r where hb: "Broadcast (WireBytes m) ?i (sv_hub sv) = Some (hb, r)"
    using Broadcast_total [OF inv] by blast
  then have "hub_inv hb" "nextID hb = nextID (sv_hub sv)" "stopped hb = stopped (sv_hub sv)"
    using Broadcast_inv [OF inv hb] Broadcast_keeps [OF inv hb] by simp_all
  moreover have "EncodeFrame (message_frame m) = Some (frame_bytes (message_frame m))"
    using assms(2) [OF Some] message_frame_wf [of m] by (simp add: EncodeFrame_eq)
  ultimately show ?thesis
    using assms(1) hb
    by (auto simp: route_message_def Some broadcast_message_def hub_serves_def Let_def split: DeliveryMode.split)
qed (use assms(1) in \<open>simp add: route_message_def\<close>)

context cmd_handlers
begin

lemma dispatch_total:
  assumes "hub_serves c sv" "frame_wf fr"
  shows "\<exists>out c' sv'. dispatch (handle e) fr h c sv = Some (out, c', sv') \<and> hub_serves c' sv'"
proof -
  obtain r h' s where g: "gated handle e fr h \<lparr>ctx = cn_ctx c, sock = cn_sock c, srv = sv\<rparr> = Some (r, h', s)"
    "sv_hub (srv s) = sv_hub sv" "\<And>m. r = Inr (Some m) \<Longrightarrow> length (Payload m) \<le> length (Data fr)"
    using gated_props [of e fr h "\<lparr>ctx = cn_ctx c, sock = cn_sock c, srv = sv\<rparr>"] by auto
  note gated = g(1) [unfolded gated_def]
  let ?c = "c\<lparr>cn_ctx := ctx s, cn_sock := sock s, cn_handlers := AList.update (Cmd fr) h' (cn_handlers c)\<rparr>"
  have ok: "hub_serves ?c (srv s)"
    using assms(1) g(2) by (simp add: hub_serves_def)
  show ?thesis
  proof (cases r)
    case (Inl err)
    then show ?thesis
      using gated ok by (simp add: dispatch_def)
  next
    case (Inr msg)
    obtain c1 sv1 where 1: "subscribe_conn ?c (srv s) = Some (c1, sv1)" "hub_serves c1 sv1"
      using subscribe_conn_total [OF ok] by blast
    have "length (Payload m) \<le> FrameMaxDataLen" if "msg = Some m" for m
      using g(3) [of m] that Inr assms(2) by (simp add: frame_wf_def)
    then obtain c2 sv2 where "route_message msg c1 sv1 = Some (c2, sv2)" "hub_serves c2 sv2"
      using route_message_total [OF 1(2), of msg] by blast
    with 1 gated Inr show ?thesis
      by (simp add: dispatch_def)
  qed
qed

lemma handle_frame_total:
  assumes "hub_serves c sv" "frame_wf fr" "raw \<noteq> []"
  shows "\<exists>out c' sv'. handle_frame handle reg e fr raw c sv = Some (out, c', sv') \<and> hub_serves c' sv'"
proof -
  obtain c1 sv1 where 1: "receive_frame e raw c sv = (c1, sv1)"
    by fastforce
  then have "hub_serves c1 sv1"
    using receive_frame_simps(6,7) [of e raw c sv] assms(1) by (simp add: hub_serves_def)
  then show ?thesis
    using assms(2,3) dispatch_total [of c1 sv1 fr] 1 by (auto simp: handle_frame_def split: option.split)
qed

text \<open>A refused command leaves the handler unasked: nothing but the context of the frame changes.\<close>

lemma handle_frame_gate:
  assumes "\<not> Authenticated (cn_ctx c)" "Cmd fr \<noteq> CmdAuth" "raw \<noteq> []"
  shows "\<exists>c' hs. handle_frame handle reg e fr raw c sv =
      Some (Continue, c', log_event ''message'' (DeviceID (cn_ctx c)) (RawFrame raw) sv)
    \<and> c' = c\<lparr>cn_ctx := (cn_ctx c)\<lparr>ReceivedAt := fe_received e, LastRaw := raw\<rparr>, cn_handlers := hs\<rparr>"
proof -
  let ?c = "c\<lparr>cn_ctx := (cn_ctx c)\<lparr>ReceivedAt := fe_received e, LastRaw := raw\<rparr>\<rparr>"
    and ?sv = "log_event ''message'' (DeviceID (cn_ctx c)) (RawFrame raw) sv"
  have 1: "receive_frame e raw c sv = (?c, ?sv)"
    using assms(1) by (simp add: receive_frame_def Let_def)
  show ?thesis
  proof (cases "resolve reg (Cmd fr) ?c")
    case None
    then have "handle_frame handle reg e fr raw c sv = Some (Continue, ?c, ?sv)"
      using assms(3) by (simp add: handle_frame_def 1)
    moreover have "?c = ?c\<lparr>cn_handlers := cn_handlers c\<rparr>"
      by simp
    ultimately show ?thesis
      by metis
  next
    case (Some h)
    have "Pipeline (handle e) [authGateHandler, loggingHandler] fr h \<lparr>ctx = cn_ctx ?c, sock = cn_sock ?c, srv = ?sv\<rparr> =
        Some (Inr None, h, \<lparr>ctx = cn_ctx ?c, sock = cn_sock ?c, srv = ?sv\<rparr>)"
      using assms(1,2) by (simp add: Pipeline_eq authGateHandler_def)
    then show ?thesis
      using Some assms(1,3)
      by (auto simp: handle_frame_def 1 dispatch_def subscribe_conn_def route_message_def Let_def)
  qed
qed

end

lemma Handle_cmd_cases:
  obtains a r a' s' where "h = AuthHandler a" "Handle65 lib e fr a s = Some (r, a', s')" "Handle_cmd lib e fr h s = Some (r, AuthHandler a', s')"
  | "h = RegularHandler" "Handle_cmd lib e fr h s = Some (fst (Handle59 e fr s), RegularHandler, snd (Handle59 e fr s))"
proof (cases h)
  case (AuthHandler a)
  then show ?thesis
    using that(1) [of a] Handle65_total [of lib e fr a s] by (auto simp: Handle_cmd_def)
qed (use that(2) in \<open>simp add: Handle_cmd_def split: prod.splits\<close>)

interpretation commands: cmd_handlers "Handle_cmd lib" for lib
proof unfold_locales
  fix e fr h s
  show "\<exists>r h' s'. Handle_cmd lib e fr h s = Some (r, h', s')"
    by (cases rule: Handle_cmd_cases [of h lib e fr s]) auto
next
  fix e fr h s r h' s'
  assume "Handle_cmd lib e fr h s = Some (r, h', s')"
  then show "sv_hub (srv s') = sv_hub (srv s)"
    by (cases rule: Handle_cmd_cases [of h lib e fr s]) (auto simp: Handle59_frame dest: Handle65_shared)
next
  fix e fr h s m h' s'
  assume "Handle_cmd lib e fr h s = Some (Inr (Some m), h', s')"
  then show "length (Payload m) \<le> length (Data fr)"
    by (cases rule: Handle_cmd_cases [of h lib e fr s])
      (auto simp: Handle59_def Let_def dest: Handle65_shared split: if_splits)
next
  fix e fr h s r h' s'
  assume "Handle_cmd lib e fr h s = Some (r, h', s')" "Authenticated (ctx s)"
  then show "Authenticated (ctx s')"
    by (cases rule: Handle_cmd_cases [of h lib e fr s]) (auto simp: Handle59_frame dest!: Handle65_step)
qed

end
