(* ===== verification/Connection_Loop.thy ===== *)
theory Connection_Loop
  imports Connection
begin

text \<open>
  The whole life of a connection (\<^verbatim>\<open>handleConnection\<close> of \<^verbatim>\<open>src/internal/tcp/crypto_server.go\<close>): the
  read loop over the bytes the peer sends, \<open>conn_loop\<close>, and around it what is done when the
  connection is accepted and when it ends, \<open>handle_connection\<close>. Frame \<open>n\<close> of the connection meets
  the inputs \<open>env n\<close>, and before it the other goroutines change the shared server by \<open>meanwhile n\<close>,
  so one definition covers every interleaving at the granularity of frames. The loop terminates
  because each frame takes bytes off the stream; it returns for every input, because no frame panics.
\<close>

section \<open>The loop\<close>

text \<open>
  The result is the error of the read that ended the loop (none when the loop was left after a
  refused authorization), the number of frames handled, the unread stream, and the state.
\<close>

function conn_loop ::
  "(frame_env \<Rightarrow> 'h handle_fun) \<Rightarrow> (byte \<times> 'h) list \<Rightarrow> (nat \<Rightarrow> server \<Rightarrow> server) \<Rightarrow> (nat \<Rightarrow> frame_env)
   \<Rightarrow> nat \<Rightarrow> stream \<Rightarrow> 'h connection \<Rightarrow> server
   \<Rightarrow> (read_error option \<times> nat \<times> stream \<times> 'h connection \<times> server) option" where
  "conn_loop handle reg meanwhile env n s c sv =
     (case ReadFrame s of
        (Inl err, _) \<Rightarrow> Some (Some err, n, s, c, meanwhile n sv)
      | (Inr (fr, raw), s') \<Rightarrow>
          (case handle_frame handle reg (env n) fr raw c (meanwhile n sv) of
             None \<Rightarrow> None
           | Some (Return, c', sv') \<Rightarrow> Some (None, Suc n, s', c', sv')
           | Some (Continue, c', sv') \<Rightarrow> conn_loop handle reg meanwhile env (Suc n) s' c' sv'))"
  by pat_completeness auto
termination
  by (relation "measure (\<lambda>(handle, reg, meanwhile, env, n, s, c, sv). length (rd_buf s))")
    (auto dest: ReadFrame_shorter [OF sym])

declare conn_loop.simps [simp del]

definition handle_connection ::
  "(frame_env \<Rightarrow> 'h handle_fun) \<Rightarrow> (byte \<times> 'h) list \<Rightarrow> (nat \<Rightarrow> server \<Rightarrow> server) \<Rightarrow> (nat \<Rightarrow> frame_env)
   \<Rightarrow> (nat \<Rightarrow> bool) \<Rightarrow> string \<Rightarrow> stream \<Rightarrow> server \<Rightarrow> ('h connection \<times> server) option" where
  "handle_connection handle reg meanwhile env fails remote s sv = do {
     (err, n, s, c, sv) \<leftarrow> conn_loop handle reg meanwhile env 0 s (new_connection fails) (accept_connection remote sv);
     let sv = (case err of None \<Rightarrow> sv | Some err \<Rightarrow> read_failed err c sv);
     Some (c, end_connection c sv)
   }"

section \<open>The loop returns\<close>

text \<open>What the other goroutines may do to the hub: they keep its invariant, do not stop it and leave identifiers.\<close>

definition hub_kept :: "(nat \<Rightarrow> server \<Rightarrow> server) \<Rightarrow> bool" where
  "hub_kept meanwhile \<longleftrightarrow> (\<forall>n sv. (hub_inv (sv_hub sv) \<longrightarrow> hub_inv (sv_hub (meanwhile n sv)))
     \<and> (\<not> stopped (sv_hub sv) \<longrightarrow> \<not> stopped (sv_hub (meanwhile n sv)))
     \<and> (nextID (sv_hub sv) \<noteq> - 1 \<longrightarrow> nextID (sv_hub (meanwhile n sv)) \<noteq> - 1))"

lemma hub_serves_meanwhile: "hub_kept meanwhile \<Longrightarrow> hub_serves c sv \<Longrightarrow> hub_serves c (meanwhile n sv)"
  by (auto simp: hub_kept_def hub_serves_def)

lemma hub_kept_none: "hub_kept (\<lambda>_ sv. sv)"
  by (simp add: hub_kept_def)

lemma ReadFrame_frame:
  assumes "ReadFrame s = (Inr (fr, raw), s')"
  shows "frame_wf fr" "raw \<noteq> []"
  using ReadFrame_sound [OF assms] by (auto dest: EncodeFrame_wf EncodeFrame_length simp: FrameMinLen_def)

context cmd_handlers
begin

lemma conn_loop_total:
  assumes "hub_kept meanwhile" "hub_serves c sv"
  shows "\<exists>err n' s' c' sv'. conn_loop handle reg meanwhile env n s c sv = Some (err, n', s', c', sv') \<and> hub_inv (sv_hub sv')"
  using assms(2)
proof (induction "length (rd_buf s)" arbitrary: n s c sv rule: less_induct)
  case less
  have ok: "hub_serves c (meanwhile n sv)"
    using hub_serves_meanwhile [OF assms(1) less.prems] .
  obtain r s' where read: "ReadFrame s = (r, s')"
    by fastforce
  show ?case
  proof (cases r)
    case (Inl err)
    then show ?thesis
      using ok read by (subst conn_loop.simps) (simp add: hub_serves_def)
  next
    case (Inr x)
    obtain fr raw where x: "x = (fr, raw)"
      by fastforce
    note read = read [unfolded Inr x]
    obtain out c' sv' where h: "handle_frame handle reg (env n) fr raw c (meanwhile n sv) = Some (out, c', sv')"
      and ok': "hub_serves c' sv'"
      using handle_frame_total [OF ok ReadFrame_frame [OF read]] by blast
    show ?thesis
    proof (cases out)
      case Return
      then show ?thesis
        using ok' read h by (subst conn_loop.simps) (simp add: hub_serves_def)
    next
      case Continue
      then show ?thesis
        using less.hyps [OF ReadFrame_shorter [OF read] ok', of "Suc n"] read h by (subst conn_loop.simps) simp
    qed
  qed
qed

end

section \<open>The loop and the traces\<close>

text \<open>Every state in which the loop can wait for a frame is the end of a trace of the connection.\<close>

lemma conn_loop_trace:
  assumes "conn_loop handle reg meanwhile env n s c sv = Some (Some err, n', s', c', sv')"
    and "conn_trace handle reg evs c"
  shows "\<exists>evs'. conn_trace handle reg (evs @ evs') c'"
  using assms
proof (induction "length (rd_buf s)" arbitrary: n s c sv evs rule: less_induct)
  case less
  obtain r s1 where read: "ReadFrame s = (r, s1)"
    by fastforce
  show ?case
  proof (cases r)
    case (Inl e)
    then have "c' = c"
      using less.prems(1) read by (subst (asm) conn_loop.simps) simp
    then show ?thesis
      using less.prems(2) by (metis append_Nil2)
  next
    case (Inr x)
    obtain fr raw where x: "x = (fr, raw)"
      by fastforce
    note read = read [unfolded Inr x]
    obtain c1 sv1 where h: "handle_frame handle reg (env n) fr raw c (meanwhile n sv) = Some (Continue, c1, sv1)"
      and l: "conn_loop handle reg meanwhile env (Suc n) s1 c1 sv1 = Some (Some err, n', s', c', sv')"
      using less.prems(1) read by (subst (asm) conn_loop.simps) (auto split: option.splits outcome.splits)
    have "conn_trace handle reg (evs @ [(meanwhile n sv, env n, fr, raw)]) c1"
      using trace_frame [OF less.prems(2) h] .
    from less.hyps [OF ReadFrame_shorter [OF read] l this] show ?thesis
      by auto
  qed
qed

lemma handle_connection_total:
  assumes "hub_kept meanwhile" and "hub_inv (sv_hub sv)" and "\<not> stopped (sv_hub sv)" and "nextID (sv_hub sv) \<noteq> - 1"
  shows "\<exists>c sv'. handle_connection (Handle_cmd lib) reg meanwhile env fails remote s sv = Some (c, sv') \<and> hub_inv (sv_hub sv')"
proof -
  have "hub_serves (new_connection fails) (accept_connection remote sv)"
    using assms(2-4) by (simp add: hub_serves_def accept_connection_def)
  then obtain err n' s' c sv' where "conn_loop (Handle_cmd lib) reg meanwhile env 0 s (new_connection fails)
      (accept_connection remote sv) = Some (err, n', s', c, sv')" "hub_inv (sv_hub sv')"
    using commands.conn_loop_total [OF assms(1)] by blast
  then show ?thesis
    by (auto simp: handle_connection_def end_connection_def read_failed_def split: option.split)
qed

section \<open>Property of whole connections\<close>



end
