(* ===== verification/Authentication.thy ===== *)
theory Authentication
  imports Connection_Loop
begin

text \<open>
  What the parts of the TCP server guarantee together: how a connection becomes authenticated, what
  it can do before, and how a data message travels from one
  device to the others. The theorems are about \<open>handle_frame\<close> and the traces of a connection with
  the handlers and the registry of the program.
\<close>

section \<open>Frames and the state of the authorization\<close>

lemma subscribe_conn_keeps:
  "subscribe_conn c sv = Some (c', sv') \<Longrightarrow> cn_ctx c' = cn_ctx c \<and> cn_handlers c' = cn_handlers c \<and> cn_sock c' = cn_sock c
     \<and> sv_db sv' = sv_db sv \<and> sv_logs sv' = sv_logs sv \<and> sv_measurements sv' = sv_measurements sv"
  by (auto simp: subscribe_conn_def bind_eq_Some_conv split: if_splits)

lemma route_message_keeps:
  "route_message msg c sv = Some (c', sv') \<Longrightarrow> cn_ctx c' = cn_ctx c \<and> cn_handlers c' = cn_handlers c
     \<and> sv_db sv' = sv_db sv \<and> sv_logs sv' = sv_logs sv \<and> sv_measurements sv' = sv_measurements sv"
  by (auto simp: route_message_def broadcast_message_def Let_def bind_eq_Some_conv split: option.splits DeliveryMode.splits)

lemma dispatch_result:
  assumes "dispatch handle fr h c sv = Some (out, c', sv')"
  obtains r h' s where "Pipeline handle [authGateHandler, loggingHandler] fr h \<lparr>ctx = cn_ctx c, sock = cn_sock c, srv = sv\<rparr> = Some (r, h', s)"
    "cn_ctx c' = ctx s" "cn_handlers c' = AList.update (Cmd fr) h' (cn_handlers c)" "sv_db sv' = sv_db (srv s)"
proof -
  obtain r h' s where g: "Pipeline handle [authGateHandler, loggingHandler] fr h \<lparr>ctx = cn_ctx c, sock = cn_sock c, srv = sv\<rparr> = Some (r, h', s)"
    using assms by (auto simp: dispatch_def bind_eq_Some_conv)
  let ?c = "c\<lparr>cn_ctx := ctx s, cn_sock := sock s, cn_handlers := AList.update (Cmd fr) h' (cn_handlers c)\<rparr>"
  show thesis
  proof (cases r)
    case (Inl err)
    then show thesis
      using assms g by (intro that [OF g]) (auto simp: dispatch_def)
  next
    case (Inr msg)
    then obtain c1 sv1 where "subscribe_conn ?c (srv s) = Some (c1, sv1)" "route_message msg c1 sv1 = Some (c', sv')"
      using assms g by (auto simp: dispatch_def bind_eq_Some_conv)
    then show thesis
      using that [OF g] by (auto dest!: subscribe_conn_keeps route_message_keeps)
  qed
qed

text \<open>The handler of the authorization command, and its state, as the next frame meets it.\<close>

abbreviation auth_handler :: "cmd_handler connection \<Rightarrow> cmd_handler option" where
  "auth_handler c \<equiv> resolve handlers_of_program CmdAuth c"

text \<open>No other command has an authorization handler.\<close>

definition one_auth :: "cmd_handler connection \<Rightarrow> bool" where
  "one_auth c \<longleftrightarrow> (\<forall>cmd b. cmd \<noteq> CmdAuth \<longrightarrow> map_of (cn_handlers c) cmd \<noteq> Some (AuthHandler b))"

lemma handle_frame_auth:
  assumes "handle_frame (Handle_cmd lib) handlers_of_program e fr raw c sv = Some (out, c', sv')"
    and "auth_handler c = Some (AuthHandler a)" and "one_auth c"
  obtains (other) "one_auth c'" "auth_handler c' = Some (AuthHandler a)"
      "Authenticated (cn_ctx c') = Authenticated (cn_ctx c)" "DeviceID (cn_ctx c') = DeviceID (cn_ctx c)"
  | (auth) a' s r s' where "one_auth c'" "auth_handler c' = Some (AuthHandler a')" "Cmd fr = CmdAuth"
      "Handle65 lib e fr a s = Some (r, a', s')" "cn_ctx c' = ctx s'"
      "Authenticated (ctx s) = Authenticated (cn_ctx c)" "DeviceID (ctx s) = DeviceID (cn_ctx c)"
      "\<not> Authenticated (cn_ctx c) \<Longrightarrow> sv_db (srv s) = sv_db sv"
proof -
  obtain c1 sv1 where 1: "receive_frame e raw c sv = (c1, sv1)"
    by fastforce
  have c1: "Authenticated (cn_ctx c1) = Authenticated (cn_ctx c)" "DeviceID (cn_ctx c1) = DeviceID (cn_ctx c)"
    "cn_handlers c1 = cn_handlers c" "\<not> Authenticated (cn_ctx c) \<Longrightarrow> sv_db sv1 = sv_db sv"
    using receive_frame_simps [of e raw c sv] receive_frame_db [of c e raw sv] 1 by simp_all
  then have res: "resolve reg cmd c1 = resolve reg cmd c" for reg cmd
    by (simp add: resolve_def)
  show thesis
  proof (cases "resolve handlers_of_program (Cmd fr) c")
    case None
    then have "c' = c1"
      using assms(1) by (auto simp: handle_frame_def 1 res split: if_splits)
    then show thesis
      using assms(2,3) c1 by (intro other) (simp_all add: res one_auth_def)
  next
    case (Some h)
    then have d: "dispatch (Handle_cmd lib e) fr h c1 sv1 = Some (out, c', sv')"
      using assms(1) by (auto simp: handle_frame_def 1 res split: if_splits)
    let ?s = "\<lparr>ctx = cn_ctx c1, sock = cn_sock c1, srv = sv1\<rparr>"
    from d obtain r h' s where g0: "Pipeline (Handle_cmd lib e) [authGateHandler, loggingHandler] fr h ?s = Some (r, h', s)"
      and c': "cn_ctx c' = ctx s" "cn_handlers c' = AList.update (Cmd fr) h' (cn_handlers c)"
      by (rule dispatch_result) (simp add: c1)
    have g: "gated (Handle_cmd lib) e fr h ?s = Some (r, h', s)"
      using g0 by (simp add: gated_def)
    have m: "map_of (cn_handlers c') = (map_of (cn_handlers c))(Cmd fr \<mapsto> h')"
      by (simp add: c' update_conv')
    show thesis
    proof (cases "Cmd fr = CmdAuth")
      case True
      then have "h = AuthHandler a"
        using Some assms(2) by simp
      moreover have "Handle_cmd lib e fr h ?s = Some (r, h', s)"
        using g True by (simp add: gated_eq)
      ultimately obtain a' where a': "h' = AuthHandler a'" "Handle65 lib e fr a ?s = Some (r, a', s)"
        by (auto simp: Handle_cmd_def bind_eq_Some_conv)
      have "one_auth c'" "auth_handler c' = Some (AuthHandler a')"
        using True m assms(3) a'(1) by (simp_all add: one_auth_def resolve_def)
      with True a'(2) c'(1) c1 show thesis
        by (intro auth [of a' ?s r s]) simp_all
    next
      case False
      then have "map_of handlers_of_program (Cmd fr) \<noteq> Some (AuthHandler b)" for b
        by (simp add: handlers_of_program_lookup)
      then have h: "h = RegularHandler"
        using Some assms(3) False by (cases h) (auto simp: one_auth_def resolve_def split: option.splits)
      have "h' = RegularHandler \<and> ctx s = cn_ctx c1"
        using g Handle59_frame(1) [of e fr ?s] by (auto simp: gated_eq Handle_cmd_def h split: if_splits prod.splits)
      then have "one_auth c'" "auth_handler c' = Some (AuthHandler a)"
        using False m assms(2,3) by (simp_all add: one_auth_def resolve_def)
      then show thesis
        using \<open>h' = RegularHandler \<and> ctx s = cn_ctx c1\<close> c'(1) c1 by (intro other) simp_all
    qed
  qed
qed

section \<open>The history of an authenticated connection\<close>

text \<open>
  At this event the server issued a challenge for the device; at this one the device answered it
  with a valid signature.
\<close>

definition challenged :: "frame_event \<Rightarrow> string \<Rightarrow> string \<Rightarrow> bytes \<Rightarrow> bool" where
  "challenged ev did pem challenge = (case ev of (sv, e, fr, raw) \<Rightarrow>
     Cmd fr = CmdAuth \<and> param_accepts e fr (sv_db sv) pem challenge \<and> param_did fr = did)"

definition answered :: "'k crypto_lib \<Rightarrow> frame_event \<Rightarrow> string \<Rightarrow> string \<Rightarrow> bytes \<Rightarrow> bool" where
  "answered lib ev did pem challenge = (case ev of (sv, e, fr, raw) \<Rightarrow>
     Cmd fr = CmdAuth \<and> auth_accepts lib (fe_now e) fr
       \<lparr>h_step = stepWaitAuth, h_deviceID = did, h_challenge = challenge, h_pubKeyPEM = pem\<rparr>)"

definition authenticated_by :: "'k crypto_lib \<Rightarrow> frame_event list \<Rightarrow> string \<Rightarrow> bool" where
  "authenticated_by lib evs did \<longleftrightarrow> (\<exists>i j pem challenge. i < j \<and> j < length evs \<and>
     challenged (evs ! i) did pem challenge \<and> answered lib (evs ! j) did pem challenge)"

lemma authenticated_by_append: "authenticated_by lib evs did \<Longrightarrow> authenticated_by lib (evs @ evs') did"
proof -
  assume "authenticated_by lib evs did"
  then obtain i j pem challenge where ij: "i < j" "j < length evs"
    "challenged (evs ! i) did pem challenge" "answered lib (evs ! j) did pem challenge"
    by (auto simp: authenticated_by_def)
  then show ?thesis
    unfolding authenticated_by_def
    by (intro exI [of _ i] exI [of _ j] exI [of _ pem] exI [of _ challenge]) (auto simp: nth_append)
qed

lemma authenticated_by_snoc:
  assumes "ev \<in> set evs" "challenged ev did pem challenge" "answered lib ev' did pem challenge"
  shows "authenticated_by lib (evs @ [ev']) did"
proof -
  obtain i where "i < length evs" "evs ! i = ev"
    using assms(1) by (auto simp: in_set_conv_nth)
  then show ?thesis
    using assms(2,3) unfolding authenticated_by_def
    by (intro exI [of _ i] exI [of _ "length evs"] exI [of _ pem] exI [of _ challenge]) (auto simp: nth_append)
qed

definition auth_inv :: "'k crypto_lib \<Rightarrow> frame_event list \<Rightarrow> cmd_handler connection \<Rightarrow> bool" where
  "auth_inv lib evs c \<longleftrightarrow> one_auth c \<and> (\<exists>a. auth_handler c = Some (AuthHandler a) \<and>
     (case h_step a of
        stepWaitParam \<Rightarrow> \<not> Authenticated (cn_ctx c)
      | stepWaitAuth \<Rightarrow> \<not> Authenticated (cn_ctx c) \<and> DeviceID (cn_ctx c) = h_deviceID a
          \<and> (\<exists>ev \<in> set evs. challenged ev (h_deviceID a) (h_pubKeyPEM a) (h_challenge a))
      | stepDone \<Rightarrow> Authenticated (cn_ctx c) \<and> authenticated_by lib evs (DeviceID (cn_ctx c))))"

lemma auth_inv_new: "auth_inv lib [] (new_connection fails)"
  by (simp add: auth_inv_def one_auth_def new_connection_def resolve_def handlers_of_program_lookup new_Handler65_def)

lemma auth_inv_cong:
  "auth_inv lib evs c \<Longrightarrow> one_auth c' \<Longrightarrow> auth_handler c' = auth_handler c \<Longrightarrow>
   Authenticated (cn_ctx c') = Authenticated (cn_ctx c) \<Longrightarrow> DeviceID (cn_ctx c') = DeviceID (cn_ctx c) \<Longrightarrow>
   auth_inv lib (evs @ evs') c'"
  by (auto simp: auth_inv_def authenticated_by_append split: authStep.splits)

lemma auth_inv_frame:
  assumes "auth_inv lib evs c"
    and "handle_frame (Handle_cmd lib) handlers_of_program e fr raw c sv = Some (out, c', sv')"
  shows "auth_inv lib (evs @ [(sv, e, fr, raw)]) c'"
proof -
  let ?ev = "(sv, e, fr, raw)"
  from assms(1) obtain a where a: "auth_handler c = Some (AuthHandler a)" and one: "one_auth c"
    by (auto simp: auth_inv_def)
  from assms(2) a one show ?thesis
  proof (cases rule: handle_frame_auth)
    case other
    then show ?thesis
      using assms(1) a by (intro auth_inv_cong [OF assms(1)]) simp_all
  next
    case (auth a' s r s')
    show ?thesis
    proof (cases "h_step a")
      case stepWaitParam
      then have un: "\<not> Authenticated (cn_ctx c)"
        using assms(1) a by (auto simp: auth_inv_def)
      have "challenged ?ev (h_deviceID a') (h_pubKeyPEM a') (h_challenge a')"
        if "param_accepts e fr (sv_db (srv s)) pem ch"
          "a' = \<lparr>h_step = stepWaitAuth, h_deviceID = param_did fr, h_challenge = ch, h_pubKeyPEM = pem\<rparr>" for pem ch
        using that auth(3,8) un by (simp add: challenged_def)
      then show ?thesis
        using Handle65_step [OF auth(4)] stepWaitParam un auth(1,2,5,6)
        by (auto simp: auth_inv_def split: authStep.splits)
    next
      case stepWaitAuth
      then have un: "\<not> Authenticated (cn_ctx c)" "DeviceID (cn_ctx c) = h_deviceID a"
        and ch: "\<exists>ev \<in> set evs. challenged ev (h_deviceID a) (h_pubKeyPEM a) (h_challenge a)"
        using assms(1) a by (auto simp: auth_inv_def)
      from Handle65_step [OF auth(4)] stepWaitAuth
      consider "a' = a" "ctx s' = ctx s"
        | "auth_accepts lib (fe_now e) fr a" "a' = a\<lparr>h_step := stepDone\<rparr>" "ctx s' = (ctx s)\<lparr>Authenticated := True\<rparr>"
        by auto
      then show ?thesis
      proof cases
        case 1
        then show ?thesis
          using auth a by (intro auth_inv_cong [OF assms(1)]) simp_all
      next
        case 2
        have "a = \<lparr>h_step = stepWaitAuth, h_deviceID = h_deviceID a, h_challenge = h_challenge a, h_pubKeyPEM = h_pubKeyPEM a\<rparr>"
          using stepWaitAuth by simp
        then have "answered lib ?ev (h_deviceID a) (h_pubKeyPEM a) (h_challenge a)"
          using 2(1) auth(3) by (simp add: answered_def)
        then have "authenticated_by lib (evs @ [?ev]) (h_deviceID a)"
          using ch authenticated_by_snoc by blast
        then show ?thesis
          using 2 auth(1,2,5,7) un by (simp add: auth_inv_def)
      qed
    next
      case stepDone
      then show ?thesis
        using Handle65_step [OF auth(4)] auth a by (intro auth_inv_cong [OF assms(1)]) auto
    qed
  qed
qed

lemma conn_trace_inv: "conn_trace (Handle_cmd lib) handlers_of_program evs c \<Longrightarrow> auth_inv lib evs c"
proof (induction rule: conn_trace.induct)
  case (trace_forward evs c i hb ok cn hb')
  then show ?case
    using auth_inv_cong [OF trace_forward.IH, of "c\<lparr>cn_sock := cn\<rparr>" "[]"]
    by (simp add: auth_inv_def one_auth_def resolve_def)
qed (auto intro: auth_inv_new auth_inv_frame)

section \<open>One frame, computed\<close>

lemma handle_frame_authorizing:
  assumes "\<not> Authenticated (cn_ctx c)" "Cmd fr = CmdAuth" "raw \<noteq> []" "auth_handler c = Some (AuthHandler a)"
    and "Handle65 lib e fr a \<lparr>ctx = (cn_ctx c)\<lparr>ReceivedAt := fe_received e, LastRaw := raw\<rparr>, sock = cn_sock c,
           srv = log_event ''message'' (DeviceID (cn_ctx c)) (RawFrame raw) sv\<rparr> = Some (Inr None, a', s')"
    and "\<not> stopped (sv_hub (srv s'))"
  shows "\<exists>c' sv'. handle_frame (Handle_cmd lib) handlers_of_program e fr raw c sv = Some (Continue, c', sv') \<and>
    cn_ctx c' = ctx s' \<and> cn_sock c' = sock s' \<and> auth_handler c' = Some (AuthHandler a') \<and> sv_db sv' = sv_db (srv s')
    \<and> stopped (sv_hub sv') = stopped (sv_hub (srv s')) \<and> cn_subscribed c' = (cn_subscribed c \<or> Authenticated (ctx s'))
    \<and> cn_sub c' = (if cn_subscribed c \<or> \<not> Authenticated (ctx s') then cn_sub c else Some (nextID (sv_hub (srv s')) + 1))"
proof -
  let ?c = "c\<lparr>cn_ctx := (cn_ctx c)\<lparr>ReceivedAt := fe_received e, LastRaw := raw\<rparr>\<rparr>"
    and ?sv = "log_event ''message'' (DeviceID (cn_ctx c)) (RawFrame raw) sv"
  have 1: "receive_frame e raw c sv = (?c, ?sv)"
    using assms(1) by (simp add: receive_frame_def Let_def)
  have 2: "resolve handlers_of_program (Cmd fr) ?c = Some (AuthHandler a)"
    using assms(2,4) by (simp add: resolve_def)
  have 3: "Pipeline (Handle_cmd lib e) [authGateHandler, loggingHandler] fr (AuthHandler a)
      \<lparr>ctx = cn_ctx ?c, sock = cn_sock ?c, srv = ?sv\<rparr> = Some (Inr None, AuthHandler a', s')"
    using assms(2,5) by (simp add: Pipeline_eq authGateHandler_def Handle_cmd_def)
  let ?c1 = "?c\<lparr>cn_ctx := ctx s', cn_sock := sock s', cn_handlers := AList.update (Cmd fr) (AuthHandler a') (cn_handlers ?c)\<rparr>"
  obtain c' sv' where 4: "subscribe_conn ?c1 (srv s') = Some (c', sv')"
    using assms(6) that by (cases "Authenticated (ctx s') \<and> \<not> cn_subscribed c") (simp_all add: subscribe_conn_def Subscribe_def Let_def)
  have "handle_frame (Handle_cmd lib) handlers_of_program e fr raw c sv = Some (Continue, c', sv')"
    using assms(3) 2 3 4 by (simp add: handle_frame_def 1 dispatch_def route_message_def)
  moreover have "stopped (sv_hub sv') = stopped (sv_hub (srv s'))" "cn_subscribed c' = (cn_subscribed c \<or> Authenticated (ctx s'))"
    "cn_sub c' = (if cn_subscribed c \<or> \<not> Authenticated (ctx s') then cn_sub c else Some (nextID (sv_hub (srv s')) + 1))"
    using 4 assms(6) by (auto simp: subscribe_conn_def Subscribe_def hub_register_def Let_def split: if_splits)
  ultimately show ?thesis
    using subscribe_conn_keeps [OF 4] assms(2) by (auto simp: resolve_def update_conv')
qed

text \<open>An accepted parameter request, and the accepted answer to its challenge, on a connection.\<close>

definition sock_writable :: "'h connection \<Rightarrow> bool" where
  "sock_writable c \<longleftrightarrow> (\<forall>n. \<not> tx_fails (cn_sock c) n)"

lemma param_frame_handled:
  assumes "\<not> Authenticated (cn_ctx c)" "auth_handler c = Some (AuthHandler new_Handler65)" "sock_writable c"
    and "\<not> stopped (sv_hub sv)" "Cmd fr = CmdAuth" "raw \<noteq> []" "param_accepts e fr (sv_db sv) pem ch"
  shows "\<exists>c' sv'. handle_frame (Handle_cmd lib) handlers_of_program e fr raw c sv = Some (Continue, c', sv')
    \<and> \<not> Authenticated (cn_ctx c') \<and> DeviceID (cn_ctx c') = param_did fr
    \<and> auth_handler c' = Some (AuthHandler \<lparr>h_step = stepWaitAuth, h_deviceID = param_did fr, h_challenge = ch, h_pubKeyPEM = pem\<rparr>)
    \<and> sock_writable c' \<and> tx (cn_sock c') = tx (cn_sock c) @ [frame_bytes (challenge_frame ch)]
    \<and> cn_subscribed c' = cn_subscribed c \<and> \<not> stopped (sv_hub sv')"
proof -
  let ?s = "\<lparr>ctx = (cn_ctx c)\<lparr>ReceivedAt := fe_received e, LastRaw := raw\<rparr>, sock = cn_sock c,
      srv = log_event ''message'' (DeviceID (cn_ctx c)) (RawFrame raw) sv\<rparr>"
  let ?a = "\<lparr>h_step = stepWaitAuth, h_deviceID = param_did fr, h_challenge = ch, h_pubKeyPEM = pem\<rparr>"
  have "writable ?s" "param_accepts e fr (sv_db (srv ?s)) pem ch"
    using assms(3,7) by (simp_all add: writable_def sock_writable_def)
  then obtain s1 where s1: "handleParamRequest e fr new_Handler65 ?s = Some (Inr None, ?a, s1)" "quiet (named (param_did fr) ?s) s1"
      "tx (sock s1) = tx (sock ?s) @ [frame_bytes (challenge_frame ch)]"
    using ParamRequest_issues by blast
  have c1: "ctx s1 = ctx (named (param_did fr) ?s)" "sv_hub (srv s1) = sv_hub sv" "writable s1"
    using quietD(1,3,8) [OF s1(2)] \<open>writable ?s\<close> by (simp_all add: named_def writable_def)
  then have "\<not> stopped (sv_hub (srv s1))" "\<not> Authenticated (ctx s1)"
    using assms(1,4) by (simp_all add: named_def)
  moreover have "Handle65 lib e fr new_Handler65 ?s = Some (Inr None, ?a, s1)"
    using s1(1) by (simp add: Handle65_def new_Handler65_def)
  ultimately show ?thesis
    using handle_frame_authorizing [OF assms(1,5,6,2), of lib e sv ?a s1] c1 s1(3)
    by (auto simp: named_def sock_writable_def writable_def)
qed

lemma auth_frame_handled:
  assumes "\<not> Authenticated (cn_ctx c)" "auth_handler c = Some (AuthHandler a)" "h_step a = stepWaitAuth" "sock_writable c"
    and "\<not> stopped (sv_hub sv)" "Cmd fr = CmdAuth" "raw \<noteq> []" "auth_accepts lib (fe_now e) fr a"
  shows "\<exists>c' sv'. handle_frame (Handle_cmd lib) handlers_of_program e fr raw c sv = Some (Continue, c', sv')
    \<and> Authenticated (cn_ctx c') \<and> DeviceID (cn_ctx c') = DeviceID (cn_ctx c) \<and> cn_subscribed c'
    \<and> cn_sub c' = (if cn_subscribed c then cn_sub c else Some (nextID (sv_hub sv) + 1))
    \<and> tx (cn_sock c') = tx (cn_sock c) @ [frame_bytes (status_frame StatusOK), frame_bytes (status_frame StatusAuthorized)]"
proof -
  let ?s = "\<lparr>ctx = (cn_ctx c)\<lparr>ReceivedAt := fe_received e, LastRaw := raw\<rparr>, sock = cn_sock c,
      srv = log_event ''message'' (DeviceID (cn_ctx c)) (RawFrame raw) sv\<rparr>"
  obtain s3 where s3: "quiet ?s s3" "sock s3 = sock ?s" "handleAuth lib e fr a ?s = authorize e a s3"
    using handleAuth_accepts [OF assms(8), of ?s] by blast
  then have "writable s3"
    using assms(4) by (simp add: writable_def sock_writable_def)
  then obtain s4 where s4: "handleAuth lib e fr a ?s = Some (Inr None, a\<lparr>h_step := stepDone\<rparr>, s4)"
    "ctx s4 = (ctx s3)\<lparr>Authenticated := True\<rparr>" "sv_hub (srv s4) = sv_hub (srv s3)"
    "tx (sock s4) = tx (cn_sock c) @ [frame_bytes (status_frame StatusOK), frame_bytes (status_frame StatusAuthorized)]"
    using authorize_eq [of e a s3] s3(2,3) by auto
  have hub: "sv_hub (srv s4) = sv_hub sv" and dev: "DeviceID (ctx s4) = DeviceID (cn_ctx c)"
    using quietD(1,3) [OF s3(1)] s4 by simp_all
  then have "\<not> stopped (sv_hub (srv s4))"
    using assms(5) by simp
  moreover have "Handle65 lib e fr a ?s = Some (Inr None, a\<lparr>h_step := stepDone\<rparr>, s4)"
    using s4(1) assms(3) by (simp add: Handle65_def)
  ultimately show ?thesis
    using handle_frame_authorizing [OF assms(1,6,7,2), of lib e sv "a\<lparr>h_step := stepDone\<rparr>" s4] s4(2,4) hub dev
    by auto
qed

text \<open>The answer that is accepted: the identifier, the version and a signature of the challenge.\<close>

lemma signed_answer_accepted:
  assumes "GenerateChallenge rnd t = Inr ch" "- (2 ^ 63) \<le> UnixMilli t" "UnixMilli t < 2 ^ 63"
    and "now - UnixMilli t * Millisecond \<le> ChallengeTTL" "TrimDeviceID (padDeviceID did) = did"
    and "ParsePublicKey lib pem = Inr k" "length sig = 256" "VerifyPKCS1v15 lib k (Sum256 lib ch) sig"
  shows "auth_accepts lib now \<lparr>Addr = AddrAuthCommand, Cmd = CmdAuth, Data = padDeviceID did @ [AuthProtocolVersion] @ sig\<rparr>
    \<lparr>h_step = stepWaitAuth, h_deviceID = did, h_challenge = ch, h_pubKeyPEM = pem\<rparr>"
proof -
  have "IsChallengeExpired ch now = Inr False"
    using ExtractTimestamp_GenerateChallenge [OF assms(1-3)] time_Sub_gt_TTL [of now] assms(4)
    by (simp add: IsChallengeExpired_def time_of_ms_def)
  moreover have "slice 15 271 (padDeviceID did @ [AuthProtocolVersion] @ sig) = sig"
    using assms(7) by (simp add: slice_def DeviceIDSize_def)
  ultimately show ?thesis
    using assms(5-8) by (simp add: auth_accepts_def expectedAuthLen_def nth_append)
qed

lemma new_connection_simps [simp]:
  "\<not> Authenticated (cn_ctx (new_connection fails))" "\<not> cn_subscribed (new_connection fails)"
  "auth_handler (new_connection fails) = Some (AuthHandler new_Handler65)" "tx (cn_sock (new_connection fails)) = []"
  "sock_writable (new_connection fails) \<longleftrightarrow> (\<forall>n. \<not> fails n)"
  by (simp_all add: new_connection_def resolve_def handlers_of_program_lookup sock_writable_def)

section \<open>Properties of connections\<close>

text \<open>
  C1: A connection is authenticated as a device only when, on this connection and in this order,
  the server read the public key of that device, found it in service and issued a challenge, and the
  device then answered with a signature of exactly this challenge that verifies under
  that key, before the challenge expired; whatever the other connections and the web interface did
  to the shared state in between.
\<close>

theorem authenticated_only_by_signature:
  assumes "conn_trace (Handle_cmd lib) handlers_of_program evs c" and "Authenticated (cn_ctx c)"
  shows "\<exists>i j sv1 e1 fr1 raw1 sv2 e2 fr2 raw2 pem challenge k.
    i < j \<and> j < length evs \<and> evs ! i = (sv1, e1, fr1, raw1) \<and> evs ! j = (sv2, e2, fr2, raw2)
    \<and> GetPublicKey (fe_key e1) (DeviceID (cn_ctx c)) (sv_db sv1) = Inr pem
    \<and> IsInService (fe_service e1) (DeviceID (cn_ctx c)) (sv_db sv1) = Inr True
    \<and> GenerateChallenge (fe_random e1) (fe_now e1) = Inr challenge
    \<and> TrimDeviceID (take 14 (Data fr2)) = DeviceID (cn_ctx c)
    \<and> IsChallengeExpired challenge (fe_now e2) = Inr False
    \<and> ParsePublicKey lib pem = Inr k \<and> VerifyPKCS1v15 lib k (Sum256 lib challenge) (slice 15 271 (Data fr2))"
proof -
  obtain a :: Handler65 where "case h_step a of stepWaitParam \<Rightarrow> False | stepWaitAuth \<Rightarrow> False
      | stepDone \<Rightarrow> authenticated_by lib evs (DeviceID (cn_ctx c))"
    using conn_trace_inv [OF assms(1)] assms(2) by (auto simp: auth_inv_def cong: authStep.case_cong)
  then have "authenticated_by lib evs (DeviceID (cn_ctx c))"
    by (cases "h_step a") simp_all
  then obtain i j pem challenge where "i < j" "j < length evs"
    "challenged (evs ! i) (DeviceID (cn_ctx c)) pem challenge" "answered lib (evs ! j) (DeviceID (cn_ctx c)) pem challenge"
    by (auto simp: authenticated_by_def)
  moreover obtain sv1 e1 fr1 raw1 sv2 e2 fr2 raw2 where "evs ! i = (sv1, e1, fr1, raw1)" "evs ! j = (sv2, e2, fr2, raw2)"
    by (metis prod_cases4)
  ultimately show ?thesis
    unfolding challenged_def answered_def param_accepts_def auth_accepts_def param_did_def DeviceIDSize_def
    by (simp only: prod.case Handler65.select_convs) metis
qed

text \<open>The sample device goes through the handshake on a fresh connection.\<close>

lemma sample_handshake:
  "\<exists>evs c. conn_trace (Handle_cmd plain_crypto) handlers_of_program evs c \<and> Authenticated (cn_ctx c)
     \<and> DeviceID (cn_ctx c) = ''A'' \<and> cn_subscribed c \<and> cn_sub c = Some 1"
proof -
  let ?fr1 = "\<lparr>Addr = AddrParamRequest, Cmd = CmdAuth, Data = padDeviceID ''A''\<rparr>"
  let ?fr2 = "\<lparr>Addr = AddrAuthCommand, Cmd = CmdAuth, Data = padDeviceID ''A'' @ [AuthProtocolVersion] @ replicate 256 7\<rparr>"
  let ?c0 = "new_connection (\<lambda>_. False) :: cmd_handler connection"
  let ?e = "frame_env_at 0" and ?lib = plain_crypto
  obtain ch where ch: "GenerateChallenge (fe_random ?e) (fe_now ?e) = Inr ch"
    by (simp add: GenerateChallenge_def frame_env_at_def)
  let ?a = "\<lparr>h_step = stepWaitAuth, h_deviceID = ''A'', h_challenge = ch, h_pubKeyPEM = ''K''\<rparr>"
  have p: "param_accepts ?e ?fr1 (sv_db server_one) ''K'' ch" "param_did ?fr1 = ''A''"
    using ch by (simp_all add: param_accepts_def param_did_def device_A trim_A frame_env_at_def server_one_def)
  have hub: "\<not> stopped (sv_hub server_one)" "nextID (sv_hub server_one) = 0"
    by (simp_all add: server_one_def hub_New_def)
  obtain c1 sv1 where c1: "handle_frame (Handle_cmd ?lib) handlers_of_program ?e ?fr1 [0] ?c0 server_one = Some (Continue, c1, sv1)"
    "\<not> Authenticated (cn_ctx c1)" "DeviceID (cn_ctx c1) = ''A''" "auth_handler c1 = Some (AuthHandler ?a)"
    "sock_writable c1" "\<not> cn_subscribed c1"
    using param_frame_handled [of ?c0 server_one ?fr1 "[0]" ?e "''K''" ch ?lib] p hub by auto
  have "auth_accepts ?lib (fe_now ?e) ?fr2 ?a"
    by (rule signed_answer_accepted [OF ch _ _ _ trim_A device_A(3)])
      (simp_all add: frame_env_at_def UnixMilli_def duration_defs ChallengeTTL_def plain_crypto_def)
  then obtain c2 sv2 where c2: "handle_frame (Handle_cmd ?lib) handlers_of_program ?e ?fr2 [0] c1 server_one = Some (Continue, c2, sv2)"
    "Authenticated (cn_ctx c2)" "DeviceID (cn_ctx c2) = ''A''" "cn_subscribed c2" "cn_sub c2 = Some 1"
    using auth_frame_handled [OF c1(2,4) _ c1(5) hub(1), of ?fr2 "[0]" ?lib ?e] c1(3,6) hub by auto
  have "conn_trace (Handle_cmd ?lib) handlers_of_program (([] @ [(server_one, ?e, ?fr1, [0])]) @ [(server_one, ?e, ?fr2, [0])]) c2"
    using trace_new c1(1) c2(1) by (blast intro: trace_frame)
  with c2 show ?thesis
    by blast
qed

theorem authenticated_only_by_signature_witness:
  "\<exists>evs c i j. conn_trace (Handle_cmd plain_crypto) handlers_of_program evs c \<and> Authenticated (cn_ctx c)
     \<and> i < j \<and> j < length evs \<and> TrimDeviceID (take 14 (Data (fst (snd (snd (evs ! j)))))) = ''A''"
proof -
  obtain evs c where c: "conn_trace (Handle_cmd plain_crypto) handlers_of_program evs c" "Authenticated (cn_ctx c)"
    "DeviceID (cn_ctx c) = ''A''"
    using sample_handshake by blast
  obtain i j sv2 e2 fr2 raw2 where "i < j" "j < length evs" "evs ! j = (sv2, e2, fr2, raw2)"
    "TrimDeviceID (take 14 (Data fr2)) = ''A''"
    using authenticated_only_by_signature [OF c(1,2)] c(3) by metis
  then have "TrimDeviceID (take 14 (Data (fst (snd (snd (evs ! j)))))) = ''A''"
    by simp
  with c(1,2) \<open>i < j\<close> \<open>j < length evs\<close> show ?thesis
    by blast
qed

text \<open>
  C3: Before the authentication every command but 0x65 is refused without effect: the connection stays
  open, no handler runs, nothing is sent, and neither the database, the hub, the file logs nor the
  measurements change; the raw frame is shown in the log channel, and an unused handler may be created.
\<close>

theorem refused_before_authentication:
  assumes "\<not> Authenticated (cn_ctx c)" and "Cmd fr \<noteq> CmdAuth" and "raw \<noteq> []"
  shows "\<exists>c' sv'. handle_frame (Handle_cmd lib) reg e fr raw c sv = Some (Continue, c', sv')
    \<and> cn_sock c' = cn_sock c \<and> cn_sub c' = cn_sub c \<and> \<not> Authenticated (cn_ctx c') \<and> DeviceID (cn_ctx c') = DeviceID (cn_ctx c)
    \<and> sv_db sv' = sv_db sv \<and> sv_hub sv' = sv_hub sv \<and> sv_logs sv' = sv_logs sv \<and> sv_measurements sv' = sv_measurements sv"
proof -
  obtain c' hs where 1: "handle_frame (Handle_cmd lib) reg e fr raw c sv =
      Some (Continue, c', log_event ''message'' (DeviceID (cn_ctx c)) (RawFrame raw) sv)"
    and 2: "c' = c\<lparr>cn_ctx := (cn_ctx c)\<lparr>ReceivedAt := fe_received e, LastRaw := raw\<rparr>, cn_handlers := hs\<rparr>"
    using commands.handle_frame_gate [OF assms, of lib reg e sv] by blast
  show ?thesis
    using assms(1) by (simp add: 1 2)
qed

theorem refused_before_authentication_witness:
  "\<exists>c' sv'. handle_frame (Handle_cmd plain_crypto) handlers_of_program (frame_env_at 0)
       \<lparr>Addr = AddrDeviceRegular, Cmd = CmdRegular, Data = replicate 44 0\<rparr> [0x24] (new_connection (\<lambda>_. False)) server_one
     = Some (Continue, c', sv') \<and> sv_hub sv' = hub_New"
proof -
  let ?fr = "\<lparr>Addr = AddrDeviceRegular, Cmd = CmdRegular, Data = replicate 44 0\<rparr>"
    and ?c = "new_connection (\<lambda>_. False) :: cmd_handler connection"
  have "\<not> Authenticated (cn_ctx ?c)" "Cmd ?fr \<noteq> CmdAuth"
    by (simp_all add: new_connection_def proto_consts)
  from refused_before_authentication [OF this, of "[0x24]" plain_crypto handlers_of_program "frame_env_at 0" server_one]
  show ?thesis
    by (auto simp: server_one_def)
qed

lemma Receive_front:
  assumes "queue hb j = Some (x # q)"
  shows "\<exists>hb'. Receive j hb = Some (x, hb')"
  using assms by (auto simp: queue_def Receive_def chan_recv_def split: option.splits)

lemma forward_sends:
  assumes "queue hb j = Some (WireBytes m # q)" "length (Payload m) \<le> FrameMaxDataLen" "\<not> tx_fails cn (tx_count cn)"
  shows "\<exists>cn' hb'. forward j cn hb = Some (True, cn', hb') \<and> tx cn' = tx cn @ [frame_bytes (message_frame m)]"
proof -
  obtain hb' where "Receive j hb = Some (WireBytes m, hb')"
    using Receive_front [OF assms(1)] by blast
  moreover have "EncodeFrame (message_frame m) = Some (frame_bytes (message_frame m))"
    using message_frame_wf [OF assms(2)] by (simp add: EncodeFrame_eq)
  ultimately show ?thesis
    using assms(3) by (simp add: forward_def conn_Write_def)
qed

lemma regular_handler:
  assumes "one_auth c"
  shows "resolve handlers_of_program CmdRegular c = Some RegularHandler"
proof -
  have "CmdRegular \<noteq> CmdAuth"
    by (simp add: proto_consts)
  then have "map_of (cn_handlers c) CmdRegular \<noteq> Some (AuthHandler b)" for b
    using assms by (simp add: one_auth_def)
  then show ?thesis
    using \<open>CmdRegular \<noteq> CmdAuth\<close>
    by (cases "map_of (cn_handlers c) CmdRegular"; cases "the (map_of (cn_handlers c) CmdRegular)")
      (auto simp: resolve_def handlers_of_program_lookup)
qed

text \<open>
  C2: A data message of an authenticated and subscribed device, whatever its payload, is put, as the
  frame 0x70 with the same command and payload, at the end of the queue of every other subscriber
  that has room, and not into the queue of the sender; nothing is sent back. When the goroutine of
  a subscriber finds it at the front of its queue, the device of that connection receives exactly the
  encoding of this frame.
\<close>

theorem data_reaches_others:
  assumes "conn_trace (Handle_cmd lib) handlers_of_program evs c" and "Authenticated (cn_ctx c)"
    and "cn_subscribed c" and "cn_sub c = Some i"
    and "DecodeFrame raw = Inr \<lparr>Addr = AddrDeviceRegular, Cmd = CmdRegular, Data = d\<rparr>"
    and "hub_inv (sv_hub sv)" and "\<not> stopped (sv_hub sv)"
  shows "\<exists>c' sv'. handle_frame (Handle_cmd lib) handlers_of_program e \<lparr>Addr = AddrDeviceRegular, Cmd = CmdRegular, Data = d\<rparr> raw c sv
        = Some (Continue, c', sv')
      \<and> cn_sock c' = cn_sock c \<and> queue (sv_hub sv') i = queue (sv_hub sv) i
      \<and> (\<forall>j q. j \<noteq> i \<and> queue (sv_hub sv) j = Some q \<and> length q < 64 \<longrightarrow>
           queue (sv_hub sv') j = Some (q @ [[AddrBroadcast, CmdRegular] @ d]))
      \<and> (\<forall>j hb q cn. queue hb j = Some (([AddrBroadcast, CmdRegular] @ d) # q) \<and> \<not> tx_fails cn (tx_count cn) \<longrightarrow>
           (\<exists>cn' hb' out. forward j cn hb = Some (True, cn', hb') \<and> tx cn' = tx cn @ [out]
              \<and> EncodeFrame \<lparr>Addr = AddrBroadcast, Cmd = CmdRegular, Data = d\<rparr> = Some out))"
proof -
  let ?fr = "\<lparr>Addr = AddrDeviceRegular, Cmd = CmdRegular, Data = d\<rparr>"
  let ?m = "\<lparr>Mode = DeliverBroadcast, msg_Addr = AddrBroadcast, msg_Cmd = CmdRegular, Payload = d, Targets = []\<rparr>"
  have "frame_wf ?fr" "raw \<noteq> []"
    using assms(5) by (auto simp: DecodeFrame_eq_Inr dest: EncodeFrame_wf EncodeFrame_length simp: FrameMinLen_def)
  then have len: "length d \<le> FrameMaxDataLen"
    by (simp add: frame_wf_def)
  have enc: "EncodeFrame (message_frame ?m) = Some (frame_bytes (message_frame ?m))"
    using len by (simp add: EncodeFrame_eq message_frame_wf)
  have wire: "WireBytes ?m = [AddrBroadcast, CmdRegular] @ d"
    by (simp add: WireBytes_def)
  obtain c1 sv1 where 1: "receive_frame e raw c sv = (c1, sv1)"
    by fastforce
  have c1: "Authenticated (cn_ctx c1)" "cn_handlers c1 = cn_handlers c" "cn_subscribed c1" "cn_sub c1 = Some i"
      "cn_sock c1 = cn_sock c" "sv_hub sv1 = sv_hub sv"
    using receive_frame_simps [of e raw c sv] 1 assms(2-4) by simp_all
  have res: "resolve handlers_of_program CmdRegular c1 = Some RegularHandler"
    using regular_handler [of c] conn_trace_inv [OF assms(1)] c1(2) by (simp add: auth_inv_def resolve_def)
  let ?s = "\<lparr>ctx = cn_ctx c1, sock = cn_sock c1, srv = sv1\<rparr>"
  define s2 where "s2 = snd (Handle59 e ?fr ?s)"
  have 59: "Handle59 e ?fr ?s = (Inr (Some ?m), s2)"
    by (simp add: s2_def Handle59_def Let_def)
  have s2: "ctx s2 = cn_ctx c1" "sock s2 = cn_sock c1" "sv_hub (srv s2) = sv_hub sv"
    using c1(6) by (simp_all add: s2_def Handle59_frame)
  obtain hb r where hb: "Broadcast (WireBytes ?m) i (sv_hub sv) = Some (hb, r)"
    using Broadcast_total [OF assms(6)] by blast
  let ?c2 = "c1\<lparr>cn_ctx := ctx s2, cn_sock := sock s2, cn_handlers := AList.update CmdRegular RegularHandler (cn_handlers c1)\<rparr>"
  have "handle_frame (Handle_cmd lib) handlers_of_program e ?fr raw c sv = Some (Continue, ?c2,
      log_event ''broadcast'' (DeviceID (ctx s2)) (BroadcastSent (frame_bytes (message_frame ?m)) (Sent r) (Delivered r))
        ((srv s2)\<lparr>sv_hub := hb\<rparr>))"
    using \<open>raw \<noteq> []\<close> res c1 s2 59 hb enc
    by (simp add: handle_frame_def 1 dispatch_def Pipeline_eq authGateHandler_def Handle_cmd_def subscribe_conn_def
        route_message_def broadcast_message_def Let_def)
  moreover have "queue hb j = (if j = i then queue (sv_hub sv) j
      else map_option (\<lambda>q. if length q < subscriberBuffer then q @ [WireBytes ?m] else q) (queue (sv_hub sv) j))" for j
    using Broadcast_queue [OF assms(6,7) hb] .
  moreover have "\<exists>cn' hb' out. forward j cn hb = Some (True, cn', hb') \<and> tx cn' = tx cn @ [out]
      \<and> EncodeFrame \<lparr>Addr = AddrBroadcast, Cmd = CmdRegular, Data = d\<rparr> = Some out"
    if "queue hb j = Some (([AddrBroadcast, CmdRegular] @ d) # q)" "\<not> tx_fails cn (tx_count cn)" for j hb q cn
    using forward_sends [of hb j ?m q cn] that len enc by (auto simp: WireBytes_def message_frame_def)
  ultimately show ?thesis
    using s2(2) c1(5) by (auto simp: subscriberBuffer_def wire)
qed

theorem data_reaches_others_witness:
  "\<exists>c c' sv' raw out cn'. handle_frame (Handle_cmd plain_crypto) handlers_of_program (frame_env_at 0)
        \<lparr>Addr = AddrDeviceRegular, Cmd = CmdRegular, Data = []\<rparr> raw c (server_one\<lparr>sv_hub := hub_two\<rparr>) = Some (Continue, c', sv')
     \<and> queue (sv_hub sv') 1 = Some [] \<and> queue (sv_hub sv') 2 = Some [[AddrBroadcast, CmdRegular]]
     \<and> (\<exists>hb. forward 2 \<lparr>tx = [], tx_fails = (\<lambda>_. False), tx_count = 0\<rparr> (sv_hub sv') = Some (True, cn', hb)) \<and> tx cn' = [out]"
proof -
  let ?fr = "\<lparr>Addr = AddrDeviceRegular, Cmd = CmdRegular, Data = []\<rparr>" and ?raw = "[0x24, 0x76, 0x59, 0, 0, 0x0B] :: bytes"
    and ?sv = "server_one\<lparr>sv_hub := hub_two\<rparr>" and ?cn = "\<lparr>tx = [], tx_fails = (\<lambda>_. False), tx_count = 0\<rparr>"
  obtain evs c where c: "conn_trace (Handle_cmd plain_crypto) handlers_of_program evs c" "Authenticated (cn_ctx c)"
    "cn_subscribed c" "cn_sub c = Some 1"
    using sample_handshake by blast
  have dec: "DecodeFrame ?raw = Inr ?fr"
    by code_simp
  have hub: "hub_inv (sv_hub ?sv)" "\<not> stopped (sv_hub ?sv)"
    using hub_two_inv hub_two_simps(2) by simp_all
  from data_reaches_others [OF c dec hub, of "frame_env_at 0"] obtain c' sv'
    where 1: "handle_frame (Handle_cmd plain_crypto) handlers_of_program (frame_env_at 0) ?fr ?raw c ?sv = Some (Continue, c', sv')"
    and 2: "queue (sv_hub sv') 1 = queue (sv_hub ?sv) 1"
    and 3: "\<forall>j q. j \<noteq> 1 \<and> queue (sv_hub ?sv) j = Some q \<and> length q < 64 \<longrightarrow>
      queue (sv_hub sv') j = Some (q @ [[AddrBroadcast, CmdRegular] @ []])"
    and 4: "\<forall>j hb q cn. queue hb j = Some (([AddrBroadcast, CmdRegular] @ []) # q) \<and> \<not> tx_fails cn (tx_count cn) \<longrightarrow>
      (\<exists>cn' hb' out. forward j cn hb = Some (True, cn', hb') \<and> tx cn' = tx cn @ [out]
         \<and> EncodeFrame \<lparr>Addr = AddrBroadcast, Cmd = CmdRegular, Data = []\<rparr> = Some out)"
    by (elim exE conjE)
  have q: "queue (sv_hub sv') 1 = Some []" "queue (sv_hub sv') 2 = Some [[AddrBroadcast, CmdRegular]]"
    using 2 3 [rule_format, of 2 "[]"] by (simp_all add: hub_two_queue)
  then obtain cn' hb' out where "forward 2 ?cn (sv_hub sv') = Some (True, cn', hb')" "tx cn' = [out]"
    using 4 [rule_format, of "sv_hub sv'" 2 "[]" ?cn] by auto
  with 1 q show ?thesis
    by blast
qed

section \<open>The log session of another connection\<close>

text \<open>
  The deferred close of the file logs goes by the identifier a peer last gave, whether it was authenticated
  or not. Once the challenge is issued to a peer that only knows the identifier of a device, its
  disconnect takes one reference of that device's log session away and with the last one ends it.
\<close>

lemma stranger_ends_log:
  assumes "param_accepts e fr (sv_db sv) pem ch" and "\<not> stopped (sv_hub sv)" and "Cmd fr = CmdAuth" and "raw \<noteq> []"
  shows "\<exists>c sv1. handle_frame (Handle_cmd lib) handlers_of_program e fr raw (new_connection (\<lambda>_. False)) sv = Some (Continue, c, sv1)
    \<and> \<not> Authenticated (cn_ctx c)
    \<and> (\<forall>sv2 st. sv_logs sv2 = Some st \<longrightarrow> (\<exists>st'. sv_logs (end_connection c sv2) = Some st'
         \<and> log_refs st' (SanitizeDID (param_did fr)) = log_refs st (SanitizeDID (param_did fr)) - 1))"
proof -
  obtain c sv1 where "handle_frame (Handle_cmd lib) handlers_of_program e fr raw (new_connection (\<lambda>_. False)) sv = Some (Continue, c, sv1)"
    "\<not> Authenticated (cn_ctx c)" "DeviceID (cn_ctx c) = param_did fr"
    using param_frame_handled [of "new_connection (\<lambda>_. False)" sv fr raw e pem ch lib] assms by auto
  then show ?thesis
    by (auto simp: end_connection_def log_refs_Close)
qed

end
