(* ===== verification/Handshake.thy ===== *)
theory Handshake
  imports Authentication Device_Client
begin

text \<open>
  The client program and the server together. The server end of a connection is a peer of the client: it runs
  the read loop of the connection on the bytes that arrived, keeps what is no whole
  frame yet, and answers with what the handlers wrote to the socket. The theorem is the
  end-to-end liveness of the authorization, from the bytes the client writes to the bytes it reads.
\<close>

section \<open>The server as a peer\<close>

record srv_end =
  se_frames :: nat
  se_pending :: bytes
  se_conn :: "cmd_handler connection"
  se_server :: server
  se_open :: bool

text \<open>A read that waits for more bytes; any other error ends the connection.\<close>

definition waits :: "read_error \<Rightarrow> bool" where
  "waits e \<longleftrightarrow> e \<in> {ReadPreamble IOTimeout, ReadHeader IOTimeout, ReadDataCRC IOTimeout}"

definition serve_bytes ::
  "'k crypto_lib \<Rightarrow> (nat \<Rightarrow> server \<Rightarrow> server) \<Rightarrow> (nat \<Rightarrow> frame_env) \<Rightarrow> bytes \<Rightarrow> srv_end \<Rightarrow> bool \<times> bytes \<times> srv_end" where
  "serve_bytes lib meanwhile env raw w =
     (if \<not> se_open w then (False, [], w)
      else case conn_loop (Handle_cmd lib) handlers_of_program meanwhile env (se_frames w)
                  \<lparr>rd_buf = se_pending w @ raw, rd_end = IOTimeout\<rparr> (se_conn w) (se_server w) of
             None \<Rightarrow> (True, [], w\<lparr>se_open := False\<rparr>)
           | Some (err, n, s, c, sv) \<Rightarrow>
               (True, concat (drop (length (tx (cn_sock (se_conn w)))) (tx (cn_sock c))),
                \<lparr>se_frames = n, se_pending = rd_buf s, se_conn = c, se_server = sv,
                 se_open = (case err of None \<Rightarrow> False | Some e \<Rightarrow> waits e)\<rparr>))"

definition server_peer :: "'k crypto_lib \<Rightarrow> (nat \<Rightarrow> server \<Rightarrow> server) \<Rightarrow> (nat \<Rightarrow> frame_env) \<Rightarrow> srv_end peer" where
  "server_peer lib meanwhile env =
     \<lparr>peer_write = serve_bytes lib meanwhile env, peer_end = (\<lambda>w. if se_open w then IOTimeout else EOF)\<rparr>"

definition accepted :: "server \<Rightarrow> srv_end" where
  "accepted sv = \<lparr>se_frames = 0, se_pending = [], se_conn = new_connection (\<lambda>_. False), se_server = sv, se_open = True\<rparr>"

section \<open>One frame through the server\<close>

lemma ReadFrame_idle: "ReadFrame \<lparr>rd_buf = [], rd_end = e\<rparr> = (Inl (ReadPreamble e), \<lparr>rd_buf = [], rd_end = e\<rparr>)"
  by (simp add: ReadFrame_def)

lemma serve_one_frame:
  assumes "EncodeFrame fr = Some raw" "se_open w" "se_pending w = []"
    and "handle_frame (Handle_cmd lib) handlers_of_program (env (se_frames w)) fr raw (se_conn w)
           (meanwhile (se_frames w) (se_server w)) = Some (Continue, c, sv)"
    and "tx (cn_sock c) = tx (cn_sock (se_conn w)) @ out"
  shows "serve_bytes lib meanwhile env raw w = (True, concat out,
    \<lparr>se_frames = Suc (se_frames w), se_pending = [], se_conn = c, se_server = meanwhile (Suc (se_frames w)) sv, se_open = True\<rparr>)"
proof -
  let ?s = "\<lparr>rd_buf = raw, rd_end = IOTimeout\<rparr>" and ?s' = "\<lparr>rd_buf = [], rd_end = IOTimeout\<rparr>"
  have "ReadFrame ?s = (Inr (fr, raw), ?s')"
    using ReadFrame_delivers [OF assms(1), of "[]" ?s "[]"] by simp
  then have "conn_loop (Handle_cmd lib) handlers_of_program meanwhile env (se_frames w) ?s (se_conn w) (se_server w) =
      conn_loop (Handle_cmd lib) handlers_of_program meanwhile env (Suc (se_frames w)) ?s' c sv"
    using assms(4) by (subst conn_loop.simps) simp
  also have "\<dots> = Some (Some (ReadPreamble IOTimeout), Suc (se_frames w), ?s', c, meanwhile (Suc (se_frames w)) sv)"
    by (subst conn_loop.simps) (simp add: ReadFrame_idle)
  finally show ?thesis
    using assms(2,3,5) by (simp add: serve_bytes_def waits_def)
qed

section \<open>Reading the answers\<close>

lemma client_read_frame:
  assumes "EncodeFrame f = Some raw"
  shows "client_read p (raw @ rest, w) = (Inr \<lparr>rf_addr = Addr f, rf_cmd = Cmd f, rf_data = Data f\<rparr>, rest, w)"
  by (simp add: client_read_def readFrame_delivers [OF assms])

lemma client_statuses_authorized:
  "client_statuses p [0, 1] (frame_bytes (status_frame StatusOK) @ frame_bytes (status_frame StatusAuthorized), w) = (Inr (), [], w)"
proof -
  have "client_read p (frame_bytes (status_frame c) @ rest, w) =
      (Inr \<lparr>rf_addr = addrServerStatus, rf_cmd = cmdAuth, rf_data = [c]\<rparr>, rest, w)" for c rest
    using client_read_frame [OF status_frame_encodes, of p c rest w] by (simp add: status_frame_def client_consts)
  note this [of StatusOK "frame_bytes (status_frame StatusAuthorized)"] this [of StatusAuthorized "[]", simplified]
  then show ?thesis
    by (simp add: client_consts)
qed

lemma client_write_server:
  "client_write (server_peer lib meanwhile env) raw (inp, w) =
     (let (ok, more, w) = serve_bytes lib meanwhile env raw w in (ok, inp @ more, w))"
  by (simp add: client_write_def server_peer_def)

section \<open>The two exchanges\<close>

lemma EncodeFrame_nonempty: "EncodeFrame f = Some raw \<Longrightarrow> raw \<noteq> []"
  using EncodeFrame_length [of f raw] by (auto simp: FrameMinLen_def)

text \<open>The connection after the challenge was sent.\<close>

definition awaits_answer :: "(nat \<Rightarrow> server \<Rightarrow> server) \<Rightarrow> string \<Rightarrow> bytes \<Rightarrow> string \<Rightarrow> srv_end \<Rightarrow> bool" where
  "awaits_answer meanwhile did ch pem w \<longleftrightarrow>
     se_open w \<and> se_pending w = [] \<and> se_frames w = 1 \<and> \<not> Authenticated (cn_ctx (se_conn w)) \<and> DeviceID (cn_ctx (se_conn w)) = did
     \<and> auth_handler (se_conn w) =
         Some (AuthHandler \<lparr>h_step = stepWaitAuth, h_deviceID = did, h_challenge = ch, h_pubKeyPEM = pem\<rparr>)
     \<and> sock_writable (se_conn w) \<and> \<not> stopped (sv_hub (meanwhile 1 (se_server w)))"

lemma server_answers_param:
  assumes "TrimDeviceID (padDeviceID did) = did"
    and "param_accepts (env 0) \<lparr>Addr = AddrParamRequest, Cmd = CmdAuth, Data = padDeviceID did\<rparr> (sv_db (meanwhile 0 sv)) pem ch"
    and "\<not> stopped (sv_hub sv)" and run: "\<And>n sv. \<not> stopped (sv_hub sv) \<Longrightarrow> \<not> stopped (sv_hub (meanwhile n sv))"
  shows "\<exists>w. serve_bytes lib meanwhile env (encodeFrame addrParamRequest cmdAuth (padID did)) (accepted sv) =
      (True, frame_bytes (challenge_frame ch), w) \<and> awaits_answer meanwhile did ch pem w"
proof -
  let ?fr = "\<lparr>Addr = AddrParamRequest, Cmd = CmdAuth, Data = padDeviceID did\<rparr>"
  let ?raw = "encodeFrame addrParamRequest cmdAuth (padID did)"
  let ?c0 = "new_connection (\<lambda>_. False) :: cmd_handler connection"
  have enc: "EncodeFrame ?fr = Some ?raw"
    by (simp add: encodeFrame_eq padID_eq client_consts DeviceIDSize_def FrameMaxDataLen_def)
  have did: "param_did ?fr = did"
    using assms(1) by (simp add: param_did_def)
  obtain c sv1 where c: "handle_frame (Handle_cmd lib) handlers_of_program (env 0) ?fr ?raw ?c0 (meanwhile 0 sv) = Some (Continue, c, sv1)"
    "\<not> Authenticated (cn_ctx c)" "DeviceID (cn_ctx c) = did" "\<not> stopped (sv_hub sv1)"
    "auth_handler c = Some (AuthHandler \<lparr>h_step = stepWaitAuth, h_deviceID = did, h_challenge = ch, h_pubKeyPEM = pem\<rparr>)"
    "sock_writable c" "tx (cn_sock c) = [frame_bytes (challenge_frame ch)]"
    using param_frame_handled [of ?c0 "meanwhile 0 sv" ?fr ?raw "env 0" pem ch lib] assms(2,3) run did EncodeFrame_nonempty [OF enc]
    by auto
  show ?thesis
    using serve_one_frame [OF enc, of "accepted sv" lib env meanwhile c sv1 "[frame_bytes (challenge_frame ch)]"] c run
    by (simp add: accepted_def awaits_answer_def)
qed

lemma server_answers_auth:
  assumes "awaits_answer meanwhile did ch pem w" and "length sig = 256"
    and "auth_accepts lib (fe_now (env 1)) \<lparr>Addr = AddrAuthCommand, Cmd = CmdAuth, Data = padDeviceID did @ [AuthProtocolVersion] @ sig\<rparr>
      \<lparr>h_step = stepWaitAuth, h_deviceID = did, h_challenge = ch, h_pubKeyPEM = pem\<rparr>"
  shows "\<exists>w'. serve_bytes lib meanwhile env (encodeFrame addrAuthCommand cmdAuth (authData (padID did) sig)) w =
      (True, frame_bytes (status_frame StatusOK) @ frame_bytes (status_frame StatusAuthorized), w')
    \<and> se_open w' \<and> Authenticated (cn_ctx (se_conn w')) \<and> DeviceID (cn_ctx (se_conn w')) = did \<and> cn_subscribed (se_conn w')"
proof -
  let ?fr = "\<lparr>Addr = AddrAuthCommand, Cmd = CmdAuth, Data = padDeviceID did @ [AuthProtocolVersion] @ sig\<rparr>"
  let ?raw = "encodeFrame addrAuthCommand cmdAuth (authData (padID did) sig)"
  let ?sts = "[frame_bytes (status_frame StatusOK), frame_bytes (status_frame StatusAuthorized)]"
  have enc: "EncodeFrame ?fr = Some ?raw"
    using assms(2) by (simp add: encodeFrame_eq padID_eq client_consts authData_def DeviceIDSize_def FrameMaxDataLen_def)
  note w = assms(1) [unfolded awaits_answer_def]
  obtain c sv where c: "handle_frame (Handle_cmd lib) handlers_of_program (env 1) ?fr ?raw (se_conn w) (meanwhile 1 (se_server w))
      = Some (Continue, c, sv)"
    "Authenticated (cn_ctx c)" "DeviceID (cn_ctx c) = did" "cn_subscribed c" "tx (cn_sock c) = tx (cn_sock (se_conn w)) @ ?sts"
    using auth_frame_handled [of "se_conn w" _ "meanwhile 1 (se_server w)" ?fr ?raw lib "env 1"] w assms(3) EncodeFrame_nonempty [OF enc]
    by auto
  show ?thesis
    using serve_one_frame [OF enc, of w lib env meanwhile c sv ?sts] w c by simp
qed

section \<open>The whole exchange\<close>

lemma authorization_succeeds:
  assumes "TrimDeviceID (padDeviceID did) = did"
    and "GetPublicKey (fe_key (env 0)) did (sv_db (meanwhile 0 sv)) = Inr pem"
    and "IsInService (fe_service (env 0)) did (sv_db (meanwhile 0 sv)) = Inr True"
    and "ParsePublicKey lib pem = Inr pub" and "key_pair lib keys pub priv"
    and "fe_random (env 0) = Some rnd"
    and "- (2 ^ 63) \<le> UnixMilli (fe_now (env 0))" and "UnixMilli (fe_now (env 0)) < 2 ^ 63"
    and "fe_now (env 1) - UnixMilli (fe_now (env 0)) * Millisecond \<le> ChallengeTTL"
    and "\<not> stopped (sv_hub sv)" and "\<And>n sv. \<not> stopped (sv_hub sv) \<Longrightarrow> \<not> stopped (sv_hub (meanwhile n sv))"
  shows "\<exists>w. client_authorize (server_peer lib meanwhile env) lib keys priv did ([], accepted sv) = (Inr (), [], w)
    \<and> se_open w \<and> Authenticated (cn_ctx (se_conn w)) \<and> DeviceID (cn_ctx (se_conn w)) = did \<and> cn_subscribed (se_conn w)"
proof -
  obtain ch where ch: "GenerateChallenge (fe_random (env 0)) (fe_now (env 0)) = Inr ch"
    using assms(6) by (simp add: GenerateChallenge_def)
  obtain sig where sig: "SignPKCS1v15 keys priv (Sum256 lib ch) = Some sig" "length sig = 256" "VerifyPKCS1v15 lib pub (Sum256 lib ch) sig"
    using assms(5) by (auto simp: key_pair_def)
  let ?fr1 = "\<lparr>Addr = AddrParamRequest, Cmd = CmdAuth, Data = padDeviceID did\<rparr>"
  have "param_accepts (env 0) ?fr1 (sv_db (meanwhile 0 sv)) pem ch"
    using assms(1-3) ch by (simp add: param_accepts_def)
  then obtain w1 where w1: "serve_bytes lib meanwhile env (encodeFrame addrParamRequest cmdAuth (padID did)) (accepted sv) =
      (True, frame_bytes (challenge_frame ch), w1)" "awaits_answer meanwhile did ch pem w1"
    using server_answers_param [of did env meanwhile sv pem ch lib] assms(1,10,11) by blast
  have "auth_accepts lib (fe_now (env 1)) \<lparr>Addr = AddrAuthCommand, Cmd = CmdAuth, Data = padDeviceID did @ [AuthProtocolVersion] @ sig\<rparr>
      \<lparr>h_step = stepWaitAuth, h_deviceID = did, h_challenge = ch, h_pubKeyPEM = pem\<rparr>"
    by (rule signed_answer_accepted [OF ch assms(7-9,1,4) sig(2,3)])
  then obtain w2 where w2: "serve_bytes lib meanwhile env (encodeFrame addrAuthCommand cmdAuth (authData (padID did) sig)) w1 =
      (True, frame_bytes (status_frame StatusOK) @ frame_bytes (status_frame StatusAuthorized), w2)"
    "se_open w2 \<and> Authenticated (cn_ctx (se_conn w2)) \<and> DeviceID (cn_ctx (se_conn w2)) = did \<and> cn_subscribed (se_conn w2)"
    using server_answers_auth [OF w1(2) sig(2)] by blast
  have "client_read p (frame_bytes (challenge_frame ch), w) =
      (Inr \<lparr>rf_addr = addrChallenge, rf_cmd = cmdAuth, rf_data = StatusOK # ch\<rparr>, [], w)" for p and w :: srv_end
    using client_read_frame [OF challenge_frame_encodes [OF ch], of p "[]" w] by (simp add: challenge_frame_def client_consts)
  moreover have "\<not> length (StatusOK # ch) < 41"
    using GenerateChallenge_length [OF ch] by simp
  ultimately show ?thesis
    using w2(2) sig(1)
    by (simp add: client_authorize_def client_write_server w1(1) w2(1) signChallenge_def
        client_statuses_authorized [unfolded One_nat_def] del: client_statuses.simps)
qed

section \<open>Property of the whole exchange\<close>


definition sample_keys :: "unit key_lib" where
  "sample_keys = \<lparr>ParsePKCS8PrivateKey = (\<lambda>_. Some (RSAKey ())), ParsePKCS1PrivateKey = (\<lambda>_. None),
     SignPKCS1v15 = (\<lambda>_ _. Some (replicate 256 7))\<rparr>"


end
