(* ===== verification/Server_Output.thy ===== *)
theory Server_Output
  imports Authentication
begin

text \<open>
  The type of what a device receives: whatever the handlers, the routing of messages and the subscriber
  goroutine write to the socket of a connection (\<^verbatim>\<open>src/internal/tcp/crypto_server.go\<close>, \<^verbatim>\<open>src/internal/cmd\<close>) is a
  sequence of well-formed frames. Two writers never mix their bytes, because a write to
  a socket is atomic; a write that fails is taken to write nothing.
\<close>

section \<open>Writing frames\<close>

definition sends :: "conn \<Rightarrow> conn \<Rightarrow> bool" where
  "sends c c' \<longleftrightarrow> (\<exists>fs. list_all frame_wf fs \<and> tx c' = tx c @ map frame_bytes fs)"

lemma sends_refl [simp, intro]: "sends c c"
  by (auto simp: sends_def intro: exI [of _ "[]"])

lemma sends_trans [trans]: "sends a b \<Longrightarrow> sends b c \<Longrightarrow> sends a c"
  unfolding sends_def by (metis append_assoc list_all_append map_append)

lemma conn_Write_sends: "EncodeFrame f = Some raw \<Longrightarrow> sends c (snd (conn_Write raw c))"
  by (auto simp: sends_def conn_Write_def EncodeFrame_eq split: if_splits intro: exI [of _ "[]"] exI [of _ "[f]"])

lemma hs_Write_sends: "EncodeFrame f = Some raw \<Longrightarrow> sends (sock s) (sock (snd (hs_Write raw s)))"
  using conn_Write_sends [of f raw "sock s"] by (simp add: hs_Write_def split_beta)

section \<open>The authorization handler\<close>

lemma sendStatus_sends: "sendStatus code s = Some s' \<Longrightarrow> sends (sock s) (sock s')"
  using hs_Write_sends [OF status_frame_encodes [of code], of "logEvent ''message'' (StatusSent code (frame_bytes (status_frame code)))
        (logDebug (AuthStatus code (frame_bytes (status_frame code))) s)"]
  by (auto simp: sendStatus_def status_frame_encodes)

lemma sendTwoStatuses_sends: "sendTwoStatuses code s = Some s' \<Longrightarrow> sends (sock s) (sock s')"
  by (auto simp: sendTwoStatuses_def bind_eq_Some_conv dest!: sendStatus_sends intro: sends_trans)

lemma refuse_sends: "refuse code err h s = Some (r, h', s') \<Longrightarrow> sends (sock s) (sock s')"
  by (auto simp: refuse_def bind_eq_Some_conv dest: sendStatus_sends)

lemma refuse_two_sends: "refuse_two code d err h s = Some (r, h', s') \<Longrightarrow> sends (sock s) (sock s')"
  by (auto simp: refuse_two_def bind_eq_Some_conv dest!: sendTwoStatuses_sends split: option.splits)

lemma authorize_sends: "authorize e h s = Some (r, h', s') \<Longrightarrow> sends (sock s) (sock s')"
  by (auto simp: authorize_def bind_eq_Some_conv Let_def dest!: sendTwoStatuses_sends)

lemmas reply_sends = refuse_sends refuse_two_sends authorize_sends

lemma issue_challenge_sends: "issue_challenge e h s = Some (r, h', s') \<Longrightarrow> sends (sock s) (sock s')"
proof (cases "GenerateChallenge (fe_random e) (fe_now e)")
  case (Inl err)
  then show "issue_challenge e h s = Some (r, h', s') \<Longrightarrow> sends (sock s) (sock s')"
    by (auto simp: issue_challenge_def dest: refuse_sends)
next
  case (Inr ch)
  let ?raw = "frame_bytes (challenge_frame ch)"
  show "issue_challenge e h s = Some (r, h', s') \<Longrightarrow> sends (sock s) (sock s')"
    using hs_Write_sends [OF challenge_frame_encodes [OF Inr],
        of "logDebug (ChallengeFrame (challenge_frame ch) ?raw) (logDebug (ChallengeGenerated ch) s)"]
    by (auto simp: issue_challenge_def Inr challenge_frame_encodes [OF Inr] Let_def split_beta split: if_splits)
qed

lemma handleParamRequest_sends: "handleParamRequest e fr h s = Some (r, h', s') \<Longrightarrow> sends (sock s) (sock s')"
  by (auto simp: handleParamRequest_def bind_eq_Some_conv Let_def
      dest!: reply_sends issue_challenge_sends sendStatus_sends split: sum.splits if_splits)

lemma handleAuth_sends: "handleAuth lib e fr h s = Some (r, h', s') \<Longrightarrow> sends (sock s) (sock s')"
  by (auto simp: handleAuth_def Let_def dest!: reply_sends split: sum.splits bool.splits option.splits if_splits)

lemma handleHeartbeat_sends: "handleHeartbeat e fr h s = Some (r, h', s') \<Longrightarrow> sends (sock s) (sock s')"
proof -
  assume *: "handleHeartbeat e fr h s = Some (r, h', s')"
  show ?thesis
  proof (cases "Addr fr \<noteq> AddrTimeRequest \<or> length (Data fr) \<noteq> TimeDataLen")
    case True
    with * show ?thesis
      by (auto simp: handleHeartbeat_def dest: refuse_sends split: if_splits)
  next
    case False
    have "sends (sock s) (sock (snd (hs_Write (frame_bytes (time_frame a b)) s1)))" if "sock s1 = sock s" for a b s1
      using hs_Write_sends [OF time_frame_encodes [of a b], of s1] that by simp
    with False * show ?thesis
      by (auto simp: handleHeartbeat_def Let_def split_beta time_frame_encodes)
  qed
qed

lemma Handle65_sends: "Handle65 lib e fr h s = Some (r, h', s') \<Longrightarrow> sends (sock s) (sock s')"
  by (auto simp: Handle65_def dest: handleParamRequest_sends handleAuth_sends handleHeartbeat_sends split: authStep.splits)

section \<open>Interface: handlers that write frames\<close>

locale frame_handlers = cmd_handlers +
  assumes handle_sends: "handle e fr h s = Some (r, h', s') \<Longrightarrow> sends (sock s) (sock s')"
begin

lemma gated_sends: "gated handle e fr h s = Some (r, h', s') \<Longrightarrow> sends (sock s) (sock s')"
  by (auto simp: gated_eq dest: handle_sends split: if_splits)

lemma dispatch_sends:
  assumes "dispatch (handle e) fr h c sv = Some (out, c', sv')"
  shows "sends (cn_sock c) (cn_sock c')"
proof -
  have routed: "sends (cn_sock c0) (cn_sock c2)"
    if "subscribe_conn c0 sv0 = Some (c1, sv1)" "route_message m c1 sv1 = Some (c2, sv2)" for c0 c1 c2 :: "'a connection" and sv0 sv1 sv2 m
    using that
    by (auto simp: subscribe_conn_def route_message_def bind_eq_Some_conv dest: conn_Write_sends
        split: if_splits option.splits DeliveryMode.splits)
  obtain r h' s where "gated handle e fr h \<lparr>ctx = cn_ctx c, sock = cn_sock c, srv = sv\<rparr> = Some (r, h', s)"
    using gated_props by blast
  with assms gated_sends [OF this] show ?thesis
    unfolding dispatch_def gated_def [symmetric]
    by (auto simp: bind_eq_Some_conv Let_def dest!: routed intro: sends_trans split: sum.splits if_splits)
qed

lemma handle_frame_sends:
  "handle_frame handle reg e fr raw c sv = Some (out, c', sv') \<Longrightarrow> sends (cn_sock c) (cn_sock c')"
  using receive_frame_simps(4) [of e raw c sv]
  by (auto simp: handle_frame_def split_beta Let_def simp del: receive_frame_simps dest!: dispatch_sends split: if_splits option.splits)

lemma trace_sends: "conn_trace handle reg evs c \<Longrightarrow> \<exists>fs. list_all frame_wf fs \<and> tx (cn_sock c) = map frame_bytes fs"
proof (induction rule: conn_trace.induct)
  case (trace_new fails)
  then show ?case
    by (auto simp: new_connection_def)
next
  case (trace_frame evs c e fr raw sv c' sv')
  then show ?case
    using handle_frame_sends [OF trace_frame(2)] by (auto simp: sends_def) (metis list_all_append map_append)
next
  case (trace_forward evs c i hb ok cn hb')
  then have "sends (cn_sock c) cn"
    by (auto simp: forward_def bind_eq_Some_conv Let_def split_beta dest: conn_Write_sends)
  with trace_forward(3) show ?case
    by (auto simp: sends_def) (metis list_all_append map_append)
qed

end

interpretation frame_commands: frame_handlers "Handle_cmd lib" for lib
proof unfold_locales
  fix e fr h s r h' s'
  assume "Handle_cmd lib e fr h s = Some (r, h', s')"
  then show "sends (sock s) (sock s')"
    by (cases rule: Handle_cmd_cases [of h lib e fr s]) (auto simp: Handle59_frame dest: Handle65_sends)
qed

section \<open>Property of the output\<close>

text \<open>A device that reads encoded frames gets them back.\<close>

lemma ReadFrames_frames:
  "list_all frame_wf fs \<Longrightarrow>
     ReadFrames \<lparr>rd_buf = concat (map frame_bytes fs), rd_end = e\<rparr> = (zip fs (map frame_bytes fs), ReadPreamble e)"
  using frames.drain_concat [of "map (\<lambda>f. ([], f, frame_bytes f)) fs" "[]" "\<lparr>rd_buf = concat (map frame_bytes fs), rd_end = e\<rparr>"]
  by (simp add: no_preamble_def EncodeFrame_eq list_all_iff comp_def zip_map2 zip_same_conv_map)



end
