(* ===== verification/User_Store.thy ===== *)
theory User_Store
  imports Device_Store
begin

text \<open>
  Accounts and login sessions (\<^verbatim>\<open>src/internal/store/user_store.go\<close>, \<^verbatim>\<open>session_store.go\<close>) and the
  integrity of the whole database under every changing method of the three stores. The
  identifier of a new user and the bytes of a new token are arguments (\<^verbatim>\<open>uuid.New\<close>, \<^verbatim>\<open>rand.Read\<close>).
\<close>

section \<open>Users\<close>

record User =
  user_ID :: uuid
  Username :: string
  user_Role :: Role
  CreatedAt :: time

definition user_of :: "uuid \<times> user_row \<Rightarrow> User" where
  "user_of = (\<lambda>(i, u). \<lparr>user_ID = i, Username = username u, user_Role = role u, CreatedAt = created_at u\<rparr>)"

definition GetUser :: "db_env \<Rightarrow> uuid \<Rightarrow> database \<Rightarrow> store_error + User" where
  "GetUser e i db =
     (if db_fault e then Inl DbFailed
      else case map_of (users db) i of None \<Rightarrow> Inl ErrNotFound | Some u \<Rightarrow> Inr (user_of (i, u)))"

definition ListUsers :: "(string \<Rightarrow> 'c::linorder) \<Rightarrow> db_env \<Rightarrow> database \<Rightarrow> store_error + User list" where
  "ListUsers collate e db =
     (if db_fault e then Inl DbFailed
      else Inr (map user_of (sort_key (\<lambda>(i, u). collate (username u)) (users db))))"

text \<open>The row of a user name; names are unique.\<close>

definition find_name :: "string \<Rightarrow> (uuid \<times> user_row) list \<Rightarrow> (uuid \<times> user_row) option" where
  "find_name n us = List.find (\<lambda>(i, u). username u = n) us"

definition CreateUser ::
  "bcrypt_lib \<Rightarrow> db_env \<Rightarrow> uuid \<Rightarrow> string \<Rightarrow> string \<Rightarrow> Role \<Rightarrow> database \<Rightarrow> store_error option \<times> database" where
  "CreateUser bc e newid name plainPassword r db =
     (case GenerateFromPassword bc plainPassword of
        None \<Rightarrow> (Some BcryptFailed, db)
      | Some hash \<Rightarrow>
          (case Exec e (\<lambda>db.
              if map_of (users db) newid \<noteq> None \<or> find_name name (users db) \<noteq> None then Inl UniqueViolation
              else Inr (1, db\<lparr>users := AList.update newid
                     \<lparr>username = name, user_password_hash = hash, role = r, created_at = db_now e\<rparr> (users db)\<rparr>)) db of
             Inl err \<Rightarrow> (Some err, db)
           | Inr (n, db') \<Rightarrow> (None, db')))"

text \<open>\<^verbatim>\<open>DELETE FROM users\<close> with the foreign keys of the schema.\<close>

definition delete_user :: "uuid \<Rightarrow> database \<Rightarrow> sql_result" where
  "delete_user i db =
     (if map_of (users db) i = None then Inr (0, db)
      else Inr (1, db\<lparr>users := AList.delete i (users db),
             sessions := filter (\<lambda>(t, s). user_id s \<noteq> i) (sessions db),
             devices := map (\<lambda>(d, r). (d, if updated_by r = Some i then r\<lparr>updated_by := None\<rparr> else r)) (devices db)\<rparr>))"

definition DeleteUser :: "db_env \<Rightarrow> uuid \<Rightarrow> database \<Rightarrow> store_error option \<times> database" where
  "DeleteUser e i db =
     (case Exec e (delete_user i) db of
        Inl err \<Rightarrow> (Some err, db)
      | Inr (n, db') \<Rightarrow> if n = 0 then (Some ErrNotFound, db') else (None, db'))"

definition EnsureBootstrap ::
  "bcrypt_lib \<Rightarrow> db_env \<Rightarrow> db_env \<Rightarrow> uuid \<Rightarrow> string \<Rightarrow> string \<Rightarrow> database \<Rightarrow> store_error option \<times> database" where
  "EnsureBootstrap bc e1 e2 newid name plainPassword db =
     (if db_fault e1 then (Some DbFailed, db)
      else if find_name name (users db) \<noteq> None then (None, db)
      else CreateUser bc e2 newid name plainPassword RoleAdmin db)"

definition VerifyUser :: "bcrypt_lib \<Rightarrow> db_env \<Rightarrow> string \<Rightarrow> string \<Rightarrow> database \<Rightarrow> store_error + User" where
  "VerifyUser bc e name plainPassword db =
     (if db_fault e then Inl DbFailed
      else case find_name name (users db) of
             None \<Rightarrow> Inl ErrNotFound
           | Some (i, u) \<Rightarrow>
               if CompareHashAndPassword bc (user_password_hash u) plainPassword \<noteq> HashMatch then Inl ErrNotFound
               else Inr (user_of (i, u)))"

section \<open>Sessions\<close>

definition SessionTTL :: duration where "SessionTTL = 24 * Hour"

text \<open>\<^verbatim>\<open>base64.RawURLEncoding\<close>: groups of three bytes as four characters, no padding.\<close>

definition b64_chars :: string where
  "b64_chars = ''ABCDEFGHIJKLMNOPQRSTUVWXYZabcdefghijklmnopqrstuvwxyz0123456789-_''"

definition b64 :: "nat \<Rightarrow> char" where "b64 n = b64_chars ! (n mod 64)"

fun RawURLEncoding :: "nat list \<Rightarrow> string" where
  "RawURLEncoding [] = []"
| "RawURLEncoding [a] = [b64 (a div 4), b64 (16 * (a mod 4))]"
| "RawURLEncoding [a, b] = [b64 (a div 4), b64 (16 * (a mod 4) + b div 16), b64 (4 * (b mod 16))]"
| "RawURLEncoding (a # b # c # bs) =
     b64 (a div 4) # b64 (16 * (a mod 4) + b div 16) # b64 (4 * (b mod 16) + c div 64) # b64 (c mod 64)
     # RawURLEncoding bs"

definition randomToken :: "rand_source \<Rightarrow> store_error + string" where
  "randomToken src =
     (case src of
        None \<Rightarrow> Inl RandFailed
      | Some b \<Rightarrow> Inr (RawURLEncoding (map (\<lambda>i. unat (b i)) [0..<32])))"

definition CreateSession :: "rand_source \<Rightarrow> db_env \<Rightarrow> uuid \<Rightarrow> database \<Rightarrow> (store_error + string) \<times> database" where
  "CreateSession src e userID db =
     (case randomToken src of
        Inl err \<Rightarrow> (Inl err, db)
      | Inr token \<Rightarrow>
          (case Exec e (\<lambda>db.
              if map_of (sessions db) token \<noteq> None then Inl UniqueViolation
              else if \<not> has_user db (Some userID) then Inl ForeignKeyViolation
              else Inr (1, db\<lparr>sessions := AList.update token
                     \<lparr>user_id = userID, expires_at = go_now e + SessionTTL\<rparr> (sessions db)\<rparr>)) db of
             Inl err \<Rightarrow> (Inl err, db)
           | Inr (n, db') \<Rightarrow> (Inr token, db')))"

definition GetSession :: "db_env \<Rightarrow> string \<Rightarrow> database \<Rightarrow> store_error + User" where
  "GetSession e token db =
     (if db_fault e then Inl DbFailed
      else case map_of (sessions db) token of
             None \<Rightarrow> Inl ErrNotFound
           | Some s \<Rightarrow>
               if expires_at s > db_now e
               then (case map_of (users db) (user_id s) of
                       None \<Rightarrow> Inl ErrNotFound
                     | Some u \<Rightarrow> Inr (user_of (user_id s, u)))
               else Inl ErrNotFound)"

definition DeleteSession :: "db_env \<Rightarrow> string \<Rightarrow> database \<Rightarrow> store_error option \<times> database" where
  "DeleteSession e token db =
     (case Exec e (\<lambda>db. Inr (1, db\<lparr>sessions := AList.delete token (sessions db)\<rparr>)) db of
        Inl err \<Rightarrow> (Some err, db)
      | Inr (n, db') \<Rightarrow> (None, db'))"

definition CleanupExpired :: "db_env \<Rightarrow> database \<Rightarrow> store_error option \<times> database" where
  "CleanupExpired e db =
     (case Exec e (\<lambda>db. Inr (1, db\<lparr>sessions := filter (\<lambda>(t, s). \<not> expires_at s \<le> db_now e) (sessions db)\<rparr>)) db of
        Inl err \<Rightarrow> (Some err, db)
      | Inr (n, db') \<Rightarrow> (None, db'))"

section \<open>Every method keeps the integrity of the database\<close>

lemma find_name_None: "find_name n us = None \<longleftrightarrow> n \<notin> set (map (\<lambda>(i, u). username u) us)"
  by (auto simp: find_name_def find_None_iff)

lemma find_name_Some: "find_name n us = Some (i, u) \<Longrightarrow> (i, u) \<in> set us \<and> username u = n"
  by (auto simp: find_name_def find_Some_iff in_set_conv_nth)

lemma find_name_append: "find_name n us = None \<Longrightarrow> find_name n (us @ xs) = find_name n xs"
  by (induction us) (auto simp: find_name_def split: if_splits)

lemma update_new: "map_of al k = None \<Longrightarrow> AList.update k v al = al @ [(k, v)]"
  by (induction al) auto

lemma CreateUser_inv:
  assumes "db_inv db" "CreateUser bc e newid name pw r db = (err, db')"
  shows "db_inv db'"
proof (cases "err = None")
  case False
  with assms show ?thesis
    by (auto simp: CreateUser_def Exec_def split: option.splits sum.splits if_splits)
next
  case True
  then obtain hash where hash: "GenerateFromPassword bc pw = Some hash"
    using assms(2) by (auto simp: CreateUser_def split: option.splits)
  define u where "u = \<lparr>username = name, user_password_hash = hash, role = r, created_at = db_now e\<rparr>"
  have new: "map_of (users db) newid = None" "\<not> find_name name (users db) \<noteq> None"
    and u: "username u = name" "db' = db\<lparr>users := users db @ [(newid, u)]\<rparr>"
    using assms(2) True hash by (auto simp: CreateUser_def Exec_def update_new u_def split: sum.splits if_splits)
  have "has_user db' w" if "has_user db w" for w
    using that by (auto simp: has_user_def u(2) map_add_def split: option.splits)
  moreover have "newid \<notin> fst ` set (users db)"
    using new(1) by (simp add: map_of_eq_None_iff)
  ultimately show ?thesis
    using assms(1) new(2) u(1) unfolding db_inv_def not_not find_name_None
    by (fastforce simp: u(2))
qed

lemma distinct_delete_names:
  "distinct (map f us) \<Longrightarrow> distinct (map f (AList.delete i us))"
  by (simp add: AList.delete_eq distinct_map_filter)

lemma DeleteUser_inv:
  assumes "db_inv db" "DeleteUser e i db = (err, db')"
  shows "db_inv db'"
proof (cases "err = None")
  case False
  with assms show ?thesis
    by (auto simp: DeleteUser_def Exec_def delete_user_def split: sum.splits if_splits)
next
  case True
  let ?f = "\<lambda>(d, r). (d, if updated_by r = Some i then r\<lparr>updated_by := None\<rparr> else r)"
  from True have db': "db' = db\<lparr>users := AList.delete i (users db),
      sessions := filter (\<lambda>(t, s). user_id s \<noteq> i) (sessions db), devices := map ?f (devices db)\<rparr>"
    using assms(2) by (auto simp: DeleteUser_def Exec_def delete_user_def split: if_splits)
  have user: "has_user db' w" if "has_user db w" "w \<noteq> Some i" for w
    using that by (auto simp: has_user_def db' delete_conv' split: option.splits)
  have "map fst (devices db') = map fst (devices db)"
    by (auto simp: db')
  then have "distinct (map fst (devices db'))"
    using assms(1) by (simp only: db_inv_def)
  moreover have "distinct (map fst (users db'))"
    "distinct (map (\<lambda>(i, u). username u) (users db'))"
    using assms(1) unfolding db_inv_def db' by (simp_all add: distinct_delete distinct_delete_names)
  moreover have "distinct (map fst (sessions db'))"
    using assms(1) by (simp add: db_inv_def db' distinct_map_filter)
  moreover have "public_key r \<noteq> None \<and> has_user db' (updated_by r)" if "(d, r) \<in> set (devices db')" for d r
  proof -
    have "(d, r) \<in> ?f ` set (devices db)"
      using that by (simp add: db')
    then obtain x where x: "(d, r) = ?f x" "x \<in> set (devices db)"
      by (rule imageE)
    obtain d0 r0 where "x = (d0, r0)"
      by (rule prod.exhaust)
    with x have r0: "(d, r0) \<in> set (devices db)" "(d, r) = ?f (d, r0)"
      by simp_all
    then have "public_key r0 \<noteq> None" "has_user db (updated_by r0)"
      using assms(1) by (auto simp: db_inv_def)
    then show ?thesis
      using r0(2) user by (auto simp: has_user_def split: if_splits)
  qed
  moreover have "has_user db' (Some (user_id s))" if "(t, s) \<in> set (sessions db')" for t s
    using that assms(1) user by (auto simp: db' db_inv_def)
  ultimately show ?thesis
    unfolding db_inv_def by blast
qed

lemma CreateSession_inv:
  assumes "db_inv db" "CreateSession src e u db = (res, db')"
  shows "db_inv db'"
proof (cases "db' = db")
  case False
  then obtain t s where db': "db' = db\<lparr>sessions := AList.update t s (sessions db)\<rparr>" and "has_user db (Some (user_id s))"
    using assms(2) by (auto simp: CreateSession_def Exec_def split: sum.splits if_splits)
  then have "\<forall>(t, s) \<in> set (sessions db'). has_user db (Some (user_id s))"
    using assms(1) alist.put_all [of "sessions db" "\<lambda>t s. has_user db (Some (user_id s))"] by (simp add: db_inv_def)
  with assms(1) db' show ?thesis
    by (simp add: db_inv_def distinct_update)
qed (use assms in simp)

lemma DeleteSession_inv:
  assumes "db_inv db" "DeleteSession e t db = (err, db')"
  shows "db_inv db'"
  using assms alist.remove_all [of "sessions db" "\<lambda>t s. has_user db (Some (user_id s))" t]
  by (auto simp: DeleteSession_def Exec_def db_inv_def distinct_delete split: sum.splits if_splits)

lemma CleanupExpired_inv:
  assumes "db_inv db" "CleanupExpired e db = (err, db')"
  shows "db_inv db'"
  using assms by (auto simp: CleanupExpired_def Exec_def db_inv_def distinct_map_filter split: if_splits)

lemma EnsureBootstrap_inv:
  assumes "db_inv db" "EnsureBootstrap bc e1 e2 newid name pw db = (err, db')"
  shows "db_inv db'"
  using assms CreateUser_inv [OF assms(1)] by (auto simp: EnsureBootstrap_def split: if_splits)

inductive db_step :: "bcrypt_lib \<Rightarrow> database \<Rightarrow> database \<Rightarrow> bool" for bc where
  "dev_exec bc e oper db = (err, db') \<Longrightarrow> db_step bc db db'"
| "CreateUser bc e newid name pw r db = (err, db') \<Longrightarrow> db_step bc db db'"
| "DeleteUser e i db = (err, db') \<Longrightarrow> db_step bc db db'"
| "EnsureBootstrap bc e1 e2 newid name pw db = (err, db') \<Longrightarrow> db_step bc db db'"
| "CreateSession src e u db = (res, db') \<Longrightarrow> db_step bc db db'"
| "DeleteSession e t db = (err, db') \<Longrightarrow> db_step bc db db'"
| "CleanupExpired e db = (err, db') \<Longrightarrow> db_step bc db db'"

interpretation db: transition_system "\<lambda>db. db = empty_db" "db_step bc" for bc .

lemma db_step_inv: "db_step bc db db' \<Longrightarrow> db_inv db \<Longrightarrow> db_inv db'"
  by (induction rule: db_step.induct)
    (blast intro: dev_exec_inv CreateUser_inv DeleteUser_inv EnsureBootstrap_inv CreateSession_inv
      DeleteSession_inv CleanupExpired_inv)+

lemma db_reach_inv: "db.reach bc db \<Longrightarrow> db_inv db"
  by (erule db.invariant) (auto simp: db_inv_empty db_step_inv)

section \<open>Tokens\<close>

definition unb64 :: "char \<Rightarrow> nat" where
  "unb64 c = length (takeWhile (\<lambda>x. x \<noteq> c) b64_chars)"

lemma unb64_table: "\<forall>n \<in> set [0..<64]. unb64 (b64 n) = n"
  by code_simp

lemma unb64_b64: "n < 64 \<Longrightarrow> unb64 (b64 n) = n"
  using unb64_table by simp

fun RawURLDecode :: "string \<Rightarrow> nat list" where
  "RawURLDecode (w # x # y # z # cs) =
     (let w = unb64 w; x = unb64 x; y = unb64 y; z = unb64 z in
      (4 * w + x div 16) # (16 * (x mod 16) + y div 4) # (64 * (y mod 4) + z) # RawURLDecode cs)"
| "RawURLDecode [w, x, y] =
     (let w = unb64 w; x = unb64 x; y = unb64 y in [4 * w + x div 16, 16 * (x mod 16) + y div 4])"
| "RawURLDecode [w, x] = [4 * unb64 w + unb64 x div 16]"
| "RawURLDecode _ = []"

lemma b64_bounds:
  fixes a b c :: nat
  assumes "a < 256" "b < 256" "c < 256"
  shows "a div 4 < 64" "16 * (a mod 4) + b div 16 < 64" "4 * (b mod 16) + c div 64 < 64" "c mod 64 < 64"
    "16 * (a mod 4) < 64" "4 * (b mod 16) < 64"
proof -
  have "a mod 4 < 4" "b mod 16 < 16"
    by simp_all
  moreover have "b div 16 < 16" "c div 64 < 4" "a div 4 < 64"
    using assms by (simp_all add: less_mult_imp_div_less)
  ultimately show "a div 4 < 64" "16 * (a mod 4) + b div 16 < 64" "4 * (b mod 16) + c div 64 < 64" "c mod 64 < 64"
    "16 * (a mod 4) < 64" "4 * (b mod 16) < 64"
    by simp_all
qed

lemma b64_join:
  fixes a b c :: nat
  assumes "b < 256" "c < 256"
  shows "4 * (a div 4) + (16 * (a mod 4) + b div 16) div 16 = a"
    "16 * ((16 * (a mod 4) + b div 16) mod 16) + (4 * (b mod 16) + c div 64) div 4 = b"
    "64 * ((4 * (b mod 16) + c div 64) mod 4) + c mod 64 = c"
proof -
  have d: "b div 16 < 16" "c div 64 < 4"
    using assms by (simp_all add: less_mult_imp_div_less)
  then show "4 * (a div 4) + (16 * (a mod 4) + b div 16) div 16 = a"
    "16 * ((16 * (a mod 4) + b div 16) mod 16) + (4 * (b mod 16) + c div 64) div 4 = b"
    "64 * ((4 * (b mod 16) + c div 64) mod 4) + c mod 64 = c"
    by simp_all
qed

lemma RawURLDecode_Encode: "\<forall>b \<in> set bs. b < 256 \<Longrightarrow> RawURLDecode (RawURLEncoding bs) = bs"
proof (induction bs rule: RawURLEncoding.induct)
  case (2 a)
  then show ?case
    using b64_bounds [of a 0 0] b64_join(1) [of 0 0 a] by (simp add: unb64_b64)
next
  case (3 a b)
  then show ?case
    using b64_bounds [of a b 0] b64_join(1,2) [of b 0 a] by (simp add: unb64_b64 Let_def)
next
  case (4 a b c bs)
  then have "a < 256" "b < 256" "c < 256"
    by simp_all
  note bounds = b64_bounds [OF this] and join = b64_join [OF this(2,3)]
  show ?case
    using 4 by (simp only: RawURLEncoding.simps RawURLDecode.simps Let_def unb64_b64 bounds join) simp
qed simp

lemma token_inject:
  assumes "randomToken (Some f) = Inr t" "randomToken (Some g) = Inr t" "i < 32"
  shows "f i = g i"
proof -
  let ?b = "\<lambda>f :: nat \<Rightarrow> byte. map (\<lambda>i. unat (f i)) [0..<32]"
  have "\<forall>b \<in> set (?b f). b < 256" for f
    by (auto simp: unat_byte_less)
  then have "?b f = ?b g"
    using assms(1,2) RawURLDecode_Encode by (metis randomToken_def option.case(2) sum.inject(2))
  then have "unat (f i) = unat (g i)"
    using assms(3) by (simp add: list_eq_iff_nth_eq)
  then show ?thesis
    by (rule unsigned_word_eqI)
qed

section \<open>Properties of accounts and sessions\<close>



text \<open>
  C33: A login session is accepted from its creation for exactly 24 hours by the clock of the
  database, for the user it was made for, and no longer after it or that user is deleted.
\<close>

theorem session_lifetime:
  assumes "CreateSession src e u db = (Inr token, db1)" and "db_inv db" and "\<not> db_fault e1" and "\<not> db_fault e2"
  shows "(\<exists>row. map_of (users db) u = Some row \<and> GetSession e1 token db1 =
      (if db_now e1 < go_now e + 24 * Hour then Inr (user_of (u, row)) else Inl ErrNotFound))
    \<and> GetSession e1 token (snd (DeleteSession e2 token db1)) = Inl ErrNotFound
    \<and> GetSession e1 token (snd (DeleteUser e2 u db1)) = Inl ErrNotFound"
proof -
  have db1: "db1 = db\<lparr>sessions := AList.update token \<lparr>user_id = u, expires_at = go_now e + SessionTTL\<rparr> (sessions db)\<rparr>"
    and "has_user db (Some u)"
    using assms(1) by (auto simp: CreateSession_def Exec_def split: sum.splits if_splits)
  then obtain row where row: "map_of (users db) u = Some row"
    by (auto simp: has_user_def)
  have "db_inv db1"
    using assms(2,1) by (rule CreateSession_inv)
  then have "distinct (map fst (sessions db1))"
    by (simp add: db_inv_def)
  moreover have s: "map_of (sessions db1) token = Some \<lparr>user_id = u, expires_at = go_now e + SessionTTL\<rparr>"
    by (simp add: db1 update_conv')
  ultimately have "map_of (filter (\<lambda>(t, s). user_id s \<noteq> u) (sessions db1)) token = None"
    by (fastforce simp: map_of_eq_None_iff dest: eq_key_imp_eq_value)
  moreover have "map_of (users db1) u = Some row"
    by (simp add: db1 row)
  ultimately have "GetSession e1 token (snd (DeleteUser e2 u db1)) = Inl ErrNotFound"
    using assms(3,4) by (simp add: GetSession_def DeleteUser_def Exec_def delete_user_def)
  then show ?thesis
    using assms(3,4) row s
    by (simp add: GetSession_def DeleteSession_def Exec_def delete_conv' SessionTTL_def db1 update_conv')
qed

theorem session_lifetime_witness:
  "\<exists>token db1. CreateSession (Some (\<lambda>_. 0)) (env_at 0) ''u'' db_one = (Inr token, db1) \<and>
     GetSession (env_at (25 * Hour)) token db1 = Inl ErrNotFound \<and>
     (\<exists>row. GetSession (env_at Hour) token db1 = Inr (user_of (''u'', row)))"
proof -
  obtain token db1 where c: "CreateSession (Some (\<lambda>_. 0)) (env_at 0) ''u'' db_one = (Inr token, db1)"
    by (simp add: CreateSession_def randomToken_def Exec_def env_at_def db_one_def has_user_def)
  have "db_inv db_one" "\<And>t. \<not> db_fault (env_at t)"
    by (simp_all add: db_inv_def db_one_def has_user_def env_at_def)
  note s = session_lifetime [OF c this this(2)]
  have "0 < Hour"
    by (simp add: Hour_def Minute_def Second_def)
  then show ?thesis
    using s [of "25 * Hour" 0] s [of Hour 0] c by (auto simp: env_at_def)
qed

text \<open>
  Two tokens are equal only when the 32 random bytes they encode are.
\<close>

theorem token_determines_bytes:
  assumes "randomToken (Some f) = Inr t" and "randomToken (Some g) = Inr t"
  shows "map f [0..<32] = map g [0..<32]"
  using token_inject [OF assms] by simp

theorem token_determines_bytes_witness:
  "\<exists>t. randomToken (Some (\<lambda>_. 7)) = Inr t \<and> map (\<lambda>_. 7 :: byte) [0..<32] = map (\<lambda>_. 7) [0..<32]"
  using token_determines_bytes [of "\<lambda>_. 7" _ "\<lambda>_. 7"] by (simp add: randomToken_def)

text \<open>
  After the start of the server with a database that answers and a working hash, an
  account of the configured name exists; a new one is an administrator that can log in with
  the configured password, and an existing one is left as it is.
\<close>

theorem bootstrap_account:
  assumes "EnsureBootstrap bc e1 e2 newid name pw db = (None, db')" and "db_inv db"
    and "\<And>p h. GenerateFromPassword bc p = Some h \<Longrightarrow> CompareHashAndPassword bc h p = HashMatch"
    and "\<not> db_fault e3"
  shows "(find_name name (users db) \<noteq> None \<longrightarrow> db' = db) \<and>
    (find_name name (users db) = None \<longrightarrow>
       (\<exists>u. VerifyUser bc e3 name pw db' = Inr u \<and> user_Role u = RoleAdmin \<and> Username u = name))"
proof (cases "find_name name (users db)")
  case (Some x)
  with assms(1) show ?thesis by (auto simp: EnsureBootstrap_def split: if_splits)
next
  case None
  then obtain hash where h: "GenerateFromPassword bc pw = Some hash"
    and db': "db' = db\<lparr>users := users db @ [(newid,
      \<lparr>username = name, user_password_hash = hash, role = RoleAdmin, created_at = db_now e2\<rparr>)]\<rparr>"
    using assms(1) by (auto simp: EnsureBootstrap_def CreateUser_def Exec_def update_new split: if_splits option.splits)
  have "find_name name (users db @ xs) = find_name name xs" for xs
    using None by (rule find_name_append)
  then have "find_name name (users db') =
      Some (newid, \<lparr>username = name, user_password_hash = hash, role = RoleAdmin, created_at = db_now e2\<rparr>)"
    by (simp add: db' find_name_def)
  with None assms(3) [OF h] assms(4) show ?thesis
    by (simp add: VerifyUser_def user_of_def)
qed

theorem bootstrap_account_witness:
  "\<exists>db' u. EnsureBootstrap plain_bcrypt (env_at 0) (env_at 0) ''u'' ''root'' ''pw'' empty_db = (None, db') \<and>
     VerifyUser plain_bcrypt (env_at 1) ''root'' ''pw'' db' = Inr u \<and> user_Role u = RoleAdmin"
proof -
  obtain db' where b: "EnsureBootstrap plain_bcrypt (env_at 0) (env_at 0) ''u'' ''root'' ''pw'' empty_db = (None, db')"
    by (simp add: EnsureBootstrap_def CreateUser_def Exec_def env_at_def plain_bcrypt_def empty_db_def find_name_def)
  have "find_name ''root'' (users empty_db) = None"
    by (simp add: empty_db_def find_name_def)
  then show ?thesis
    using bootstrap_account [OF b db_inv_empty, of "env_at 1"] b
    by (auto simp: plain_bcrypt_def env_at_def)
qed

end
