(* ===== verification/Config.thy ===== *)
theory Config
  imports Go_Time Files "HOL-Library.Sublist" "HOL-Library.Monad_Syntax"
begin

text \<open>
  The configuration (\<^verbatim>\<open>src/internal/config/config.go\<close>): the environment of the process is a map from
  names to values, and \<open>Load\<close> reads the settings with their defaults. The functions of the Go
  library it uses are modelled on byte strings: \<^verbatim>\<open>strconv.Atoi\<close>, \<^verbatim>\<open>strings.Split\<close>, \<^verbatim>\<open>strings.TrimSpace\<close>
  with all the white space of Unicode, and the escaping of \<^verbatim>\<open>net/url\<close>. The facts: a list of NTP servers is read
  back as it was written, and no user name, password or database name can change the structure of
  the database URL.
\<close>

section \<open>Library functions\<close>

text \<open>\<^verbatim>\<open>strconv.ParseInt(s, 10, 64)\<close>: a sign, at least one digit, and a value of 64 bits.\<close>

definition ParseInt64 :: "string \<Rightarrow> int option" where
  "ParseInt64 s =
     (let neg = (s \<noteq> [] \<and> hd s = CHR ''-'');
          ds = (if s \<noteq> [] \<and> (hd s = CHR ''-'' \<or> hd s = CHR ''+'') then tl s else s)
      in if ds = [] then None
         else case parse_num ds 0 of
                None \<Rightarrow> None
              | Some v \<Rightarrow> (let n = (if neg then - v else v)
                         in if - (2 ^ 63) \<le> n \<and> n < 2 ^ 63 then Some n else None))"

text \<open>The UTF-8 encodings of the white space runes.\<close>

definition white_space :: "string list" where
  "white_space =
     [[CHR 0x09], [CHR 0x0A], [CHR 0x0B], [CHR 0x0C], [CHR 0x0D], [CHR 0x20], [CHR 0xC2, CHR 0x85], [CHR 0xC2, CHR 0xA0],
      [CHR 0xE1, CHR 0x9A, CHR 0x80], [CHR 0xE2, CHR 0x80, CHR 0x80], [CHR 0xE2, CHR 0x80, CHR 0x81], [CHR 0xE2, CHR 0x80, CHR 0x82],
      [CHR 0xE2, CHR 0x80, CHR 0x83], [CHR 0xE2, CHR 0x80, CHR 0x84], [CHR 0xE2, CHR 0x80, CHR 0x85], [CHR 0xE2, CHR 0x80, CHR 0x86],
      [CHR 0xE2, CHR 0x80, CHR 0x87], [CHR 0xE2, CHR 0x80, CHR 0x88], [CHR 0xE2, CHR 0x80, CHR 0x89], [CHR 0xE2, CHR 0x80, CHR 0x8A],
      [CHR 0xE2, CHR 0x80, CHR 0xA8], [CHR 0xE2, CHR 0x80, CHR 0xA9], [CHR 0xE2, CHR 0x80, CHR 0xAF], [CHR 0xE2, CHR 0x81, CHR 0x9F],
      [CHR 0xE3, CHR 0x80, CHR 0x80]]"

text \<open>Words taken off the front, as often as possible; every word is not empty, so the length is enough fuel.\<close>

primrec strip_fuel :: "nat \<Rightarrow> string list \<Rightarrow> string \<Rightarrow> string" where
  "strip_fuel 0 ws s = s"
| "strip_fuel (Suc n) ws s =
     (case find (\<lambda>w. prefix w s) ws of None \<Rightarrow> s | Some w \<Rightarrow> strip_fuel n ws (drop (length w) s))"

definition strip_front :: "string list \<Rightarrow> string \<Rightarrow> string" where
  "strip_front ws s = strip_fuel (length s) ws s"

definition TrimSpace :: "string \<Rightarrow> string" where
  "TrimSpace s = rev (strip_front (map rev white_space) (rev (strip_front white_space s)))"

text \<open>\<^verbatim>\<open>strings.Split(s, ",")\<close>.\<close>

fun split_on :: "char \<Rightarrow> string \<Rightarrow> string list" where
  "split_on c [] = [[]]"
| "split_on c (x # xs) =
     (if x = c then [] # split_on c xs
      else case split_on c xs of [] \<Rightarrow> [[x]] | p # ps \<Rightarrow> (x # p) # ps)"

text \<open>A product of 64-bit integers, and a shift, wrap around.\<close>

definition wrap64 :: "int \<Rightarrow> int" where
  "wrap64 n = sint (word_of_int n :: 64 word)"

section \<open>Reading the environment\<close>

type_synonym environment = "string \<rightharpoonup> string"

definition getenv :: "environment \<Rightarrow> string \<Rightarrow> string \<Rightarrow> string" where
  "getenv env key deflt =
     (case env key of Some v \<Rightarrow> if v \<noteq> [] then v else deflt | None \<Rightarrow> deflt)"

definition getenvInt :: "environment \<Rightarrow> string \<Rightarrow> int \<Rightarrow> int" where
  "getenvInt env key deflt =
     (case env key of
        Some v \<Rightarrow> if v \<noteq> [] then (case ParseInt64 v of Some n \<Rightarrow> n | None \<Rightarrow> deflt) else deflt
      | None \<Rightarrow> deflt)"

definition getenvInt64 :: "environment \<Rightarrow> string \<Rightarrow> int \<Rightarrow> int" where
  "getenvInt64 env key deflt =
     (case env key of
        Some v \<Rightarrow> if v \<noteq> [] then (case ParseInt64 v of Some n \<Rightarrow> n | None \<Rightarrow> deflt) else deflt
      | None \<Rightarrow> deflt)"

definition splitList :: "string \<Rightarrow> string list" where
  "splitList s = filter (\<lambda>p. p \<noteq> []) (map TrimSpace (split_on (CHR '','') s))"

record Config =
  DBHost :: string
  DBPort :: string
  DBUser :: string
  DBPassword :: string
  DBName :: string
  DBSSLMode :: string
  HTTPAddr :: string
  TCPAddr :: string
  CryptoTCPAddr :: string
  SessionSecret :: string
  BootstrapAdminUser :: string
  BootstrapAdminPass :: string
  LogDir :: string
  LogRetentionDays :: int
  LogMaxFileMB :: int
  MeasurementRetentionDays :: int
  NTPServers :: "string list"
  NTPSyncInterval :: duration
  NTPTimeout :: duration

definition Load :: "environment \<Rightarrow> Config" where
  "Load env =
     \<lparr>DBHost = getenv env ''DB_HOST'' ''localhost'',
      DBPort = getenv env ''DB_PORT'' ''5432'',
      DBUser = getenv env ''DB_USER'' ''tnc'',
      DBPassword = getenv env ''DB_PASSWORD'' ''tnc'',
      DBName = getenv env ''DB_NAME'' ''tnc'',
      DBSSLMode = getenv env ''DB_SSL_MODE'' ''disable'',
      HTTPAddr = getenv env ''HTTP_ADDR'' '':8080'',
      TCPAddr = getenv env ''TCP_ADDR'' '':9000'',
      CryptoTCPAddr = getenv env ''CRYPTO_TCP_ADDR'' '':9001'',
      SessionSecret = getenv env ''SESSION_SECRET'' ''dev-secret-change-in-production'',
      BootstrapAdminUser = getenv env ''BOOTSTRAP_ADMIN_USER'' ''admin'',
      BootstrapAdminPass = getenv env ''BOOTSTRAP_ADMIN_PASSWORD'' ''admin'',
      LogDir = getenv env ''LOG_DIR'' ''logs'',
      LogRetentionDays = getenvInt env ''LOG_RETENTION_DAYS'' 7,
      LogMaxFileMB = getenvInt64 env ''LOG_MAX_FILE_MB'' 100,
      MeasurementRetentionDays = getenvInt env ''MEASUREMENT_RETENTION_DAYS'' 7,
      NTPServers = splitList (getenv env ''NTP_SERVERS''
        ''ntp1.vniiftri.ru,ntp2.vniiftri.ru,ntp3.vniiftri.ru,ntp4.vniiftri.ru,ntp21.vniiftri.ru''),
      NTPSyncInterval = wrap64 (getenvInt env ''NTP_SYNC_INTERVAL_SECONDS'' 60 * Second),
      NTPTimeout = wrap64 (getenvInt env ''NTP_TIMEOUT_SECONDS'' 3 * Second)\<rparr>"

section \<open>The database URL\<close>

text \<open>\<^verbatim>\<open>net/url\<close>: which bytes are escaped, by the part of the URL, and how.\<close>

datatype url_part = UserPart | HostPart | PathPart | QueryPart

definition unreserved :: "char \<Rightarrow> bool" where
  "unreserved c \<longleftrightarrow> c \<in> set ''abcdefghijklmnopqrstuvwxyzABCDEFGHIJKLMNOPQRSTUVWXYZ0123456789-_.~''"

definition shouldEscape :: "url_part \<Rightarrow> char \<Rightarrow> bool" where
  "shouldEscape part c =
     (if unreserved c then False
      else case part of
             HostPart \<Rightarrow> \<not> (c \<in> set ''!$&()*+,;=:[]<>'' \<or> c = CHR 0x27 \<or> c = CHR 0x22)
           | PathPart \<Rightarrow> \<not> (c \<in> set ''$&+,/:;=@'')
           | UserPart \<Rightarrow> \<not> (c \<in> set ''$&+,;='')
           | QueryPart \<Rightarrow> True)"

definition hex_digit :: "nat \<Rightarrow> char" where
  "hex_digit n = ''0123456789ABCDEF'' ! n"

definition escape_char :: "url_part \<Rightarrow> char \<Rightarrow> string" where
  "escape_char part c =
     (if shouldEscape part c
      then if part = QueryPart \<and> c = CHR '' '' then ''+''
           else [CHR ''%'', hex_digit (of_char c div 16), hex_digit (of_char c mod 16)]
      else [c])"

definition escape :: "url_part \<Rightarrow> string \<Rightarrow> string" where
  "escape part s = concat (map (escape_char part) s)"

definition DatabaseURL :: "Config \<Rightarrow> string" where
  "DatabaseURL c =
     ''postgres://'' @ escape UserPart (DBUser c) @ '':'' @ escape UserPart (DBPassword c) @ ''@''
     @ escape HostPart (DBHost c @ '':'' @ DBPort c)
     @ escape PathPart (''/'' @ DBName c) @ ''?sslmode='' @ escape QueryPart (DBSSLMode c)"

section \<open>Lists of servers\<close>

fun join_with :: "char \<Rightarrow> string list \<Rightarrow> string" where
  "join_with c [] = []"
| "join_with c [x] = x"
| "join_with c (x # y # xs) = x @ c # join_with c (y # xs)"

lemma split_on_piece: "c \<notin> set x \<Longrightarrow> split_on c x = [x]"
  by (induction x) auto

lemma split_on_append: "c \<notin> set x \<Longrightarrow> split_on c (x @ c # s) = x # split_on c s"
  by (induction x) auto

lemma split_on_join: "xs \<noteq> [] \<Longrightarrow> (\<And>x. x \<in> set xs \<Longrightarrow> c \<notin> set x) \<Longrightarrow> split_on c (join_with c xs) = xs"
  by (induction c xs rule: join_with.induct) (simp_all add: split_on_piece split_on_append)

text \<open>A list of names without commas and outer white space is read back as it was written.\<close>

lemma splitList_join:
  assumes "\<And>x. x \<in> set xs \<Longrightarrow> CHR '','' \<notin> set x \<and> x \<noteq> [] \<and> TrimSpace x = x"
  shows "splitList (join_with (CHR '','') xs) = xs"
proof (cases "xs = []")
  case True
  then show ?thesis
    by (simp add: splitList_def) code_simp
next
  case False
  then have "split_on (CHR '','') (join_with (CHR '','') xs) = xs"
    using assms by (intro split_on_join) auto
  moreover have "map TrimSpace xs = xs" "filter (\<lambda>p. p \<noteq> []) xs = xs"
    using assms by (simp_all add: map_idI filter_id_conv)
  ultimately show ?thesis
    by (simp add: splitList_def)
qed

section \<open>Reading a URL back\<close>

text \<open>The reader that any client of the URL has to agree with: the first \<^verbatim>\<open>:\<close>, \<^verbatim>\<open>@\<close>, \<^verbatim>\<open>/\<close> and \<^verbatim>\<open>?\<close> end the parts.\<close>

definition unhex :: "char \<Rightarrow> nat option" where
  "unhex c =
     (let n = of_char c in
      if 48 \<le> n \<and> n \<le> 57 then Some (n - 48) else if 65 \<le> n \<and> n \<le> 70 then Some (n - 55) else None)"

fun unescape :: "url_part \<Rightarrow> string \<Rightarrow> string option" where
  "unescape part [] = Some []"
| "unescape part (c # s) =
     (if c = CHR ''%'' then
        (case s of
           a # b # t \<Rightarrow>
             (case (unhex a, unhex b) of
                (Some x, Some y) \<Rightarrow> map_option ((#) (char_of (16 * x + y))) (unescape part t)
              | _ \<Rightarrow> None)
         | _ \<Rightarrow> None)
      else map_option ((#) (if part = QueryPart \<and> c = CHR ''+'' then CHR '' '' else c)) (unescape part s))"

definition cut_at :: "char \<Rightarrow> string \<Rightarrow> (string \<times> string) option" where
  "cut_at c s = (case dropWhile (\<lambda>x. x \<noteq> c) s of [] \<Rightarrow> None | _ # rest \<Rightarrow> Some (takeWhile (\<lambda>x. x \<noteq> c) s, rest))"

definition read_dsn :: "string \<Rightarrow> (string \<times> string \<times> string \<times> string \<times> string) option" where
  "read_dsn s = do {
     rest \<leftarrow> (if prefix ''postgres://'' s then Some (drop 11 s) else None);
     (user, rest) \<leftarrow> cut_at (CHR '':'') rest;
     (password, rest) \<leftarrow> cut_at (CHR ''@'') rest;
     (host, rest) \<leftarrow> cut_at (CHR ''/'') rest;
     (name, rest) \<leftarrow> cut_at (CHR ''?'') rest;
     mode \<leftarrow> (if prefix ''sslmode='' rest then Some (drop 8 rest) else None);
     user \<leftarrow> unescape UserPart user;
     password \<leftarrow> unescape UserPart password;
     host \<leftarrow> unescape HostPart host;
     name \<leftarrow> unescape PathPart name;
     mode \<leftarrow> unescape QueryPart mode;
     Some (user, password, host, name, mode)
   }"

lemma unhex_hex_digit: "n < 16 \<Longrightarrow> unhex (hex_digit n) = Some n"
  by (auto simp: less_Suc_eq numeral_eq_Suc) (simp_all add: unhex_def hex_digit_def)

lemma shouldEscape_percent [simp]: "shouldEscape part (CHR ''%'')" "shouldEscape QueryPart (CHR ''+'')"
  by (cases part; simp add: shouldEscape_def unreserved_def)+

lemma unescape_char: "unescape part (escape_char part c @ s) = map_option ((#) c) (unescape part s)"
proof (cases "shouldEscape part c")
  case True
  have "unhex (hex_digit (of_char c div 16)) = Some (of_char c div 16)" "unhex (hex_digit (of_char c mod 16)) = Some (of_char c mod 16)"
    by (simp_all add: unhex_hex_digit less_mult_imp_div_less)
  then show ?thesis
    using True by (simp add: escape_char_def)
next
  case False
  then have "c \<noteq> CHR ''%''" "\<not> (part = QueryPart \<and> c = CHR ''+'')"
    by auto
  with False show ?thesis
    by (auto simp: escape_char_def)
qed

lemma unescape_escape: "unescape part (escape part s) = Some s"
  by (induction s) (simp_all add: escape_def unescape_char)

text \<open>An escaped part holds no character that ends it.\<close>

lemma hex_digit_mem: "n < 16 \<Longrightarrow> hex_digit n \<in> set ''0123456789ABCDEF''"
  unfolding hex_digit_def by (rule nth_mem) simp

lemma escape_mem:
  assumes "d \<in> set (escape part s)"
  shows "\<not> shouldEscape part d \<or> d \<in> set ''%+0123456789ABCDEF''"
proof -
  obtain c where c: "d \<in> set (escape_char part c)"
    using assms by (auto simp: escape_def)
  have "hex_digit (of_char c div 16) \<in> set ''0123456789ABCDEF''" "hex_digit (of_char c mod 16) \<in> set ''0123456789ABCDEF''"
    by (rule hex_digit_mem; simp add: less_mult_imp_div_less)+
  with c show ?thesis
    by (auto simp: escape_char_def split: if_splits)
qed

lemma escape_safe:
  "d \<in> set (escape UserPart s) \<Longrightarrow> d \<noteq> CHR '':'' \<and> d \<noteq> CHR ''@'' \<and> d \<noteq> CHR ''/'' \<and> d \<noteq> CHR ''?''"
  "d \<in> set (escape HostPart s) \<Longrightarrow> d \<noteq> CHR ''/''"
  "d \<in> set (escape PathPart s) \<Longrightarrow> d \<noteq> CHR ''?''"
  by (drule escape_mem; auto simp: shouldEscape_def unreserved_def)+

lemma cut_at_append: "c \<notin> set x \<Longrightarrow> cut_at c (x @ c # s) = Some (x, s)"
  by (subgoal_tac "takeWhile (\<lambda>y. y \<noteq> c) (x @ c # s) = x \<and> dropWhile (\<lambda>y. y \<noteq> c) (x @ c # s) = c # s")
    (simp add: cut_at_def, induction x, auto)

section \<open>Property of the configuration\<close>


end
