(* ===== verification/Startup.thy ===== *)
theory Startup
  imports Connection_Loop User_Store Config "HOL-Library.Char_ord" "HOL-Library.List_Lexorder"
begin

text \<open>
  From the configuration to the running server: the connection to the database and the migrations
  (\<^verbatim>\<open>src/internal/db/db.go\<close>), the function \<^verbatim>\<open>run\<close> of \<^verbatim>\<open>src/cmd/server/main.go\<close>, the accept loop and the stop of
  the TCP server (\<^verbatim>\<open>src/internal/tcp/crypto_server.go\<close>), and the health monitor
  (\<^verbatim>\<open>src/internal/health/monitor.go\<close>). The database server is a parameter: whether a pool can be made
  and answers, and what a script of SQL statements does, which is one transaction. A directory
  is the list of its entries with whether each is a directory itself.
\<close>

section \<open>The database\<close>

datatype connect_error = PoolFailed | PingFailed

definition Connect :: "(string \<Rightarrow> (bool \<times> database) option) \<Rightarrow> string \<Rightarrow> connect_error + database" where
  "Connect pg dsn =
     (case pg dsn of
        None \<Rightarrow> Inl PoolFailed
      | Some (answers, db) \<Rightarrow> if \<not> answers then Inl PingFailed else Inr db)"

text \<open>\<^verbatim>\<open>filepath.Ext\<close>: from the last dot of the last element on.\<close>

definition Ext :: "string \<Rightarrow> string" where
  "Ext name =
     (let tail = takeWhile (\<lambda>c. c \<noteq> CHR ''.'' \<and> c \<noteq> CHR ''/'') (rev name) in
      case drop (length tail) (rev name) of
        [] \<Rightarrow> []
      | c # _ \<Rightarrow> if c = CHR ''.'' then c # rev tail else [])"

datatype migrate_error = ReadDirFailed | ReadMigrationFailed string | ApplyMigrationFailed string

definition migration_files :: "(string \<times> bool) list \<Rightarrow> string list" where
  "migration_files entries = sort (map fst (filter (\<lambda>(name, is_dir). \<not> is_dir \<and> Ext name = ''.sql'') entries))"

fun migrate_loop ::
  "(string \<Rightarrow> string option) \<Rightarrow> (string \<Rightarrow> 'd \<Rightarrow> 'd option) \<Rightarrow> string list \<Rightarrow> 'd \<Rightarrow> migrate_error option \<times> 'd" where
  "migrate_loop readFile exec [] db = (None, db)"
| "migrate_loop readFile exec (name # names) db =
     (case readFile name of
        None \<Rightarrow> (Some (ReadMigrationFailed name), db)
      | Some sql \<Rightarrow>
          (case exec sql db of
             None \<Rightarrow> (Some (ApplyMigrationFailed name), db)
           | Some db \<Rightarrow> migrate_loop readFile exec names db))"

definition Migrate ::
  "(string \<times> bool) list option \<Rightarrow> (string \<Rightarrow> string option) \<Rightarrow> (string \<Rightarrow> 'd \<Rightarrow> 'd option) \<Rightarrow> 'd
   \<Rightarrow> migrate_error option \<times> 'd" where
  "Migrate dir readFile exec db =
     (case dir of
        None \<Rightarrow> (Some ReadDirFailed, db)
      | Some entries \<Rightarrow> migrate_loop readFile exec (migration_files entries) db)"

section \<open>The start of the server\<close>

record start_env =
  st_pg :: "string \<Rightarrow> (bool \<times> database) option"
  st_dir :: "(string \<times> bool) list option"
  st_readFile :: "string \<Rightarrow> string option"
  st_exec :: "string \<Rightarrow> database \<Rightarrow> database option"
  st_rows :: "Measurement list"
  st_bcrypt :: bcrypt_lib
  st_find :: db_env
  st_create :: db_env
  st_uuid :: uuid
  st_now :: time
  st_logs_unreadable :: bool
  st_rm_fails :: "string \<Rightarrow> (string \<Rightarrow> bool) option"
  st_fs :: fs
  st_templates_ok :: bool

datatype startup_error =
    ConnectError connect_error
  | MigrateError migrate_error
  | BootstrapError store_error
  | TemplateError

text \<open>
  \<^verbatim>\<open>run\<close> up to the wait for a signal. The errors of the log cleanup are only printed. The templates are
  parsed last, when the TCP server runs already.
\<close>

definition startup :: "environment \<Rightarrow> start_env \<Rightarrow> startup_error + server" where
  "startup env e =
     (let cfg = Load env in
      case Connect (st_pg e) (DatabaseURL cfg) of
        Inl err \<Rightarrow> Inl (ConnectError err)
      | Inr db \<Rightarrow>
          (case Migrate (st_dir e) (st_readFile e) (st_exec e) db of
             (Some err, _) \<Rightarrow> Inl (MigrateError err)
           | (None, db) \<Rightarrow>
               (let measurements = Start (NewMeasurementStore (st_rows e) (MeasurementRetentionDays cfg)) in
                case EnsureBootstrap (st_bcrypt e) (st_find e) (st_create e) (st_uuid e)
                       (BootstrapAdminUser cfg) (BootstrapAdminPass cfg) db of
                  (Some err, _) \<Rightarrow> Inl (BootstrapError err)
                | (None, db) \<Rightarrow>
                    (let clock = NewClock (NTPServers cfg) (NTPSyncInterval cfg) (NTPTimeout cfg);
                         frameLogs = NewFrameLogger (wrap64 (LogMaxFileMB cfg * 2 ^ 20));
                         (removed, fs) = cleanupOldLogsAt (st_logs_unreadable e) (st_rm_fails e) (LogRetentionDays cfg) (st_now e) (st_fs e)
                     in if \<not> st_templates_ok e then Inl TemplateError
                        else Inr \<lparr>sv_db = db, sv_hub = hub_New, sv_logs = Some (frameLogs, fs),
                               sv_measurements = Some measurements, sv_clock = Some clock,
                               sv_logChan = Some (make_chan 1000), sv_timeLogs = Some (make_chan 1024)\<rparr>))))"

text \<open>The two background goroutines of \<^verbatim>\<open>run\<close>, one tick each; they print what fails and go on.\<close>

definition sessions_tick :: "db_env \<Rightarrow> server \<Rightarrow> server" where
  "sessions_tick e sv = sv\<lparr>sv_db := snd (CleanupExpired e (sv_db sv))\<rparr>"

definition logs_tick :: "Config \<Rightarrow> bool \<Rightarrow> (string \<Rightarrow> (string \<Rightarrow> bool) option) \<Rightarrow> time \<Rightarrow> server \<Rightarrow> server" where
  "logs_tick cfg unreadable rm_fails now sv =
     sv\<lparr>sv_logs := map_option (\<lambda>(fl, fs). (fl, snd (cleanupOldLogsAt unreadable rm_fails (LogRetentionDays cfg) now fs))) (sv_logs sv)\<rparr>"

text \<open>
  The end of \<^verbatim>\<open>run\<close>, after the connections have ended: the file logs are closed, then, by the deferred
  calls, the hub is stopped and the measurements are closed. Closing the two channels has no
  counterpart, because nothing sends to them any more.
\<close>

definition graceful_shutdown :: "server \<Rightarrow> server option" where
  "graceful_shutdown sv = do {
     let sv = sv\<lparr>sv_logs := map_option CloseAll (sv_logs sv)\<rparr>;
     hb \<leftarrow> Stop (sv_hub sv);
     Some (sv\<lparr>sv_hub := hb, sv_measurements := map_option CloseMeasurements (sv_measurements sv)\<rparr>)
   }"

section \<open>The accept loop\<close>

text \<open>
  The listener of \<^verbatim>\<open>CryptoServer\<close>: the connections it started, and whether it was asked to stop. An
  accept gives a connection or fails; after a stop the failure is the regular end.
\<close>

record listener =
  ln_conns :: nat
  ln_quit :: bool
  ln_closed :: bool

datatype accept = NewConn | AcceptError
datatype accept_result = Accepting listener | ServerStopped listener | ServerFailed listener

definition ListenAndServe_step :: "accept \<Rightarrow> listener \<Rightarrow> accept_result" where
  "ListenAndServe_step a l =
     (case a of
        NewConn \<Rightarrow> Accepting (l\<lparr>ln_conns := ln_conns l + 1\<rparr>)
      | AcceptError \<Rightarrow> if ln_quit l then ServerStopped l else ServerFailed l)"

text \<open>
  \<^verbatim>\<open>Shutdown\<close> up to its wait for the connections, which nothing ends but their peers. A second call
  closes a closed channel and panics.
\<close>

definition Shutdown :: "listener \<Rightarrow> listener option" where
  "Shutdown l = (if ln_quit l then None else Some (l\<lparr>ln_quit := True, ln_closed := True\<rparr>))"

section \<open>The health monitor\<close>

text \<open>
  The state of the goroutine of the monitor: the message count and time of the last tick and the highest
  rate so far. \<open>mon_done\<close> is the channel: nil, open or closed. The figures of the Go runtime
  in the printed line are left out.
\<close>

datatype done_chan = NilChan | OpenChan | ClosedChan

record Monitor =
  mon_done :: done_chan
  mon_prevMsg :: u64
  mon_prevTime :: "time option"
  mon_peak :: f64

record health_line =
  hl_msgs :: u64
  hl_rate :: f64
  hl_peak :: f64
  hl_subs :: u64

definition NewMonitor :: Monitor where
  "NewMonitor = \<lparr>mon_done = NilChan, mon_prevMsg = 0, mon_prevTime = None, mon_peak = 0\<rparr>"

definition StartMonitor :: "Monitor \<Rightarrow> Monitor" where
  "StartMonitor m = \<lparr>mon_done = OpenChan, mon_prevMsg = 0, mon_prevTime = None, mon_peak = 0\<rparr>"

definition health_tick :: "hub option \<Rightarrow> time \<Rightarrow> Monitor \<Rightarrow> health_line \<times> Monitor" where
  "health_tick hb now m =
     (let subs = (case hb of None \<Rightarrow> 0 | Some h \<Rightarrow> SubCount h);
          msgTotal = (case hb of None \<Rightarrow> 0 | Some h \<Rightarrow> MsgTotal h);
          (msgRate, peak) =
            (case mon_prevTime m of
               None \<Rightarrow> (0, mon_peak m)
             | Some prev \<Rightarrow>
                 let elapsed = Seconds (time_Sub now prev);
                     rate = (if f64_less 0 elapsed then f64_div (f64_of_int (uint (msgTotal - mon_prevMsg m))) elapsed else 0)
                 in (rate, if f64_less (mon_peak m) rate then rate else mon_peak m))
      in (\<lparr>hl_msgs = msgTotal, hl_rate = msgRate, hl_peak = peak, hl_subs = subs\<rparr>,
          m\<lparr>mon_prevMsg := msgTotal, mon_prevTime := Some now, mon_peak := peak\<rparr>))"

definition StopMonitor :: "Monitor \<Rightarrow> Monitor" where
  "StopMonitor m = (case mon_done m of NilChan \<Rightarrow> m | ClosedChan \<Rightarrow> m | OpenChan \<Rightarrow> m\<lparr>mon_done := ClosedChan\<rparr>)"

section \<open>Migrations\<close>

text \<open>Migrations applied in order, as long as each can be read and applied.\<close>

definition apply_all :: "(string \<Rightarrow> string option) \<Rightarrow> (string \<Rightarrow> 'd \<Rightarrow> 'd option) \<Rightarrow> string list \<Rightarrow> 'd \<Rightarrow> 'd option" where
  "apply_all readFile exec names db =
     fold (\<lambda>name acc. do { db \<leftarrow> acc; sql \<leftarrow> readFile name; exec sql db }) names (Some db)"

lemma apply_all_Cons:
  "apply_all readFile exec (n # ns) db =
     (case readFile n of None \<Rightarrow> None | Some sql \<Rightarrow> (case exec sql db of None \<Rightarrow> None | Some db \<Rightarrow> apply_all readFile exec ns db))"
proof -
  have "fold (\<lambda>name acc. do { db \<leftarrow> acc; sql \<leftarrow> readFile name; exec sql db }) ns None = None"
    by (induction ns) simp_all
  then show ?thesis
    by (simp add: apply_all_def split: option.split)
qed

lemma migrate_loop_spec:
  assumes "migrate_loop readFile exec names db = (err, db')"
  shows "\<exists>k \<le> length names. apply_all readFile exec (take k names) db = Some db'
    \<and> (err = None \<longleftrightarrow> k = length names)
    \<and> (\<forall>e. err = Some e \<longrightarrow> e \<in> {ReadMigrationFailed (names ! k), ApplyMigrationFailed (names ! k)})"
  using assms
proof (induction readFile exec names db rule: migrate_loop.induct)
  case (1 readFile exec db)
  then show ?case
    by (simp add: apply_all_def)
next
  case (2 readFile exec name names db)
  show ?case
  proof (cases "do { sql \<leftarrow> readFile name; exec sql db }")
    case None
    then show ?thesis
      using 2(2) by (intro exI [of _ 0]) (auto simp: apply_all_def bind_eq_None_conv split: option.splits)
  next
    case (Some db1)
    then obtain sql where sql: "readFile name = Some sql" "exec sql db = Some db1"
      by (auto simp: bind_eq_Some_conv)
    then have "migrate_loop readFile exec names db1 = (err, db')"
      using 2(2) by simp
    from 2(1) [OF sql this] obtain k where "k \<le> length names" "apply_all readFile exec (take k names) db1 = Some db'"
      "err = None \<longleftrightarrow> k = length names"
      "\<forall>e. err = Some e \<longrightarrow> e \<in> {ReadMigrationFailed (names ! k), ApplyMigrationFailed (names ! k)}"
      by blast
    then show ?thesis
      using sql by (intro exI [of _ "Suc k"]) (simp add: apply_all_Cons)
  qed
qed

lemma migration_files_sorted:
  "distinct (map fst entries) \<Longrightarrow> sorted_wrt (<) (migration_files entries)"
  "set (migration_files entries) = {n. (n, False) \<in> set entries \<and> Ext n = ''.sql''}"
proof -
  show "distinct (map fst entries) \<Longrightarrow> sorted_wrt (<) (migration_files entries)"
    unfolding strict_sorted_iff by (auto simp: migration_files_def intro: distinct_map_filter)
  show "set (migration_files entries) = {n. (n, False) \<in> set entries \<and> Ext n = ''.sql''}"
    by (force simp: migration_files_def image_iff)
qed

lemma apply_all_inv:
  "apply_all readFile exec names db = Some db' \<Longrightarrow> (\<And>sql db db'. exec sql db = Some db' \<Longrightarrow> I db \<Longrightarrow> I db') \<Longrightarrow> I db \<Longrightarrow> I db'"
proof (induction names arbitrary: db)
  case Nil
  then show ?case
    by (simp add: apply_all_def)
next
  case (Cons n ns)
  then show ?case
    by (auto simp: apply_all_Cons split: option.splits)
qed

lemma Migrate_inv:
  assumes "Migrate dir readFile exec db = (None, db')" "\<And>sql db db'. exec sql db = Some db' \<Longrightarrow> I db \<Longrightarrow> I db'" "I db"
  shows "I db'"
proof -
  obtain entries where "migrate_loop readFile exec (migration_files entries) db = (None, db')"
    using assms(1) by (auto simp: Migrate_def split: option.splits)
  from migrate_loop_spec [OF this] obtain k where "apply_all readFile exec (take k (migration_files entries)) db = Some db'"
    by blast
  then show ?thesis
    using assms(2,3) by (rule apply_all_inv)
qed

lemma bootstrap_user:
  assumes "EnsureBootstrap bc e1 e2 i name pw db = (None, db')"
  shows "find_name name (users db') \<noteq> None"
proof (cases "find_name name (users db) = None")
  case True
  obtain hash where "db' = db\<lparr>users := users db @
      [(i, \<lparr>username = name, user_password_hash = hash, role = RoleAdmin, created_at = db_now e2\<rparr>)]\<rparr>"
    using assms True by (auto simp: EnsureBootstrap_def CreateUser_def Exec_def update_new split: if_splits option.splits)
  then show ?thesis
    using find_name_append [OF True] by (simp add: find_name_def)
qed (use assms in \<open>auto simp: EnsureBootstrap_def split: if_splits\<close>)

text \<open>The constructors replace settings that are not positive.\<close>

lemma constructors_positive:
  "servers (NewClock srvs i t) \<noteq> [] \<and> 0 < interval (NewClock srvs i t) \<and> 0 < timeout (NewClock srvs i t)"
  "1 \<le> ms_retentionDays (Start (NewMeasurementStore rows d)) \<and> ms_inserting (Start (NewMeasurementStore rows d))
     \<and> ch_buf (ms_ch (Start (NewMeasurementStore rows d))) = []"
  "fl_sessions (NewFrameLogger n) = []"
  by (simp_all add: NewClock_def NewMeasurementStore_def Start_def NewFrameLogger_def make_chan_def duration_defs)

section \<open>Properties of the start\<close>

text \<open>
  C21: The migrations are the files with the extension \<^verbatim>\<open>.sql\<close>, each once, in the order of their names; they are
  applied from the first on. When a file cannot be read or applied, the error names it, exactly the files before
  it have been applied and none behind it; without an error all have been.
\<close>

theorem migrations_in_order:
  assumes "Migrate (Some entries) readFile exec db = (err, db')" and "distinct (map fst entries)"
  shows "\<exists>files k. sorted_wrt (<) files \<and> set files = {n. (n, False) \<in> set entries \<and> Ext n = ''.sql''}
    \<and> k \<le> length files \<and> apply_all readFile exec (take k files) db = Some db' \<and> (err = None \<longleftrightarrow> k = length files)
    \<and> (\<forall>e. err = Some e \<longrightarrow> e \<in> {ReadMigrationFailed (files ! k), ApplyMigrationFailed (files ! k)})"
proof -
  have "migrate_loop readFile exec (migration_files entries) db = (err, db')"
    using assms(1) by (simp add: Migrate_def)
  from migrate_loop_spec [OF this] show ?thesis
    using migration_files_sorted [of entries] assms(2) by blast
qed

theorem migrations_in_order_witness:
  "\<exists>files k. set files = {''1.sql'', ''2.sql''} \<and> k < length files
     \<and> apply_all (\<lambda>n. Some n) (\<lambda>sql d. if sql = ''2.sql'' then None else Some (d @ [sql])) (take k files) [] = Some [''1.sql'']"
proof -
  let ?es = "[(''2.sql'', False), (''README.md'', False), (''1.sql'', False), (''old.sql'', True)]"
    and ?ex = "\<lambda>sql d. if sql = ''2.sql'' then None else Some (d @ [sql])"
  have m: "Migrate (Some ?es) (\<lambda>n. Some n) ?ex [] = (Some (ApplyMigrationFailed ''2.sql''), [''1.sql''])"
    by code_simp
  have "{n. (n, False) \<in> set ?es \<and> Ext n = ''.sql''} = {''1.sql'', ''2.sql''}"
    by (auto simp: Ext_def Let_def)
  then show ?thesis
    using migrations_in_order [OF m] by (auto simp: le_less)
qed


definition sample_start :: start_env where
  "sample_start = \<lparr>st_pg = (\<lambda>_. Some (True, empty_db)), st_dir = Some [(''0001_init.sql'', False)], st_readFile = (\<lambda>n. Some n),
     st_exec = (\<lambda>_ db. Some db), st_rows = [], st_bcrypt = plain_bcrypt, st_find = env_at 0, st_create = env_at 0,
     st_uuid = ''u'', st_now = 0, st_logs_unreadable = False, st_rm_fails = (\<lambda>_. None),
     st_fs = \<lparr>fs_root = False, fs_dirs = [], fs_plain = []\<rparr>, st_templates_ok = True\<rparr>"


end
