(* ===== verification/Web.thy ===== *)
theory Web
  imports User_Store Measurements "HOL-Library.List_Lexorder"
begin

text \<open>
  The web form: routes and access rules (\<^verbatim>\<open>src/internal/web/server.go\<close>, \<^verbatim>\<open>auth.go\<close>), and the handlers
  of accounts, devices, charts and times (\<^verbatim>\<open>handlers_users.go\<close>, \<^verbatim>\<open>handlers_devices.go\<close>,
  \<^verbatim>\<open>handlers_charts.go\<close>, \<^verbatim>\<open>handlers_time.go\<close>, \<^verbatim>\<open>logs_handlers.go\<close>). A request is its route,
  its form and query values, the identifier of its path and the value of its session cookie; the
  router of \<^verbatim>\<open>net/http\<close>, the templates and the static files are not modelled, and a rendered
  page is the data it is given. A request that becomes a websocket is answered with the page
  \<open>LogStream\<close> or \<open>TimeStream\<close>; what is sent over it is theory Live_Logs. The messages shown after a redirect are the constructors of \<open>flash\<close>. Each query of a
  request has its own environment, so any of them may fail on its own; \<open>q_rows\<close> is the table of the
  measurements as the request finds it. \<^verbatim>\<open>uuid.Parse\<close>, \<^verbatim>\<open>strconv.ParseFloat\<close>, bcrypt and
  the collation of the database (a string's sort key) are the argument \<open>web_lib\<close>.
\<close>

section \<open>Requests and responses\<close>

datatype flash =
    FlashNoRights | FlashDenied | FlashNotAuthorized
  | FlashNameAndPassword | FlashBadRole | FlashUserNotCreated | FlashUserCreated
  | FlashBadID | FlashNotYourself | FlashUserNotFound | FlashUserLookup | FlashAdminKept
  | FlashUserDeleteFailed | FlashUserDeleted
  | FlashIdAndKey | FlashDeviceNotAdded | FlashDeviceAdded | FlashDeviceDeleted | FlashServiceSet
  | FlashKeyEmpty | FlashKeySet | FlashNewIdEmpty | FlashRenamed | FlashRestored | FlashPurged
  | FlashDeviceNotFound | FlashFailed

datatype route =
    GetLogin | PostLogin | PostLogout | GetStatic
  | GetDevices | GetLogs | GetLogsWS | GetCharts | GetMeasurements | GetTime | GetTimeWS
  | PostDeviceAdd | PostDeviceDelete | PostDeviceService | PostDevicePublicKey | PostDeviceRename
  | GetDeleted | PostDeviceRestore | PostDevicePurge
  | GetUsers | PostUserAdd | PostUserDelete

datatype page =
    NoPage | LoginPage bool | DevicesPage "Device list" | DeletedPage "Device list"
  | UsersPage "User list" | StaticFile | LogsPage | LogStream | TimePage "Device list" string | TimeStream string
  | ChartsPage "Device list" string | MeasurementsJSON string f64 "Point list" | BrokenJSON

datatype cookie = SessionCookie string time | DropCookie

record response =
  status :: nat
  location :: string
  shown :: "flash option"
  body :: page
  set_cookie :: "cookie option"

record request =
  req_route :: route
  req_cookie :: "string option"
  FormValue :: "string \<Rightarrow> string"
  req_Query :: "string \<Rightarrow> string"
  path_id :: string

record web_lib =
  bcrypt :: bcrypt_lib
  uuid_Parse :: "string \<Rightarrow> uuid option"
  collation :: "string \<Rightarrow> nat list"
  ParseFloat :: "string \<Rightarrow> f64 option"

record web_env =
  q_user :: db_env
  q_read :: db_env
  q_write :: db_env
  token_bytes :: rand_source
  new_uuid :: uuid
  now_cookie :: time
  q_rows :: "Measurement list"

definition Redirect :: "string \<Rightarrow> flash option \<Rightarrow> response" where
  "Redirect loc fl = \<lparr>status = 303, location = loc, shown = fl, body = NoPage, set_cookie = None\<rparr>"

definition render :: "page \<Rightarrow> response" where
  "render p = \<lparr>status = 200, location = [], shown = None, body = p, set_cookie = None\<rparr>"

definition internal_error :: response where
  "internal_error = \<lparr>status = 500, location = [], shown = None, body = NoPage, set_cookie = None\<rparr>"

type_synonym handler = "User option \<Rightarrow> request \<Rightarrow> database \<Rightarrow> response \<times> database"

section \<open>Access rules\<close>

definition requireAuth :: "handler \<Rightarrow> handler" where
  "requireAuth next u r db = (if u = None then (Redirect ''/login'' None, db) else next u r db)"

definition requireRoleOrAdmin :: "Role \<Rightarrow> handler \<Rightarrow> handler" where
  "requireRoleOrAdmin allowedRole next =
     requireAuth (\<lambda>u r db.
       case u of
         None \<Rightarrow> (Redirect ''/login'' None, db)
       | Some usr \<Rightarrow>
           if \<not> (user_Role usr = allowedRole \<or> IsAdmin (user_Role usr)) then (Redirect ''/'' (Some FlashNoRights), db)
           else next u r db)"

definition requireAdmin :: "handler \<Rightarrow> handler" where
  "requireAdmin next =
     requireAuth (\<lambda>u r db.
       case u of
         None \<Rightarrow> (Redirect ''/login'' None, db)
       | Some usr \<Rightarrow>
           if \<not> IsAdmin (user_Role usr) then (Redirect ''/'' (Some FlashDenied), db) else next u r db)"

section \<open>Login and logout\<close>

definition handleLoginForm :: handler where
  "handleLoginForm u r db = (if u \<noteq> None then (Redirect ''/'' None, db) else (render (LoginPage False), db))"

definition handleLogin :: "web_lib \<Rightarrow> web_env \<Rightarrow> handler" where
  "handleLogin lib e u r db =
     (case VerifyUser (bcrypt lib) (q_read e) (FormValue r ''username'') (FormValue r ''password'') db of
        Inl ErrNotFound \<Rightarrow> ((render (LoginPage True))\<lparr>status := 401\<rparr>, db)
      | Inl _ \<Rightarrow> (internal_error, db)
      | Inr usr \<Rightarrow>
          (case CreateSession (token_bytes e) (q_write e) (user_ID usr) db of
             (Inl err, db) \<Rightarrow> (internal_error, db)
           | (Inr token, db) \<Rightarrow>
               ((Redirect ''/'' None)\<lparr>set_cookie := Some (SessionCookie token (now_cookie e + SessionTTL))\<rparr>, db)))"

definition handleLogout :: "web_env \<Rightarrow> handler" where
  "handleLogout e u r db =
     (let db' = (case req_cookie r of None \<Rightarrow> db | Some c \<Rightarrow> snd (DeleteSession (q_write e) c db))
      in ((Redirect ''/login'' None)\<lparr>set_cookie := Some DropCookie\<rparr>, db'))"

section \<open>Accounts\<close>

definition handleUserList :: "web_lib \<Rightarrow> web_env \<Rightarrow> handler" where
  "handleUserList lib e u r db =
     (case ListUsers (collation lib) (q_read e) db of
        Inl err \<Rightarrow> (internal_error, db)
      | Inr us \<Rightarrow> (render (UsersPage us), db))"

definition handleUserAdd :: "web_lib \<Rightarrow> web_env \<Rightarrow> handler" where
  "handleUserAdd lib e u r db =
     (let name = FormValue r ''username''; password = FormValue r ''password'' in
      if name = [] \<or> password = [] then (Redirect ''/users'' (Some FlashNameAndPassword), db)
      else case parse_role (FormValue r ''role'') of
             None \<Rightarrow> (Redirect ''/users'' (Some FlashBadRole), db)
           | Some rl \<Rightarrow>
               (case CreateUser (bcrypt lib) (q_write e) (new_uuid e) name password rl db of
                  (Some err, db) \<Rightarrow> (Redirect ''/users'' (Some FlashUserNotCreated), db)
                | (None, db) \<Rightarrow> (Redirect ''/users'' (Some FlashUserCreated), db)))"

definition handleUserDelete :: "web_lib \<Rightarrow> web_env \<Rightarrow> handler" where
  "handleUserDelete lib e u r db =
     (case uuid_Parse lib (path_id r) of
        None \<Rightarrow> (Redirect ''/users'' (Some FlashBadID), db)
      | Some i \<Rightarrow>
          if (case u of None \<Rightarrow> False | Some cur \<Rightarrow> user_ID cur = i)
          then (Redirect ''/users'' (Some FlashNotYourself), db)
          else (case GetUser (q_read e) i db of
                  Inl ErrNotFound \<Rightarrow> (Redirect ''/users'' (Some FlashUserNotFound), db)
                | Inl _ \<Rightarrow> (Redirect ''/users'' (Some FlashUserLookup), db)
                | Inr target \<Rightarrow>
                    if IsAdmin (user_Role target) then (Redirect ''/users'' (Some FlashAdminKept), db)
                    else (case DeleteUser (q_write e) i db of
                            (Some ErrNotFound, db) \<Rightarrow> (Redirect ''/users'' (Some FlashUserNotFound), db)
                          | (Some _, db) \<Rightarrow> (Redirect ''/users'' (Some FlashUserDeleteFailed), db)
                          | (None, db) \<Rightarrow> (Redirect ''/users'' (Some FlashUserDeleted), db))))"

section \<open>Devices\<close>

definition deviceActionResult :: "string \<Rightarrow> store_error \<Rightarrow> response" where
  "deviceActionResult target err =
     (if err = ErrNotFound then Redirect target (Some FlashDeviceNotFound) else Redirect target (Some FlashFailed))"

definition handleDeviceList :: "web_lib \<Rightarrow> web_env \<Rightarrow> handler" where
  "handleDeviceList lib e u r db =
     (case ListDevices (collation lib) (q_read e) False db of
        Inl err \<Rightarrow> (internal_error, db)
      | Inr ds \<Rightarrow> (render (DevicesPage ds), db))"

definition handleDeviceAdd :: "web_env \<Rightarrow> handler" where
  "handleDeviceAdd e u r db =
     (let i = FormValue r ''id''; publicKey = FormValue r ''public_key''; inService = (FormValue r ''in_service'' = ''on'') in
      if i = [] \<or> publicKey = [] then (Redirect ''/'' (Some FlashIdAndKey), db)
      else case u of
             None \<Rightarrow> (Redirect ''/'' (Some FlashNotAuthorized), db)
           | Some usr \<Rightarrow>
               (case Add (q_write e) i publicKey inService (user_ID usr) db of
                  (Some err, db) \<Rightarrow> (Redirect ''/'' (Some FlashDeviceNotAdded), db)
                | (None, db) \<Rightarrow> (Redirect ''/'' (Some FlashDeviceAdded), db)))"

definition handleDeviceDelete :: "web_env \<Rightarrow> handler" where
  "handleDeviceDelete e u r db =
     (case u of
        None \<Rightarrow> (Redirect ''/'' (Some FlashNotAuthorized), db)
      | Some usr \<Rightarrow>
          (case SoftDelete (q_write e) (path_id r) (user_ID usr) db of
             (Some err, db) \<Rightarrow> (deviceActionResult ''/'' err, db)
           | (None, db) \<Rightarrow> (Redirect ''/'' (Some FlashDeviceDeleted), db)))"

definition handleDeviceService :: "web_env \<Rightarrow> handler" where
  "handleDeviceService e u r db =
     (case u of
        None \<Rightarrow> (Redirect ''/'' (Some FlashNotAuthorized), db)
      | Some usr \<Rightarrow>
          (case SetInService (q_write e) (path_id r) (FormValue r ''in_service'' = ''true'') (user_ID usr) db of
             (Some err, db) \<Rightarrow> (deviceActionResult ''/'' err, db)
           | (None, db) \<Rightarrow> (Redirect ''/'' (Some FlashServiceSet), db)))"

definition handleDevicePublicKey :: "web_env \<Rightarrow> handler" where
  "handleDevicePublicKey e u r db =
     (let publicKey = FormValue r ''public_key'' in
      if publicKey = [] then (Redirect ''/'' (Some FlashKeyEmpty), db)
      else case u of
             None \<Rightarrow> (Redirect ''/'' (Some FlashNotAuthorized), db)
           | Some usr \<Rightarrow>
               (case SetPublicKey (q_write e) (path_id r) publicKey (user_ID usr) db of
                  (Some err, db) \<Rightarrow> (deviceActionResult ''/'' err, db)
                | (None, db) \<Rightarrow> (Redirect ''/'' (Some FlashKeySet), db)))"

definition handleDeviceRename :: "web_env \<Rightarrow> handler" where
  "handleDeviceRename e u r db =
     (let newID = FormValue r ''new_id'' in
      if newID = [] then (Redirect ''/'' (Some FlashNewIdEmpty), db)
      else case u of
             None \<Rightarrow> (Redirect ''/'' (Some FlashNotAuthorized), db)
           | Some usr \<Rightarrow>
               (case Rename (q_write e) (path_id r) newID (user_ID usr) db of
                  (Some err, db) \<Rightarrow> (deviceActionResult ''/'' err, db)
                | (None, db) \<Rightarrow> (Redirect ''/'' (Some FlashRenamed), db)))"

definition handleDeletedList :: "web_env \<Rightarrow> handler" where
  "handleDeletedList e u r db =
     (case ListDeleted (q_read e) db of
        Inl err \<Rightarrow> (internal_error, db)
      | Inr ds \<Rightarrow> (render (DeletedPage ds), db))"

definition handleDeviceRestore :: "web_env \<Rightarrow> handler" where
  "handleDeviceRestore e u r db =
     (case u of
        None \<Rightarrow> (Redirect ''/'' (Some FlashNotAuthorized), db)
      | Some usr \<Rightarrow>
          (case Restore (q_write e) (path_id r) (user_ID usr) db of
             (Some err, db) \<Rightarrow> (deviceActionResult ''/devices/deleted'' err, db)
           | (None, db) \<Rightarrow> (Redirect ''/devices/deleted'' (Some FlashRestored), db)))"

definition handleDevicePurge :: "web_env \<Rightarrow> handler" where
  "handleDevicePurge e u r db =
     (case HardDelete (q_write e) (path_id r) db of
        (Some err, db) \<Rightarrow> (deviceActionResult ''/devices/deleted'' err, db)
      | (None, db) \<Rightarrow> (Redirect ''/devices/deleted'' (Some FlashPurged), db))"

section \<open>The server\<close>

definition http_Error :: "nat \<Rightarrow> response" where
  "http_Error code = internal_error\<lparr>status := code\<rparr>"

definition handleLogsPage :: handler where
  "handleLogsPage u r db = (render LogsPage, db)"

definition handleLogsWS :: handler where
  "handleLogsWS u r db = ((render LogStream)\<lparr>status := 101\<rparr>, db)"

definition handleTimePage :: "web_lib \<Rightarrow> web_env \<Rightarrow> handler" where
  "handleTimePage lib e u r db =
     (case ListDevices (collation lib) (q_read e) False db of
        Inl err \<Rightarrow> (internal_error, db)
      | Inr ds \<Rightarrow> (render (TimePage ds (req_Query r ''device'')), db))"

definition handleTimeWS :: handler where
  "handleTimeWS u r db =
     (let deviceID = req_Query r ''device'' in
      if deviceID = [] then (http_Error 400, db) else ((render (TimeStream deviceID))\<lparr>status := 101\<rparr>, db))"

definition chartsMaxPoints :: int where "chartsMaxPoints = 1000"
definition chartsMaxHours :: int where "chartsMaxHours = 7 * 24"
definition chartsDefaultHours :: int where "chartsDefaultHours = 6"

definition handleChartsPage :: "web_lib \<Rightarrow> web_env \<Rightarrow> handler" where
  "handleChartsPage lib e u r db =
     (case ListDevices (collation lib) (q_read e) False db of
        Inl err \<Rightarrow> (internal_error, db)
      | Inr ds \<Rightarrow> (render (ChartsPage ds (req_Query r ''device'')), db))"

text \<open>The hours of a request: the default, or the parameter, which is refused outside its range.\<close>

definition chart_hours :: "web_lib \<Rightarrow> string \<Rightarrow> f64 option" where
  "chart_hours lib v =
     (if v = [] then Some (f64_of_int chartsDefaultHours)
      else case ParseFloat lib v of
             None \<Rightarrow> None
           | Some h \<Rightarrow> if f64_le h 0 \<or> f64_less (f64_of_int chartsMaxHours) h then None else Some h)"

text \<open>
  \<^verbatim>\<open>json.Encode\<close> fails on a number that is not finite; its error is not looked at, so the answer
  then has the status 200 and no body.
\<close>

definition json_numbers :: "f64 \<Rightarrow> Point list \<Rightarrow> bool" where
  "json_numbers hours points \<longleftrightarrow> is_finite hours \<and>
     list_all (\<lambda>p. list_all (\<lambda>v. case v of None \<Rightarrow> True | Some x \<Rightarrow> is_finite x) [pt_Off1 p, pt_Off2 p, pt_Off3 p]) points"

definition int64_wrap :: "int \<Rightarrow> int" where
  "int64_wrap n = sint (word_of_int n :: 64 word)"

definition handleMeasurementsAPI :: "web_lib \<Rightarrow> web_env \<Rightarrow> handler" where
  "handleMeasurementsAPI lib e u r db =
     (let deviceID = req_Query r ''device'' in
      if deviceID = [] then (http_Error 400, db)
      else case chart_hours lib (req_Query r ''hours'') of
             None \<Rightarrow> (http_Error 400, db)
           | Some hours \<Rightarrow>
               (let to_t = go_now (q_read e) + Minute;
                    from_t = to_t + int64_wrap (- int64_of_f64 (f64_mul hours (f64_of_int Hour)))
                in case QueryRange (\<not> db_fault (q_read e)) deviceID from_t to_t chartsMaxPoints (q_rows e) of
                     None \<Rightarrow> (internal_error, db)
                   | Some points \<Rightarrow>
                       (render (if json_numbers hours points then MeasurementsJSON deviceID hours points else BrokenJSON), db)))"

fun mux :: "web_lib \<Rightarrow> web_env \<Rightarrow> route \<Rightarrow> handler" where
  "mux lib e GetLogin = handleLoginForm"
| "mux lib e PostLogin = handleLogin lib e"
| "mux lib e PostLogout = handleLogout e"
| "mux lib e GetStatic = (\<lambda>u r db. (render StaticFile, db))"
| "mux lib e GetDevices = requireAuth (handleDeviceList lib e)"
| "mux lib e GetLogs = requireAuth handleLogsPage"
| "mux lib e GetLogsWS = requireAuth handleLogsWS"
| "mux lib e GetCharts = requireAuth (handleChartsPage lib e)"
| "mux lib e GetMeasurements = requireAuth (handleMeasurementsAPI lib e)"
| "mux lib e GetTime = requireAuth (handleTimePage lib e)"
| "mux lib e GetTimeWS = requireAuth handleTimeWS"
| "mux lib e PostDeviceAdd = requireRoleOrAdmin RolePrivileged (handleDeviceAdd e)"
| "mux lib e PostDeviceDelete = requireRoleOrAdmin RolePrivileged (handleDeviceDelete e)"
| "mux lib e PostDeviceService = requireRoleOrAdmin RolePrivileged (handleDeviceService e)"
| "mux lib e PostDevicePublicKey = requireRoleOrAdmin RolePrivileged (handleDevicePublicKey e)"
| "mux lib e PostDeviceRename = requireRoleOrAdmin RolePrivileged (handleDeviceRename e)"
| "mux lib e GetDeleted = requireRoleOrAdmin RolePrivileged (handleDeletedList e)"
| "mux lib e PostDeviceRestore = requireRoleOrAdmin RolePrivileged (handleDeviceRestore e)"
| "mux lib e PostDevicePurge = requireRoleOrAdmin RolePrivileged (handleDevicePurge e)"
| "mux lib e GetUsers = requireAdmin (handleUserList lib e)"
| "mux lib e PostUserAdd = requireAdmin (handleUserAdd lib e)"
| "mux lib e PostUserDelete = requireAdmin (handleUserDelete lib e)"

text \<open>\<^verbatim>\<open>withUser\<close>: the user of the session cookie, if it resolves.\<close>

definition withUser :: "web_env \<Rightarrow> request \<Rightarrow> database \<Rightarrow> User option" where
  "withUser e r db =
     (case req_cookie r of
        None \<Rightarrow> None
      | Some c \<Rightarrow> (case GetSession (q_user e) c db of Inl _ \<Rightarrow> None | Inr u \<Rightarrow> Some u))"

definition serve :: "web_lib \<Rightarrow> web_env \<Rightarrow> request \<Rightarrow> database \<Rightarrow> response \<times> database" where
  "serve lib e r db = mux lib e (req_route r) (withUser e r db) r db"

section \<open>What the stores leave alone\<close>

lemma execAffecting_keeps:
  assumes "execAffecting e stmt db = (err, db')"
    "\<And>n db'. stmt db = Inr (n, db') \<Longrightarrow> users db' = users db \<and> sessions db' = sessions db"
  shows "users db' = users db \<and> sessions db' = sessions db"
  using assms by (auto simp: execAffecting_def Exec_def split: if_splits sum.splits)

lemma update_device_keeps:
  "update_device i P f db = Inr (n, db') \<Longrightarrow> users db' = users db \<and> sessions db' = sessions db"
  by (auto simp: update_device_def split: option.splits if_splits)

lemma dev_exec_keeps:
  assumes "dev_exec bc e oper db = (err, db')"
  shows "users db' = users db \<and> sessions db' = sessions db"
proof (cases oper)
  case (OpHardDelete i)
  with assms show ?thesis
    by (auto simp: HardDelete_def execAffecting_def Exec_def split: option.splits if_splits)
next
  case (OpRename i j u)
  with assms show ?thesis
    by (auto simp: Rename_def execAffecting_def Exec_def split: option.splits if_splits)
next
  case (OpSetPassword i pw u)
  with assms show ?thesis
    by (auto simp: SetPassword_def split: option.splits elim!: execAffecting_keeps dest: update_device_keeps)
next
  case (OpAdd i pk b u)
  with assms show ?thesis
    by (auto simp: Add_def Exec_def split: if_splits)
next
  case (OpLastSeen i)
  with assms show ?thesis
    by (auto simp: UpdateLastSeen_def Exec_def split: option.splits if_splits)
next
  case (OpUpsert i pk b)
  with assms show ?thesis
    by (auto simp: UpsertDevice_def Exec_def Let_def split: if_splits)
next
  case (OpSoftDelete i u)
  with assms show ?thesis
    by (auto simp: SoftDelete_def elim!: execAffecting_keeps dest: update_device_keeps)
next
  case (OpRestore i u)
  with assms show ?thesis
    by (auto simp: Restore_def elim!: execAffecting_keeps dest: update_device_keeps)
next
  case (OpSetInService i b u)
  with assms show ?thesis
    by (auto simp: SetInService_def elim!: execAffecting_keeps dest: update_device_keeps)
next
  case (OpSetPublicKey i pk u)
  with assms show ?thesis
    by (auto simp: SetPublicKey_def elim!: execAffecting_keeps dest: update_device_keeps)
qed

text \<open>The effect of each handler on the database is that of at most one method of a store.\<close>

definition device_write :: "web_lib \<Rightarrow> database \<Rightarrow> database \<Rightarrow> bool" where
  "device_write lib db db' \<longleftrightarrow> db' = db \<or> (\<exists>e oper err. dev_exec (bcrypt lib) e oper db = (err, db'))"

lemma device_write_keeps: "device_write lib db db' \<Longrightarrow> users db' = users db \<and> sessions db' = sessions db"
  by (auto simp: device_write_def dest: dev_exec_keeps)

lemma device_write_intro:
  "Add e i pk b u db = (err, db') \<Longrightarrow> device_write lib db db'"
  "SoftDelete e i u db = (err, db') \<Longrightarrow> device_write lib db db'"
  "SetInService e i b u db = (err, db') \<Longrightarrow> device_write lib db db'"
  "SetPublicKey e i pk u db = (err, db') \<Longrightarrow> device_write lib db db'"
  "Rename e i j u db = (err, db') \<Longrightarrow> device_write lib db db'"
  "Restore e i u db = (err, db') \<Longrightarrow> device_write lib db db'"
  "HardDelete e i db = (err, db') \<Longrightarrow> device_write lib db db'"
  unfolding device_write_def by (metis dev_exec.simps)+

lemma device_write_refl [simp]: "device_write lib db db"
  by (simp add: device_write_def)

lemmas device_handler_defs = handleDeviceAdd_def handleDeviceDelete_def handleDeviceService_def
  handleDevicePublicKey_def handleDeviceRename_def handleDeviceRestore_def handleDevicePurge_def

definition is_device_handler :: "web_env \<Rightarrow> handler \<Rightarrow> bool" where
  "is_device_handler e h \<longleftrightarrow> h \<in> {handleDeviceAdd e, handleDeviceDelete e, handleDeviceService e,
     handleDevicePublicKey e, handleDeviceRename e, handleDeviceRestore e, handleDevicePurge e, handleDeletedList e}"

lemma device_handler_write:
  assumes "is_device_handler e h" "h u r db = (resp, db')"
  shows "device_write lib db db'"
  using assms unfolding is_device_handler_def
  by (auto simp: device_handler_defs handleDeletedList_def Let_def split: option.splits prod.splits sum.splits if_splits
      intro: device_write_intro)

lemma handleUserAdd_effect:
  "handleUserAdd lib e u r db = (resp, db') \<Longrightarrow>
     db' = db \<or> (\<exists>n pw rl err. CreateUser (bcrypt lib) (q_write e) (new_uuid e) n pw rl db = (err, db'))"
  by (auto simp: handleUserAdd_def Let_def split: option.splits prod.splits if_splits)

lemma handleUserDelete_effect:
  "handleUserDelete lib e u r db = (resp, db') \<Longrightarrow>
     db' = db \<or> (\<exists>i row err. DeleteUser (q_write e) i db = (err, db') \<and> map_of (users db) i = Some row \<and> role row \<noteq> RoleAdmin)"
  by (auto simp: handleUserDelete_def GetUser_def user_of_def IsAdmin_def
      split: option.splits prod.splits if_splits sum.splits store_error.splits)

lemma handleLogin_effect:
  "handleLogin lib e u r db = (resp, db') \<Longrightarrow>
     db' = db \<or> (\<exists>i res. CreateSession (token_bytes e) (q_write e) i db = (res, db'))"
  by (auto simp: handleLogin_def split: prod.splits sum.splits store_error.splits)

lemma handleLogout_effect:
  "handleLogout e u r db = (resp, db') \<Longrightarrow> db' = db \<or> (\<exists>t err. DeleteSession (q_write e) t db = (err, db'))"
  by (auto simp: handleLogout_def Let_def split: option.splits) (metis surjective_pairing)

text \<open>The handlers that only read.\<close>

lemma tabs_read:
  "snd (handleLogsPage u r db) = db" "snd (handleLogsWS u r db) = db" "snd (handleTimePage lib e u r db) = db"
  "snd (handleTimeWS u r db) = db" "snd (handleChartsPage lib e u r db) = db" "snd (handleMeasurementsAPI lib e u r db) = db"
  by (simp_all add: handleLogsPage_def handleLogsWS_def handleTimePage_def handleTimeWS_def handleChartsPage_def
      handleMeasurementsAPI_def Let_def split: sum.split option.split)

lemma requireAuth_reads:
  "requireAuth h u r db = (resp, db') \<Longrightarrow> snd (h u r db) = db \<Longrightarrow> db' = db"
  by (auto simp: requireAuth_def split: if_splits)

text \<open>One rule for all routes: who may cause which effect.\<close>

lemma serve_cases:
  assumes "serve lib e r db = (resp, db')"
  obtains (same) "db' = db"
  | (device) u where "withUser e r db = Some u" "IsPrivileged (user_Role u)" "device_write lib db db'"
  | (user_add) u n pw rl err where "withUser e r db = Some u" "IsAdmin (user_Role u)"
      "CreateUser (bcrypt lib) (q_write e) (new_uuid e) n pw rl db = (err, db')"
  | (user_delete) u i row err where "withUser e r db = Some u" "IsAdmin (user_Role u)"
      "DeleteUser (q_write e) i db = (err, db')" "map_of (users db) i = Some row" "role row \<noteq> RoleAdmin"
      "req_route r = PostUserDelete"
  | (login) i res where "CreateSession (token_bytes e) (q_write e) i db = (res, db')" "req_route r = PostLogin"
  | (logout) t err where "DeleteSession (q_write e) t db = (err, db')" "req_route r = PostLogout"
proof -
  have m: "mux lib e (req_route r) (withUser e r db) r db = (resp, db')"
    using assms by (simp add: serve_def)
  have dev: thesis if "requireRoleOrAdmin RolePrivileged h (withUser e r db) r db = (resp, db')" "is_device_handler e h" for h
    using that(1) device_handler_write [OF that(2)] same device
    by (auto simp: requireRoleOrAdmin_def requireAuth_def IsPrivileged_def IsAdmin_def split: option.splits if_splits)
  have reads: thesis if "requireAuth h (withUser e r db) r db = (resp, db')" "\<And>u. snd (h u r db) = db" for h
    using that(2) [of "withUser e r db"] same requireAuth_reads [OF that(1)] by simp
  show thesis
  proof (cases "req_route r")
    case PostUserAdd
    with m show thesis
      using same user_add by (auto simp: requireAdmin_def requireAuth_def split: option.splits if_splits dest!: handleUserAdd_effect)
  next
    case PostUserDelete
    with m show thesis
      using same user_delete by (auto simp: requireAdmin_def requireAuth_def split: option.splits if_splits dest!: handleUserDelete_effect)
  next
    case PostLogin
    with m show thesis
      using same login by (auto dest!: handleLogin_effect)
  next
    case PostLogout
    with m show thesis
      using same logout by (auto dest!: handleLogout_effect)
  next
    case GetLogs
    with m show thesis
      using reads [of handleLogsPage] tabs_read by simp
  next
    case GetLogsWS
    with m show thesis
      using reads [of handleLogsWS] tabs_read by simp
  next
    case GetCharts
    with m show thesis
      using reads [of "handleChartsPage lib e"] tabs_read by simp
  next
    case GetMeasurements
    with m show thesis
      using reads [of "handleMeasurementsAPI lib e"] tabs_read by simp
  next
    case GetTime
    with m show thesis
      using reads [of "handleTimePage lib e"] tabs_read by simp
  next
    case GetTimeWS
    with m show thesis
      using reads [of handleTimeWS] tabs_read by simp
  qed (use m dev same in \<open>force simp: is_device_handler_def handleLoginForm_def requireAuth_def requireAdmin_def
      handleDeviceList_def handleUserList_def split: option.splits sum.splits if_splits\<close>)+
qed

section \<open>Properties of the web form\<close>

text \<open>The request carries a session that has not expired, of a user with a role.\<close>

definition acting_as :: "(Role \<Rightarrow> bool) \<Rightarrow> web_env \<Rightarrow> request \<Rightarrow> database \<Rightarrow> bool" where
  "acting_as P e r db \<longleftrightarrow>
     (\<exists>token s row. req_cookie r = Some token \<and> map_of (sessions db) token = Some s \<and>
        db_now (q_user e) < expires_at s \<and> map_of (users db) (user_id s) = Some row \<and> P (role row))"

lemma withUser_acting: "withUser e r db = Some u \<Longrightarrow> P (user_Role u) \<Longrightarrow> acting_as P e r db"
  by (auto simp: withUser_def GetSession_def acting_as_def user_of_def split: option.splits sum.splits if_splits)

lemma CreateUser_keeps:
  "CreateUser bc e i n pw rl db = (err, db') \<Longrightarrow>
     devices db' = devices db \<and> sessions db' = sessions db \<and>
     (map_of (users db) j = Some row \<longrightarrow> map_of (users db') j = Some row)"
  by (auto simp: CreateUser_def Exec_def update_conv' split: option.splits sum.splits if_splits)

lemma CreateSession_keeps:
  "CreateSession src e i db = (res, db') \<Longrightarrow> devices db' = devices db \<and> users db' = users db"
  by (auto simp: CreateSession_def Exec_def split: sum.splits if_splits)

lemma DeleteSession_keeps:
  "DeleteSession e t db = (res, db') \<Longrightarrow> devices db' = devices db \<and> users db' = users db"
  by (auto simp: DeleteSession_def Exec_def split: if_splits)

lemma DeleteUser_keeps:
  "DeleteUser e i db = (err, db') \<Longrightarrow> j \<noteq> i \<Longrightarrow> map_of (users db') j = map_of (users db) j"
  by (auto simp: DeleteUser_def Exec_def delete_user_def delete_conv' split: if_splits)

text \<open>
  C6: A request changes devices only with a live session of a privileged user or an
  administrator, and accounts only with one of an administrator; sessions change only by
  login, logout and the deletion of their user.
\<close>

theorem web_authorization:
  assumes "serve lib e r db = (resp, db')"
  shows "(devices db' \<noteq> devices db \<longrightarrow> acting_as IsPrivileged e r db)
    \<and> (users db' \<noteq> users db \<longrightarrow> acting_as IsAdmin e r db)
    \<and> (sessions db' \<noteq> sessions db \<longrightarrow> req_route r \<in> {PostLogin, PostLogout, PostUserDelete})"
  using assms
proof (cases rule: serve_cases)
  case (device u)
  then show ?thesis
    using device_write_keeps [OF device(3)] withUser_acting [OF device(1)] by blast
next
  case (user_add u n pw rl err)
  then show ?thesis
    using CreateUser_keeps [OF user_add(3)] withUser_acting [OF user_add(1)] by blast
next
  case (user_delete u i row err)
  then have "IsPrivileged (user_Role u)"
    by (simp add: IsAdmin_def IsPrivileged_def)
  then show ?thesis
    using user_delete withUser_acting [OF user_delete(1)] by blast
next
  case (login i res)
  then show ?thesis
    using CreateSession_keeps [OF login(1)] by simp
next
  case (logout t err)
  then show ?thesis
    using DeleteSession_keeps [OF logout(1)] by simp
qed simp

definition plain_lib :: web_lib where
  "plain_lib = \<lparr>bcrypt = plain_bcrypt, uuid_Parse = Some, collation = (\<lambda>s. map of_char s),
     ParseFloat = (\<lambda>s. if s = ''nan'' then Some NaN else None)\<rparr>"

definition web_env_at :: "time \<Rightarrow> web_env" where
  "web_env_at t = \<lparr>q_user = env_at t, q_read = env_at t, q_write = env_at t, token_bytes = Some (\<lambda>_. 0),
     new_uuid = ''v'', now_cookie = t, q_rows = []\<rparr>"

definition form_of :: "(string \<times> string) list \<Rightarrow> string \<Rightarrow> string" where
  "form_of kvs k = (case map_of kvs k of None \<Rightarrow> [] | Some v \<Rightarrow> v)"

definition login_root :: request where
  "login_root = \<lparr>req_route = PostLogin, req_cookie = None,
     FormValue = form_of [(''username'', ''root''), (''password'', ''pw'')], req_Query = (\<lambda>_. []), path_id = []\<rparr>"

theorem web_authorization_witness:
  "\<exists>resp db'. serve plain_lib (web_env_at 0) login_root db_one = (resp, db') \<and>
     sessions db' \<noteq> sessions db_one \<and> devices db' = devices db_one \<and> users db' = users db_one"
proof -
  obtain resp db' where s: "serve plain_lib (web_env_at 0) login_root db_one = (resp, db')"
    by fastforce
  have "\<not> acting_as P (web_env_at 0) login_root db_one" for P
    by (simp add: acting_as_def login_root_def)
  moreover have "sessions (snd (serve plain_lib (web_env_at 0) login_root db_one)) \<noteq> []"
    by code_simp
  ultimately show ?thesis
    using web_authorization [OF s] s by (auto simp: db_one_def)
qed

text \<open>
  C34: No request removes or changes an administrator's account, not even one of another
  administrator, so the account of the bootstrap cannot be lost through the web form.
\<close>

theorem admins_are_kept:
  assumes "serve lib e r db = (resp, db')" and "map_of (users db) i = Some row" and "role row = RoleAdmin"
  shows "map_of (users db') i = Some row"
  using assms(1)
proof (cases rule: serve_cases)
  case (device u)
  then show ?thesis
    using device_write_keeps assms(2) by metis
next
  case (user_add u n pw rl err)
  then show ?thesis
    using CreateUser_keeps assms(2) by metis
next
  case (user_delete u j row' err)
  then have "j \<noteq> i"
    using assms(2,3) by auto
  then show ?thesis
    using DeleteUser_keeps [OF user_delete(3)] assms(2) by simp
next
  case (login j res)
  then show ?thesis
    using CreateSession_keeps assms(2) by metis
next
  case (logout t err)
  then show ?thesis
    using DeleteSession_keeps assms(2) by metis
qed (use assms(2) in simp)

theorem admins_are_kept_witness:
  "map_of (users (snd (serve plain_lib (web_env_at 0) (login_root\<lparr>req_route := PostUserDelete, path_id := ''u''\<rparr>) db_one))) ''u''
     = Some \<lparr>username = ''root'', user_password_hash = ''pw'', role = RoleAdmin, created_at = 0\<rparr>"
  by (rule admins_are_kept [OF surjective_pairing]) (simp_all add: db_one_def)

text \<open>
  C35: A login that sets a session cookie proves knowledge of the password of the account
  named in the form, and every request with this cookie in the next 24 hours acts as that
  account.
\<close>

theorem login_gives_session:
  assumes "serve lib e r db = (resp, db1)" and "req_route r = PostLogin"
    and "set_cookie resp = Some (SessionCookie token expiry)" and "db_inv db"
    and "req_cookie r2 = Some token" and "\<not> db_fault (q_user e2)" and "db_now (q_user e2) < go_now (q_write e) + SessionTTL"
  shows "\<exists>i row. (i, row) \<in> set (users db) \<and> username row = FormValue r ''username'' \<and>
    CompareHashAndPassword (bcrypt lib) (user_password_hash row) (FormValue r ''password'') = HashMatch \<and>
    withUser e2 r2 db1 = Some (user_of (i, row))"
proof -
  have "handleLogin lib e (withUser e r db) r db = (resp, db1)"
    using assms(1,2) by (simp add: serve_def)
  then obtain usr where v: "VerifyUser (bcrypt lib) (q_read e) (FormValue r ''username'') (FormValue r ''password'') db = Inr usr"
    and c: "CreateSession (token_bytes e) (q_write e) (user_ID usr) db = (Inr token, db1)"
    using assms(3) by (auto simp: handleLogin_def internal_error_def render_def split: sum.splits store_error.splits prod.splits)
  from v obtain i row where f: "find_name (FormValue r ''username'') (users db) = Some (i, row)"
    and pw: "CompareHashAndPassword (bcrypt lib) (user_password_hash row) (FormValue r ''password'') = HashMatch"
    and usr: "usr = user_of (i, row)"
    by (auto simp: VerifyUser_def split: option.splits if_splits)
  have row: "(i, row) \<in> set (users db)" "username row = FormValue r ''username''"
    using find_name_Some [OF f] by simp_all
  then have "map_of (users db) i = Some row"
    using assms(4) by (simp add: db_inv_def)
  moreover have "user_ID usr = i"
    by (simp add: usr user_of_def)
  ultimately have "GetSession (q_user e2) token db1 = Inr (user_of (i, row))"
    using c assms(6,7) by (auto simp: CreateSession_def Exec_def GetSession_def update_conv' split: sum.splits if_splits)
  with row pw assms(5) show ?thesis
    by (auto simp: withUser_def)
qed

theorem login_gives_session_witness:
  "\<exists>token i row. withUser (web_env_at Hour) (login_root\<lparr>req_cookie := Some token\<rparr>)
     (snd (serve plain_lib (web_env_at 0) login_root db_one)) = Some (user_of (i, row)) \<and> username row = ''root''"
proof -
  obtain resp db1 where s: "serve plain_lib (web_env_at 0) login_root db_one = (resp, db1)"
    by fastforce
  have "case set_cookie (fst (serve plain_lib (web_env_at 0) login_root db_one)) of
      Some (SessionCookie t x) \<Rightarrow> True | _ \<Rightarrow> False"
    by code_simp
  then obtain token x where c: "set_cookie resp = Some (SessionCookie token x)"
    using s by (auto split: option.splits cookie.splits)
  have inv: "db_inv db_one"
    by (simp add: db_inv_def db_one_def has_user_def)
  have "FormValue login_root ''username'' = ''root''"
    by (simp add: login_root_def form_of_def)
  then show ?thesis
    using login_gives_session [OF s _ c inv, of "login_root\<lparr>req_cookie := Some token\<rparr>" "web_env_at Hour"] s
    by (auto simp: login_root_def web_env_at_def env_at_def SessionTTL_def Hour_def Minute_def Second_def)
qed

lemma QueryRange_answered: "QueryRange (\<not> f) did t0 t1 n rows = Some ps \<Longrightarrow> QueryRange True did t0 t1 n rows = Some ps"
  by (cases f) (simp_all add: QueryRange_def)

lemma default_hours: "int64_wrap (- int64_of_f64 (f64_mul (f64_of_int chartsDefaultHours) (f64_of_int Hour))) = - (6 * Hour)"
  by code_simp

text \<open>
  C23: The data for a chart go only to a user who is logged in; they are about the device asked for, at most 1000
  points in the order of reception that account for every row of the window once, and without the parameter of
  hours the window is the last six hours and the minute to come.
\<close>

theorem measurements_api:
  assumes "serve lib e r db = (resp, db')" and "req_route r = GetMeasurements" and "body resp = MeasurementsJSON did hours ps"
  shows "acting_as (\<lambda>_. True) e r db \<and> did = req_Query r ''device'' \<and> did \<noteq> [] \<and> db' = db
    \<and> length ps \<le> 1000 \<and> sorted (map pt_ReceivedAt ps)
    \<and> (req_Query r ''hours'' = [] \<longrightarrow> sum_list (map pt_N ps) = length (filter (\<lambda>m. me_DeviceID m = did
         \<and> go_now (q_read e) + Minute - 6 * Hour \<le> me_ReceivedAt m \<and> me_ReceivedAt m \<le> go_now (q_read e) + Minute) (q_rows e)))"
proof -
  have m: "requireAuth (handleMeasurementsAPI lib e) (withUser e r db) r db = (resp, db')"
    using assms(1,2) by (simp add: serve_def)
  then obtain u where u: "withUser e r db = Some u" "handleMeasurementsAPI lib e (Some u) r db = (resp, db')"
    using assms(3) by (auto simp: requireAuth_def Redirect_def split: if_splits)
  then obtain t where did: "did = req_Query r ''device''" "did \<noteq> []" "db' = db"
    and q: "QueryRange True did t (go_now (q_read e) + Minute) 1000 (q_rows e) = Some ps"
    and t: "req_Query r ''hours'' = [] \<Longrightarrow> t = go_now (q_read e) + Minute - 6 * Hour"
    using assms(3) default_hours
    by (auto simp: handleMeasurementsAPI_def chart_hours_def http_Error_def internal_error_def render_def chartsMaxPoints_def
        Let_def split: if_splits option.splits intro: that dest!: QueryRange_answered)
  then show ?thesis
    using QueryRange_facts [OF q] withUser_acting [OF u(1), of "\<lambda>_. True"] by auto
qed

theorem measurements_api_witness:
  "\<exists>r e resp ps. req_route r = GetMeasurements \<and> fst (serve plain_lib e r (snd (serve plain_lib (web_env_at 0) login_root db_one))) = resp
     \<and> body resp = MeasurementsJSON ''A'' (f64_of_int 6) ps \<and> sum_list (map pt_N ps) = 1"
proof -
  let ?db = "snd (serve plain_lib (web_env_at 0) login_root db_one)"
  define m where "m t = \<lparr>me_DeviceID = ''A'', me_MsgNo = 0, me_Ts = 0, me_ReceivedAt = t, me_Off1 = 0, me_Off2 = 0,
    me_Off3 = 0, me_StaticCnt = 0, me_Validity = 7\<rparr>" for t
  let ?e = "(web_env_at (8 * Hour))\<lparr>q_rows := [m Hour, m (3 * Hour)]\<rparr>"
  define token where "token = (case set_cookie (fst (serve plain_lib (web_env_at 0) login_root db_one)) of
    Some (SessionCookie t _) \<Rightarrow> t | _ \<Rightarrow> [])"
  let ?r = "login_root\<lparr>req_route := GetMeasurements, req_cookie := Some token, req_Query := form_of [(''device'', ''A'')]\<rparr>"
  have "case body (fst (serve plain_lib ?e ?r ?db)) of MeasurementsJSON d h _ \<Rightarrow> d = ''A'' \<and> h = f64_of_int 6 | _ \<Rightarrow> False"
    unfolding token_def m_def by code_simp
  then obtain ps where "body (fst (serve plain_lib ?e ?r ?db)) = MeasurementsJSON ''A'' (f64_of_int 6) ps"
    by (auto split: page.splits)
  moreover from this have "sum_list (map pt_N ps) = 1"
    using measurements_api [of plain_lib ?e ?r ?db _ _ "''A''" "f64_of_int 6" ps, OF surjective_pairing]
    by (simp add: form_of_def web_env_at_def env_at_def m_def Hour_def Minute_def Second_def)
  ultimately show ?thesis
    by (intro exI [of _ ?r] exI [of _ ?e] exI) simp
qed

text \<open>The text \<open>nan\<close> is a number for \<^verbatim>\<open>ParseFloat\<close>, passes the check of the range, and breaks the answer.\<close>

lemma nan_hours_broken:
  assumes "ParseFloat lib ''nan'' = Some NaN" "req_Query r ''device'' \<noteq> []" "req_Query r ''hours'' = ''nan''" "\<not> db_fault (q_read e)"
  shows "handleMeasurementsAPI lib e u r db = (render BrokenJSON, db)"
proof -
  have "\<not> f64_le NaN 0" "\<not> f64_less (f64_of_int chartsMaxHours) NaN" "\<not> is_finite NaN"
    by code_simp+
  then show ?thesis
    using assms by (simp add: handleMeasurementsAPI_def chart_hours_def json_numbers_def QueryRange_def Let_def)
qed

end
