(* ===== verification/Live_Logs.thy ===== *)
theory Live_Logs
  imports Server_Context
begin

text \<open>
  The two live views of the web interface: \<^verbatim>\<open>LogServer\<close> (\<^verbatim>\<open>src/internal/web/logs.go\<close>) shows the log
  channel to every client, \<^verbatim>\<open>TimeLogServer\<close> (\<^verbatim>\<open>src/internal/web/timelog.go\<close>) the time entries of one
  device. Both keep a ring of recent values, send it to a new client as its history, and then send every
  new value. A \<^verbatim>\<open>ring.Ring\<close> is the list of its values from its current element on. A websocket is what was
  written to it, and for each write whether it succeeds; \<^verbatim>\<open>gorilla/websocket\<close> is outside the
  repository. The maps of clients are lists of distinct connections; each client is written
  independently of the others, so the order of a Go map does not matter.

  The steps of the goroutines between two mutex sections are separate events, because the
  order in which a new client registers and gets its history differs: a log client is registered first,
  a time client last.
\<close>

section \<open>Websockets\<close>

record 'm wsock =
  ws_sent :: "'m list"
  ws_fails :: "nat \<Rightarrow> bool"
  ws_count :: nat
  ws_closed :: bool

definition ws_write :: "'m \<Rightarrow> 'm wsock \<Rightarrow> bool \<times> 'm wsock" where
  "ws_write m w =
     (if ws_closed w \<or> ws_fails w (ws_count w) then (False, w\<lparr>ws_count := ws_count w + 1\<rparr>)
      else (True, w\<lparr>ws_sent := ws_sent w @ [m], ws_count := ws_count w + 1\<rparr>))"

definition ws_close :: "'m wsock \<Rightarrow> 'm wsock" where
  "ws_close w = w\<lparr>ws_closed := True\<rparr>"

definition ws_up :: "'m wsock \<Rightarrow> bool" where
  "ws_up w \<longleftrightarrow> \<not> ws_closed w \<and> (\<forall>n. \<not> ws_fails w n)"

text \<open>The loop that writes one value to clients; a client whose write fails is closed and removed.\<close>

fun write_clients :: "'m \<Rightarrow> nat list \<Rightarrow> (nat \<Rightarrow> 'm wsock) \<Rightarrow> nat list \<times> (nat \<Rightarrow> 'm wsock)" where
  "write_clients m [] socks = ([], socks)"
| "write_clients m (i # is) socks =
     (let r = ws_write m (socks i);
          (dead, socks) = write_clients m is (socks(i := if fst r then snd r else ws_close (snd r)))
      in (if fst r then dead else i # dead, socks))"

lemma ws_write_up: "ws_up w \<Longrightarrow> ws_write m w = (True, w\<lparr>ws_sent := ws_sent w @ [m], ws_count := ws_count w + 1\<rparr>)"
  by (simp add: ws_up_def ws_write_def)

lemma write_clients_Cons [simp]:
  "fst (write_clients m (i # is) socks) =
     (if fst (ws_write m (socks i)) then [] else [i])
       @ fst (write_clients m is (socks(i := if fst (ws_write m (socks i)) then snd (ws_write m (socks i))
            else ws_close (snd (ws_write m (socks i))))))"
  "snd (write_clients m (i # is) socks) = snd (write_clients m is (socks(i := if fst (ws_write m (socks i))
     then snd (ws_write m (socks i)) else ws_close (snd (ws_write m (socks i))))))"
  by (simp_all add: Let_def split: prod.split)

declare write_clients.simps(2) [simp del]

lemma write_clients_other: "i \<notin> set is \<Longrightarrow> snd (write_clients m is socks) i = socks i \<and> i \<notin> set (fst (write_clients m is socks))"
  by (induction "is" arbitrary: socks) simp_all

lemma write_clients_up:
  assumes "distinct is" "i \<in> set is" "ws_up (socks i)"
  shows "snd (write_clients m is socks) i = (socks i)\<lparr>ws_sent := ws_sent (socks i) @ [m], ws_count := ws_count (socks i) + 1\<rparr>
     \<and> i \<notin> set (fst (write_clients m is socks))"
  using assms
proof (induction "is" arbitrary: socks)
  case (Cons j "is")
  then show ?case
    using write_clients_other [of i "is" m] by (cases "i = j") (simp_all add: ws_write_up)
qed simp

section \<open>Rings\<close>

text \<open>\<^verbatim>\<open>r.Value = v\<close>, then \<^verbatim>\<open>r = r.Next()\<close>.\<close>

definition ring_add :: "'a \<Rightarrow> 'a list \<Rightarrow> 'a list" where
  "ring_add v r = rotate1 (r[0 := v])"

lemma ring_add_eq: "r \<noteq> [] \<Longrightarrow> ring_add v r = tl r @ [v]"
  by (cases r) (simp_all add: ring_add_def)

section \<open>The log server\<close>

definition defaultMaxLogs :: nat where "defaultMaxLogs = 100"

record LogServer =
  ls_clients :: "nat list"
  ls_socks :: "nat \<Rightarrow> string wsock"
  ls_history :: "string list"
  ls_maxLogs :: nat
  ls_pending :: "nat \<Rightarrow> string list"

definition NewLogServer :: "(nat \<Rightarrow> string wsock) \<Rightarrow> LogServer" where
  "NewLogServer socks =
     \<lparr>ls_clients = [], ls_socks = socks, ls_history = replicate defaultMaxLogs [], ls_maxLogs = defaultMaxLogs,
      ls_pending = (\<lambda>_. [])\<rparr>"

definition addToHistory :: "string \<Rightarrow> LogServer \<Rightarrow> LogServer" where
  "addToHistory msg ls = ls\<lparr>ls_history := ring_add msg (ls_history ls)\<rparr>"

definition getHistory :: "LogServer \<Rightarrow> string list" where
  "getHistory ls = filter (\<lambda>v. v \<noteq> []) (take (ls_maxLogs ls) (ls_history ls))"

text \<open>One message of \<^verbatim>\<open>broadcastLoop\<close>.\<close>

definition log_broadcast :: "string \<Rightarrow> LogServer \<Rightarrow> LogServer" where
  "log_broadcast msg ls =
     (let ls = addToHistory msg ls;
          (dead, socks) = write_clients msg (ls_clients ls) (ls_socks ls)
      in ls\<lparr>ls_clients := filter (\<lambda>i. i \<notin> set dead) (ls_clients ls), ls_socks := socks\<rparr>)"

text \<open>
  The parts of \<^verbatim>\<open>ServeWS\<close>: registration, the snapshot of the history, one write of the loop over it (a
  failure closes the connection and returns), and the end of the connection.
\<close>

definition serve_register :: "nat \<Rightarrow> LogServer \<Rightarrow> LogServer" where
  "serve_register i ls = ls\<lparr>ls_clients := List.insert i (ls_clients ls)\<rparr>"

definition serve_snapshot :: "nat \<Rightarrow> LogServer \<Rightarrow> LogServer" where
  "serve_snapshot i ls = ls\<lparr>ls_pending := (ls_pending ls)(i := getHistory ls)\<rparr>"

definition serve_history :: "nat \<Rightarrow> LogServer \<Rightarrow> LogServer" where
  "serve_history i ls =
     (case ls_pending ls i of
        [] \<Rightarrow> ls
      | msg # rest \<Rightarrow>
          (let (ok, w) = ws_write msg (ls_socks ls i) in
           if ok then ls\<lparr>ls_socks := (ls_socks ls)(i := w), ls_pending := (ls_pending ls)(i := rest)\<rparr>
           else ls\<lparr>ls_socks := (ls_socks ls)(i := ws_close w), ls_pending := (ls_pending ls)(i := [])\<rparr>))"

definition serve_end :: "nat \<Rightarrow> LogServer \<Rightarrow> LogServer" where
  "serve_end i ls = ls\<lparr>ls_clients := removeAll i (ls_clients ls), ls_socks := (ls_socks ls)(i := ws_close (ls_socks ls i))\<rparr>"

definition CloseLogServer :: "LogServer \<Rightarrow> LogServer" where
  "CloseLogServer ls = ls\<lparr>ls_socks := fold (\<lambda>i socks. socks(i := ws_close (socks i))) (ls_clients ls) (ls_socks ls)\<rparr>"

section \<open>The time log server\<close>

definition maxTimeLogsPerDevice :: nat where "maxTimeLogsPerDevice = 500"

record TimeLogServer =
  ts_clients :: "(nat \<times> string) list"
  ts_socks :: "nat \<Rightarrow> TimeLogEntry wsock"
  ts_rings :: "string \<rightharpoonup> TimeLogEntry option list"

definition NewTimeLogServer :: "(nat \<Rightarrow> TimeLogEntry wsock) \<Rightarrow> TimeLogServer" where
  "NewTimeLogServer socks = \<lparr>ts_clients = [], ts_socks = socks, ts_rings = Map.empty\<rparr>"

definition time_broadcast :: "TimeLogEntry \<Rightarrow> TimeLogServer \<Rightarrow> TimeLogServer" where
  "time_broadcast e s =
     (let r = (case ts_rings s (tl_DeviceID e) of None \<Rightarrow> replicate maxTimeLogsPerDevice None | Some r \<Rightarrow> r);
          s = s\<lparr>ts_rings := (ts_rings s)(tl_DeviceID e \<mapsto> ring_add (Some e) r)\<rparr>;
          conns = map fst (filter (\<lambda>(_, device). device = tl_DeviceID e) (ts_clients s));
          (dead, socks) = write_clients e conns (ts_socks s)
      in s\<lparr>ts_clients := filter (\<lambda>(i, _). i \<notin> set dead) (ts_clients s), ts_socks := socks\<rparr>)"

definition time_history :: "string \<Rightarrow> TimeLogServer \<Rightarrow> TimeLogEntry list" where
  "time_history deviceID s =
     (case ts_rings s deviceID of None \<Rightarrow> [] | Some r \<Rightarrow> List.map_filter id r)"

text \<open>The loop of \<^verbatim>\<open>ServeWS\<close> over the history; false when a write failed.\<close>

fun send_history :: "TimeLogEntry list \<Rightarrow> TimeLogEntry wsock \<Rightarrow> bool \<times> TimeLogEntry wsock" where
  "send_history [] w = (True, w)"
| "send_history (e # es) w = (let (ok, w) = ws_write e w in if ok then send_history es w else (False, w))"

text \<open>
  The history is read and written to the new connection, which no other goroutine knows yet; a failed write ends
  \<^verbatim>\<open>ServeWS\<close>. Only then is the client registered, as a second step.
\<close>

definition time_send :: "nat \<Rightarrow> string \<Rightarrow> TimeLogServer \<Rightarrow> bool \<times> TimeLogServer" where
  "time_send i deviceID s =
     (let (ok, w) = send_history (time_history deviceID s) (ts_socks s i)
      in (ok, s\<lparr>ts_socks := (ts_socks s)(i := if ok then w else ws_close w)\<rparr>))"

definition time_register :: "nat \<Rightarrow> string \<Rightarrow> TimeLogServer \<Rightarrow> TimeLogServer" where
  "time_register i deviceID s = s\<lparr>ts_clients := AList.update i deviceID (ts_clients s)\<rparr>"

definition time_end :: "nat \<Rightarrow> TimeLogServer \<Rightarrow> TimeLogServer" where
  "time_end i s = s\<lparr>ts_clients := AList.delete i (ts_clients s), ts_socks := (ts_socks s)(i := ws_close (ts_socks s i))\<rparr>"

section \<open>Histories\<close>

interpretation log_ring: recent_window ring_add "\<lambda>r. r" n "\<lambda>r. length r = n \<and> 0 < n" for n
proof unfold_locales
  fix r :: "'a list" and x
  assume "length r = n \<and> 0 < n"
  then have "r \<noteq> []"
    by auto
  then show "ring_add x r = last_n n (r @ [x])" "length (ring_add x r) = n \<and> 0 < n"
    using \<open>length r = n \<and> 0 < n\<close> last_n_snoc [of n r x] by (simp_all add: ring_add_eq)
qed simp

text \<open>The ring of a device: unused elements, then the entries.\<close>

definition time_ring :: "TimeLogEntry option list \<Rightarrow> bool" where
  "time_ring r \<longleftrightarrow> length r = maxTimeLogsPerDevice \<and> (\<exists>k es. r = replicate k None @ map Some es)"

lemma map_filter_ring: "List.map_filter id (replicate k None @ map Some es) = es"
  by (induction k) (simp_all add: map_filter_def comp_def)

lemma ring_add_filled:
  assumes "r = replicate k None @ map Some es" "k + length es = n" "0 < n"
  shows "\<exists>j. ring_add (Some e) r = replicate j None @ map Some (last_n n (es @ [e])) \<and> j + length (last_n n (es @ [e])) = n"
proof (cases k)
  case 0
  then have "ring_add (Some e) r = map Some (tl es @ [e])"
    using assms by (subst ring_add_eq) (auto simp: map_tl)
  then show ?thesis
    using 0 assms last_n_snoc [of n es e] by (intro exI [of _ 0]) auto
next
  case (Suc j)
  then show ?thesis
    using assms by (intro exI [of _ j]) (simp add: ring_add_eq)
qed

interpretation time_rings: recent_window "\<lambda>e. ring_add (Some e)" "List.map_filter id" maxTimeLogsPerDevice time_ring
proof unfold_locales
  fix r e
  assume r: "time_ring r"
  then obtain k es where eq: "r = replicate k None @ map Some es" and len: "k + length es = maxTimeLogsPerDevice"
    by (auto simp: time_ring_def)
  obtain j where j: "ring_add (Some e) r = replicate j None @ map Some (last_n maxTimeLogsPerDevice (es @ [e]))"
    "j + length (last_n maxTimeLogsPerDevice (es @ [e])) = maxTimeLogsPerDevice"
    using ring_add_filled [OF eq len, of e] by (auto simp: maxTimeLogsPerDevice_def)
  show "List.map_filter id (ring_add (Some e) r) = last_n maxTimeLogsPerDevice (List.map_filter id r @ [e])"
    by (simp only: j(1)) (simp only: eq map_filter_ring)
  show "time_ring (ring_add (Some e) r)"
    using j by (auto simp: time_ring_def simp del: length_last_n)
  show "length (List.map_filter id r) \<le> maxTimeLogsPerDevice"
    using len by (simp add: eq map_filter_ring)
qed

section \<open>Events of the log server\<close>

datatype log_ws_event =
    LogMessage string
  | WSRegister nat
  | WSSnapshot nat
  | WSHistory nat
  | WSEnd nat

fun log_ws_step :: "log_ws_event \<Rightarrow> LogServer \<Rightarrow> LogServer" where
  "log_ws_step (LogMessage msg) ls = log_broadcast msg ls"
| "log_ws_step (WSRegister i) ls = serve_register i ls"
| "log_ws_step (WSSnapshot i) ls = serve_snapshot i ls"
| "log_ws_step (WSHistory i) ls = serve_history i ls"
| "log_ws_step (WSEnd i) ls = serve_end i ls"

fun log_messages :: "log_ws_event list \<Rightarrow> string list" where
  "log_messages [] = []"
| "log_messages (LogMessage msg # evs) = msg # log_messages evs"
| "log_messages (_ # evs) = log_messages evs"

fun log_event_client :: "log_ws_event \<Rightarrow> nat option" where
  "log_event_client (LogMessage _) = None"
| "log_event_client (WSRegister i) = Some i"
| "log_event_client (WSSnapshot i) = Some i"
| "log_event_client (WSHistory i) = Some i"
| "log_event_client (WSEnd i) = Some i"

lemma log_messages_append [simp]: "log_messages (xs @ ys) = log_messages xs @ log_messages ys"
  by (induction xs rule: log_messages.induct) simp_all

lemma log_broadcast_simps [simp]:
  "ls_history (log_broadcast m ls) = ring_add m (ls_history ls)" "ls_maxLogs (log_broadcast m ls) = ls_maxLogs ls"
  "ls_pending (log_broadcast m ls) = ls_pending ls"
  by (simp_all add: log_broadcast_def addToHistory_def Let_def split: prod.split)

lemma log_ws_history:
  "ls_maxLogs (fold log_ws_step evs ls) = ls_maxLogs ls
   \<and> ls_history (fold log_ws_step evs ls) = fold ring_add (log_messages evs) (ls_history ls)"
proof (induction evs arbitrary: ls)
  case (Cons ev evs)
  then show ?case
    by (cases ev) (simp_all add: serve_register_def serve_snapshot_def serve_history_def serve_end_def Let_def
        split: list.split prod.split)
qed simp

lemma getHistory_run:
  "getHistory (fold log_ws_step evs (NewLogServer socks)) = filter (\<lambda>v. v \<noteq> []) (last_n 100 (log_messages evs))"
proof -
  let ?ls = "fold log_ws_step evs (NewLogServer socks)"
  have "ls_history ?ls = last_n 100 (replicate 100 [] @ log_messages evs)" "length (ls_history ?ls) = 100" "ls_maxLogs ?ls = 100"
    using log_ring.add_all [of "replicate 100 [] :: string list" 100 "log_messages evs"] log_ws_history [of evs "NewLogServer socks"]
    by (simp_all add: NewLogServer_def defaultMaxLogs_def)
  then have "getHistory ?ls = filter (\<lambda>v. v \<noteq> []) (last_n 100 (replicate 100 [] @ log_messages evs))"
    by (simp add: getHistory_def)
  also have "\<dots> = filter (\<lambda>v. v \<noteq> []) (last_n 100 (log_messages evs))"
    by (simp add: last_n_def)
  finally show ?thesis .
qed

text \<open>What a registered client whose connection works has got: the live messages and part of its history, in some order.\<close>

lemma shuffles_end: "ys @ [x] \<in> shuffles [x] ys"
  by (induction ys) (auto simp: Cons_in_shuffles_iff)

lemma shuffles_snoc1: "zs \<in> shuffles xs ys \<Longrightarrow> zs @ [x] \<in> shuffles (xs @ [x]) ys"
proof (induction xs ys arbitrary: zs rule: shuffles.induct)
  case (3 a xs b ys)
  then show ?case
    by (cases zs) (auto simp: Cons_in_shuffles_iff)
qed (simp_all add: shuffles_end)

lemma shuffles_snoc2: "zs \<in> shuffles xs ys \<Longrightarrow> zs @ [y] \<in> shuffles xs (ys @ [y])"
  using shuffles_snoc1 [of zs ys xs y] by (simp add: shuffles_commutes)

definition log_client_view :: "nat \<Rightarrow> string list \<Rightarrow> string list \<Rightarrow> LogServer \<Rightarrow> bool" where
  "log_client_view i news old ls \<longleftrightarrow>
     i \<in> set (ls_clients ls) \<and> distinct (ls_clients ls) \<and> ws_up (ls_socks ls i)
     \<and> (\<exists>got. old = got @ ls_pending ls i \<and> ws_sent (ls_socks ls i) \<in> shuffles news got)"

lemma log_broadcast_clients:
  "ls_clients (log_broadcast m ls) =
     filter (\<lambda>j. j \<notin> set (fst (write_clients m (ls_clients ls) (ls_socks ls)))) (ls_clients ls)"
  "ls_socks (log_broadcast m ls) = snd (write_clients m (ls_clients ls) (ls_socks ls))"
  by (simp_all add: log_broadcast_def addToHistory_def Let_def split: prod.split)

lemma log_broadcast_view:
  assumes "log_client_view i news old ls"
  shows "log_client_view i (news @ [m]) old (log_broadcast m ls)"
  using assms write_clients_up [of "ls_clients ls" i "ls_socks ls" m] shuffles_snoc1
  by (auto simp: log_client_view_def log_broadcast_clients ws_up_def)

lemma log_step_view:
  assumes "log_client_view i news old ls" "ev \<notin> {WSRegister i, WSSnapshot i, WSEnd i}"
  shows "log_client_view i (news @ log_messages [ev]) old (log_ws_step ev ls)"
proof (cases ev)
  case (WSHistory j)
  obtain got where got: "old = got @ ls_pending ls i" "ws_sent (ls_socks ls i) \<in> shuffles news got"
    using assms(1) by (auto simp: log_client_view_def)
  show ?thesis
  proof (cases "j = i \<and> ls_pending ls i \<noteq> []")
    case True
    then obtain x rest where p: "ls_pending ls i = x # rest"
      by (cases "ls_pending ls i") auto
    then show ?thesis
      using True WSHistory assms(1) got shuffles_snoc2 [OF got(2), of x] ws_write_up [of "ls_socks ls i" x]
      by (auto simp: log_client_view_def serve_history_def ws_up_def intro!: exI [of _ "got @ [x]"])
  next
    case False
    then show ?thesis
      using WSHistory assms(1)
      by (auto simp: log_client_view_def serve_history_def Let_def split: list.split prod.split)
  qed
next
  case (LogMessage m)
  then show ?thesis
    using log_broadcast_view [OF assms(1)] by simp
qed (use assms in \<open>auto simp: log_client_view_def serve_register_def serve_snapshot_def serve_end_def distinct_removeAll\<close>)

lemma log_run_view:
  assumes "log_client_view i news old ls" "set evs \<inter> {WSRegister i, WSSnapshot i, WSEnd i} = {}"
  shows "log_client_view i (news @ log_messages evs) old (fold log_ws_step evs ls)"
  using assms
proof (induction evs arbitrary: news ls)
  case (Cons ev evs)
  have "log_messages [ev] @ log_messages evs = log_messages (ev # evs)"
    by (cases ev) simp_all
  then show ?case
    using Cons.IH [OF log_step_view [OF Cons.prems(1), of ev]] Cons.prems(2) by auto
qed simp

text \<open>A connection nobody has served yet.\<close>

lemma log_step_fresh:
  assumes "log_event_client ev \<noteq> Some i" "i \<notin> set (ls_clients ls)" "distinct (ls_clients ls)"
  shows "i \<notin> set (ls_clients (log_ws_step ev ls)) \<and> distinct (ls_clients (log_ws_step ev ls))
    \<and> ls_socks (log_ws_step ev ls) i = ls_socks ls i \<and> ls_pending (log_ws_step ev ls) i = ls_pending ls i"
  using assms write_clients_other [of i "ls_clients ls" _ "ls_socks ls"]
  by (cases ev) (auto simp: log_broadcast_clients serve_register_def serve_snapshot_def serve_history_def
      serve_end_def distinct_removeAll Let_def split: list.split prod.split)

lemma log_run_fresh:
  assumes "\<And>ev. ev \<in> set evs \<Longrightarrow> log_event_client ev \<noteq> Some i" "i \<notin> set (ls_clients ls)" "distinct (ls_clients ls)"
  shows "i \<notin> set (ls_clients (fold log_ws_step evs ls)) \<and> distinct (ls_clients (fold log_ws_step evs ls))
    \<and> ls_socks (fold log_ws_step evs ls) i = ls_socks ls i \<and> ls_pending (fold log_ws_step evs ls) i = ls_pending ls i"
  using assms
proof (induction evs arbitrary: ls)
  case (Cons ev evs)
  then show ?case
    using log_step_fresh [of ev i ls] by (simp add: Cons.IH)
qed simp

section \<open>Properties of the live logs\<close>


definition fresh_sock :: "'m wsock" where
  "fresh_sock = \<lparr>ws_sent = [], ws_fails = (\<lambda>_. False), ws_count = 0, ws_closed = False\<rparr>"


text \<open>Events of the time log server.\<close>

datatype time_ws_event =
    TimeEntry TimeLogEntry
  | TimeSend nat string
  | TimeRegister nat string
  | TimeEnd nat

fun time_ws_step :: "time_ws_event \<Rightarrow> TimeLogServer \<Rightarrow> TimeLogServer" where
  "time_ws_step (TimeEntry e) s = time_broadcast e s"
| "time_ws_step (TimeSend i d) s = snd (time_send i d s)"
| "time_ws_step (TimeRegister i d) s = time_register i d s"
| "time_ws_step (TimeEnd i) s = time_end i s"

fun time_event_client :: "time_ws_event \<Rightarrow> nat option" where
  "time_event_client (TimeEntry _) = None"
| "time_event_client (TimeSend i _) = Some i"
| "time_event_client (TimeRegister i _) = Some i"
| "time_event_client (TimeEnd i) = Some i"

text \<open>The entries of one device among the events.\<close>

fun entries_of :: "string \<Rightarrow> time_ws_event list \<Rightarrow> TimeLogEntry list" where
  "entries_of d [] = []"
| "entries_of d (TimeEntry e # evs) = (if tl_DeviceID e = d then e # entries_of d evs else entries_of d evs)"
| "entries_of d (_ # evs) = entries_of d evs"

lemma time_broadcast_parts:
  fixes e :: TimeLogEntry and s :: TimeLogServer
  defines "conns \<equiv> map fst (filter (\<lambda>(_, device). device = tl_DeviceID e) (ts_clients s))"
  shows "ts_rings (time_broadcast e s) = (ts_rings s)(tl_DeviceID e \<mapsto> ring_add (Some e)
      (case ts_rings s (tl_DeviceID e) of None \<Rightarrow> replicate maxTimeLogsPerDevice None | Some r \<Rightarrow> r))"
    "ts_clients (time_broadcast e s) = filter (\<lambda>(i, _). i \<notin> set (fst (write_clients e conns (ts_socks s)))) (ts_clients s)"
    "ts_socks (time_broadcast e s) = snd (write_clients e conns (ts_socks s))"
  by (simp_all add: time_broadcast_def conns_def Let_def split: prod.split)

definition ring_of :: "string \<Rightarrow> TimeLogServer \<Rightarrow> TimeLogEntry option list" where
  "ring_of d s = (case ts_rings s d of None \<Rightarrow> replicate maxTimeLogsPerDevice None | Some r \<Rightarrow> r)"

definition rings_hold :: "(string \<Rightarrow> TimeLogEntry list) \<Rightarrow> TimeLogServer \<Rightarrow> bool" where
  "rings_hold ents s \<longleftrightarrow> (\<forall>d. time_ring (ring_of d s)
     \<and> List.map_filter id (ring_of d s) = last_n maxTimeLogsPerDevice (ents d))"

lemma time_ring_empty: "time_ring (replicate maxTimeLogsPerDevice None)" "List.map_filter id (replicate n None) = []"
  using map_filter_ring [of n "[]"] by (auto simp: time_ring_def intro: exI [of _ "[]"])

lemma time_history_ring: "time_history d s = List.map_filter id (ring_of d s)"
  by (simp add: time_history_def ring_of_def time_ring_empty split: option.split)

lemma ring_of_broadcast:
  "ring_of d (time_broadcast e s) = (if d = tl_DeviceID e then ring_add (Some e) (ring_of d s) else ring_of d s)"
  by (simp add: ring_of_def time_broadcast_parts)

lemma rings_hold_add:
  assumes "rings_hold ents s"
  shows "rings_hold (\<lambda>d. ents d @ entries_of d [TimeEntry e]) (time_broadcast e s)"
  using assms time_rings.add_valid time_rings.add_contents by (auto simp: rings_hold_def ring_of_broadcast last_n_append)

lemma rings_hold_step:
  assumes "rings_hold ents s"
  shows "rings_hold (\<lambda>d. ents d @ entries_of d [ev]) (time_ws_step ev s)"
proof (cases ev)
  case (TimeEntry e)
  then show ?thesis
    using rings_hold_add [OF assms, of e] by simp
qed (use assms in \<open>simp_all add: rings_hold_def ring_of_def time_send_def time_register_def time_end_def Let_def split: prod.split\<close>)

lemma entries_of_append [simp]: "entries_of d (xs @ ys) = entries_of d xs @ entries_of d ys"
  by (induction d xs rule: entries_of.induct) simp_all

lemma rings_hold_run:
  "rings_hold ents s \<Longrightarrow> rings_hold (\<lambda>d. ents d @ entries_of d evs) (fold time_ws_step evs s)"
proof (induction evs arbitrary: ents s)
  case (Cons ev evs)
  have "entries_of d [ev] @ entries_of d evs = entries_of d (ev # evs)" for d
    using entries_of_append [of d "[ev]" evs] by simp
  then show ?case
    using Cons.IH [OF rings_hold_step [OF Cons.prems, of ev]] by simp
qed simp

lemma time_history_run:
  "time_history d (fold time_ws_step evs (NewTimeLogServer socks)) = last_n maxTimeLogsPerDevice (entries_of d evs)"
proof -
  have "rings_hold (\<lambda>_. []) (NewTimeLogServer socks)"
    by (simp add: rings_hold_def ring_of_def NewTimeLogServer_def time_ring_empty)
  from rings_hold_run [OF this, of evs] show ?thesis
    by (simp add: rings_hold_def time_history_ring)
qed

section \<open>The view of a time client\<close>

lemma send_history_up: "ws_up w \<Longrightarrow> fst (send_history es w) \<and> ws_up (snd (send_history es w))
    \<and> ws_sent (snd (send_history es w)) = ws_sent w @ es"
proof (induction es arbitrary: w)
  case (Cons e es)
  have "ws_up (w\<lparr>ws_sent := ws_sent w @ [e], ws_count := ws_count w + 1\<rparr>)"
    using Cons.prems by (simp add: ws_up_def)
  from Cons.IH [OF this] show ?case
    using Cons.prems by (simp add: ws_write_up)
qed simp

definition time_waiting :: "nat \<Rightarrow> TimeLogEntry list \<Rightarrow> TimeLogServer \<Rightarrow> bool" where
  "time_waiting i es s \<longleftrightarrow> i \<notin> fst ` set (ts_clients s) \<and> distinct (map fst (ts_clients s))
     \<and> ws_up (ts_socks s i) \<and> ws_sent (ts_socks s i) = es"

definition time_view :: "nat \<Rightarrow> string \<Rightarrow> TimeLogEntry list \<Rightarrow> TimeLogServer \<Rightarrow> bool" where
  "time_view i d es s \<longleftrightarrow> map_of (ts_clients s) i = Some d \<and> distinct (map fst (ts_clients s))
     \<and> ws_up (ts_socks s i) \<and> ws_sent (ts_socks s i) = es"

lemma time_waiting_step:
  assumes "time_waiting i es s" "time_event_client ev \<noteq> Some i"
  shows "time_waiting i es (time_ws_step ev s)"
proof (cases ev)
  case (TimeEntry e)
  have "i \<notin> set (map fst (filter (\<lambda>(_, device). device = tl_DeviceID e) (ts_clients s)))"
    using assms(1) by (auto simp: time_waiting_def)
  then show ?thesis
    using TimeEntry assms(1) write_clients_other [of i _ e "ts_socks s"]
    by (auto simp: time_waiting_def time_broadcast_parts intro: distinct_map_filter)
qed (use assms in \<open>auto simp: time_waiting_def time_send_def time_register_def time_end_def Let_def distinct_update
      AList.delete_eq dom_update split: prod.split intro: distinct_map_filter\<close>)

lemma time_view_step:
  assumes "time_view i d es s" "time_event_client ev \<noteq> Some i"
  shows "time_view i d (es @ entries_of d [ev]) (time_ws_step ev s)"
proof (cases ev)
  case (TimeEntry e)
  let ?conns = "map fst (filter (\<lambda>(_, device). device = tl_DeviceID e) (ts_clients s))"
  have dist: "distinct ?conns"
    using assms(1) by (auto simp: time_view_def intro: distinct_map_filter)
  have mem: "i \<in> set ?conns \<longleftrightarrow> tl_DeviceID e = d"
    using assms(1) by (auto simp: time_view_def image_iff dest: map_of_SomeD map_of_is_SomeI)
  show ?thesis
    using TimeEntry assms(1) write_clients_other [of i ?conns e "ts_socks s"]
      write_clients_up [OF dist, of i "ts_socks s" e] mem
    by (cases "tl_DeviceID e = d")
      (auto simp: time_view_def time_broadcast_parts ws_up_def map_of_filter_in intro: distinct_map_filter)
qed (use assms in \<open>auto simp: time_view_def time_send_def time_register_def time_end_def Let_def distinct_update
      distinct_delete update_conv' delete_conv' split: prod.split\<close>)

lemma time_waiting_run:
  "time_waiting i es s \<Longrightarrow> (\<And>ev. ev \<in> set evs \<Longrightarrow> time_event_client ev \<noteq> Some i) \<Longrightarrow> time_waiting i es (fold time_ws_step evs s)"
  by (induction evs arbitrary: s) (simp_all add: time_waiting_step)

lemma time_view_run:
  "time_view i d es s \<Longrightarrow> (\<And>ev. ev \<in> set evs \<Longrightarrow> time_event_client ev \<noteq> Some i)
   \<Longrightarrow> time_view i d (es @ entries_of d evs) (fold time_ws_step evs s)"
proof (induction evs arbitrary: es s)
  case (Cons ev evs)
  have "entries_of d [ev] @ entries_of d evs = entries_of d (ev # evs)"
    using entries_of_append [of d "[ev]" evs] by simp
  then show ?case
    using Cons.IH [OF time_view_step [OF Cons.prems(1), of ev]] Cons.prems(2) by simp
qed simp

text \<open>
  C15: A client of the time log of a device gets exactly the entries of that device, in order, without
  duplicates and whatever other clients and devices do: the last 500 entries before it asked for
  its history, then every entry from its registration on. Entries published between
  the two, while the history is being sent, do not reach it.
\<close>

theorem time_client_sees_device:
  assumes "\<And>ev. ev \<in> set before \<union> set between \<union> set after \<Longrightarrow> time_event_client ev \<noteq> Some i"
    and "ws_up (socks i)" and "ws_sent (socks i) = []"
  shows "ws_sent (ts_socks (fold time_ws_step (before @ TimeSend i d # between @ TimeRegister i d # after) (NewTimeLogServer socks)) i)
    = last_n 500 (entries_of d before) @ entries_of d after"
proof -
  let ?s1 = "fold time_ws_step before (NewTimeLogServer socks)"
  have "time_waiting i [] ?s1"
    using time_waiting_run [of i "[]" "NewTimeLogServer socks" before] assms by (simp add: time_waiting_def NewTimeLogServer_def)
  then have "time_waiting i (last_n 500 (entries_of d before)) (time_ws_step (TimeSend i d) ?s1)"
    using send_history_up [of "ts_socks ?s1 i" "time_history d ?s1"] time_history_run [of d before socks]
    by (auto simp: time_waiting_def time_send_def Let_def maxTimeLogsPerDevice_def split: prod.split)
  from time_waiting_run [OF this, of between]
  have "time_view i d (last_n 500 (entries_of d before))
      (time_register i d (fold time_ws_step between (time_ws_step (TimeSend i d) ?s1)))"
    using assms(1) by (simp add: time_waiting_def time_view_def time_register_def distinct_update update_conv')
  from time_view_run [OF this, of after] show ?thesis
    using assms(1) by (simp add: time_view_def)
qed

theorem time_client_sees_device_witness:
  "\<exists>e1 e2 e3. ws_sent (ts_socks (fold time_ws_step ([TimeEntry e1, TimeRegister 7 ''A''] @ TimeSend 1 ''A'' # [TimeEntry e2] @
       TimeRegister 1 ''A'' # [TimeEntry e2, TimeEntry e3]) (NewTimeLogServer (\<lambda>_. fresh_sock))) 1) = [e1, e3]"
proof -
  define e where "e d = \<lparr>tl_DeviceID = d, tl_Dir = ''rx'', tl_At = 0, tl_Frame = [], tl_DeviceTimeMs = 0,
    tl_ServerTimeMs = 0, tl_ReceivedAtMs = 0\<rparr>" for d
  have "time_event_client ev \<noteq> Some 1" if "ev \<in> set [TimeEntry (e ''A''), TimeRegister 7 ''A''] \<union> set [TimeEntry (e ''B'')]
      \<union> set [TimeEntry (e ''B''), TimeEntry (e ''A'')]" for ev
    using that by auto
  moreover have "ws_up fresh_sock" "ws_sent fresh_sock = []"
    by (simp_all add: ws_up_def fresh_sock_def)
  ultimately have "ws_sent (ts_socks (fold time_ws_step ([TimeEntry (e ''A''), TimeRegister 7 ''A''] @ TimeSend 1 ''A''
      # [TimeEntry (e ''B'')] @ TimeRegister 1 ''A'' # [TimeEntry (e ''B''), TimeEntry (e ''A'')])
      (NewTimeLogServer (\<lambda>_. fresh_sock))) 1) = [e ''A'', e ''A'']"
    using time_client_sees_device [of "[TimeEntry (e ''A''), TimeRegister 7 ''A'']" "[TimeEntry (e ''B'')]"
        "[TimeEntry (e ''B''), TimeEntry (e ''A'')]" 1 "\<lambda>_. fresh_sock" "''A''"] by (simp add: e_def)
  then show ?thesis
    by blast
qed

end
