(* ===== verification/Keygen.thy ===== *)
theory Keygen
  imports Config Device_Id
begin

text \<open>
  The program \<^verbatim>\<open>src/cmd/keygen/main.go\<close>, which prints the SQL that registers a public key: the escaping of the key and the
  text of the two statements around it. A \<^verbatim>\<open>range\<close> loop visits the runes of the key, and
  \<^verbatim>\<open>WriteRune\<close> writes their UTF-8 encoding. The fact: a reader of SQL string literals gets exactly the trimmed key back
  from both statements, so no key file can break out of the literal. The lines of explanation
  around the statements are not modelled.
\<close>

section \<open>Model\<close>

text \<open>The UTF-8 encoding of a rune; a surrogate or a number out of range is written as the replacement rune.\<close>

definition encode_rune :: "nat \<Rightarrow> nat list" where
  "encode_rune r =
     (let r = (if r > 0x10FFFF \<or> 0xD800 \<le> r \<and> r \<le> 0xDFFF then RuneError else r) in
      if r < 0x80 then [r]
      else if r < 0x800 then [0xC0 + r div 0x40, 0x80 + r mod 0x40]
      else if r < 0x10000 then [0xE0 + r div 0x1000, 0x80 + r div 0x40 mod 0x40, 0x80 + r mod 0x40]
      else [0xF0 + r div 0x40000, 0x80 + r div 0x1000 mod 0x40, 0x80 + r div 0x40 mod 0x40, 0x80 + r mod 0x40])"

definition WriteRune :: "nat \<Rightarrow> string" where
  "WriteRune r = map char_of (encode_rune r)"

abbreviation quote :: char where "quote \<equiv> CHR 0x27"

definition escapeSQL :: "string \<Rightarrow> string" where
  "escapeSQL s = concat (map (\<lambda>c. if c = of_char quote then [quote, quote] else WriteRune c) (runes (map of_char s)))"

definition insert_statement :: "string \<Rightarrow> string" where
  "insert_statement pubPEM =
     ''INSERT INTO devices (id, public_key, in_service)'' @ [CHR 0x0A] @ ''VALUES ('' @ [CHR 0x0A]
     @ ''    '' @ [quote] @ ''37777'' @ [quote] @ '','' @ [CHR 0x0A]
     @ ''    '' @ [quote] @ escapeSQL (TrimSpace pubPEM) @ [quote] @ '','' @ [CHR 0x0A]
     @ ''    true'' @ [CHR 0x0A] @ '')'' @ [CHR 0x0A]
     @ ''ON CONFLICT (id) DO UPDATE SET'' @ [CHR 0x0A]
     @ ''    public_key  = EXCLUDED.public_key,'' @ [CHR 0x0A]
     @ ''    in_service  = EXCLUDED.in_service,'' @ [CHR 0x0A]
     @ ''    deleted_at  = NULL;'' @ [CHR 0x0A]"

definition update_statement :: "string \<Rightarrow> string" where
  "update_statement pubPEM =
     ''UPDATE devices SET public_key = '' @ [quote] @ escapeSQL (TrimSpace pubPEM) @ [quote]
     @ '', in_service = true WHERE id = '' @ [quote] @ ''37777'' @ [quote] @ '';''"

text \<open>\<^verbatim>\<open>main\<close>: the exits, or the two statements it prints.\<close>

datatype keygen_exit = KeygenUsage | ReadPublicKeyFailed

definition keygen_main :: "(string \<Rightarrow> string option) \<Rightarrow> string list \<Rightarrow> keygen_exit + string \<times> string" where
  "keygen_main readFile args =
     (if length args < 2 then Inl KeygenUsage
      else case readFile (args ! 1) of
             None \<Rightarrow> Inl ReadPublicKeyFailed
           | Some pubPEM \<Rightarrow> Inr (insert_statement pubPEM, update_statement pubPEM))"

section \<open>Reading the literal\<close>

text \<open>A string literal from behind its opening quote: two quotes are one, a single quote ends it.\<close>

fun read_literal :: "string \<Rightarrow> (string \<times> string) option" where
  "read_literal [] = None"
| "read_literal (c # s) =
     (if c \<noteq> quote then map_option (\<lambda>(lit, rest). (c # lit, rest)) (read_literal s)
      else case s of
             [] \<Rightarrow> Some ([], [])
           | d # t \<Rightarrow> if d = quote then map_option (\<lambda>(lit, rest). (quote # lit, rest)) (read_literal t) else Some ([], s))"

text \<open>What the loop does to the bytes of a key, without the doubling: invalid UTF-8 is replaced.\<close>

definition rune_text :: "string \<Rightarrow> string" where
  "rune_text s = concat (map WriteRune (runes (map of_char s)))"

lemma rune_text_ascii:
  assumes "\<And>c. c \<in> set s \<Longrightarrow> of_char c < (0x80 :: nat)"
  shows "rune_text s = s"
proof -
  have r: "runes (map of_char s) = (map of_char s :: nat list)"
    using assms by (intro runes_all_ascii) auto
  have "WriteRune (of_char c) = [c]" if "c \<in> set s" for c
    using assms [OF that] by (simp add: WriteRune_def encode_rune_def)
  then have "concat (map (\<lambda>c. WriteRune (of_char c)) s) = s"
    by (induction s) simp_all
  then show ?thesis
    unfolding rune_text_def r by (simp add: comp_def)
qed

lemma read_plain: "quote \<notin> set x \<Longrightarrow> read_literal (x @ s) = map_option (\<lambda>(lit, rest). (x @ lit, rest)) (read_literal s)"
  by (induction x) (auto simp: option.map_comp comp_def case_prod_unfold map_option_case split: option.split)

lemma encode_rune_quote:
  assumes "r \<noteq> of_char quote"
  shows "quote \<notin> set (WriteRune r)"
proof -
  have "n \<noteq> 39 \<and> n < 256" if "n \<in> set (encode_rune r)" for n
    using that assms by (auto simp: encode_rune_def RuneError_def Let_def split: if_splits)
  moreover have "of_char quote = (39 :: nat)"
    by simp
  ultimately have "(char_of n :: char) \<noteq> quote" if "n \<in> set (encode_rune r)" for n
    using that by (metis of_char_of mod_less)
  then show ?thesis
    unfolding WriteRune_def by (metis imageE list.set_map)
qed

lemma WriteRune_quote: "WriteRune (of_char quote) = [quote]"
proof -
  have "encode_rune (of_char quote) = [of_char quote]"
    by (simp add: encode_rune_def)
  then show ?thesis
    by (simp add: WriteRune_def del: of_char_Char)
qed

lemma read_escaped:
  assumes "rest = [] \<or> hd rest \<noteq> quote"
  shows "read_literal (escapeSQL s @ quote # rest) = Some (rune_text s, rest)"
proof -
  have "read_literal (concat (map (\<lambda>c. if c = of_char quote then [quote, quote] else WriteRune c) rs) @ quote # rest)
      = Some (concat (map WriteRune rs), rest)" for rs
  proof (induction rs)
    case Nil
    then show ?case
      using assms by (cases rest) auto
  next
    case (Cons r rs)
    show ?case
    proof (cases "r = of_char quote")
      case True
      then show ?thesis
        using Cons WriteRune_quote by (simp del: of_char_Char)
    next
      case False
      then show ?thesis
        using Cons read_plain [OF encode_rune_quote [OF False]] by (simp del: of_char_Char)
    qed
  qed
  then show ?thesis
    by (simp add: escapeSQL_def rune_text_def)
qed

text \<open>The key in the first statement, and in the second.\<close>

lemma insert_statement_key:
  "\<exists>before rest. insert_statement pem = before @ quote # escapeSQL (TrimSpace pem) @ quote # rest
     \<and> read_literal (escapeSQL (TrimSpace pem) @ quote # rest) = Some (rune_text (TrimSpace pem), rest)"
  unfolding insert_statement_def
  by (rule exI [of _ "''INSERT INTO devices (id, public_key, in_service)'' @ [CHR 0x0A] @ ''VALUES ('' @ [CHR 0x0A]
     @ ''    '' @ [quote] @ ''37777'' @ [quote] @ '','' @ [CHR 0x0A] @ ''    ''"], rule exI, rule conjI)
    (simp only: append_assoc append_Cons append_Nil, rule read_escaped, simp)

lemma update_statement_key:
  "\<exists>before rest. update_statement pem = before @ quote # escapeSQL (TrimSpace pem) @ quote # rest
     \<and> read_literal (escapeSQL (TrimSpace pem) @ quote # rest) = Some (rune_text (TrimSpace pem), rest)"
  unfolding update_statement_def
  by (rule exI [of _ "''UPDATE devices SET public_key = ''"], rule exI, rule conjI)
    (simp only: append_assoc append_Cons append_Nil, rule read_escaped, simp)

end
