(* ===== verification/Spec2Isabelle.thy ===== *)
theory Spec2Isabelle
  imports Handshake Server_Output Startup Web Live_Logs Keygen
begin

text \<open>
  A verification library of the TNC server: a TCP server for navigation devices with its web
  interface, written in Go. This theory only gathers the others; everything is stated in the theory of the
  component it is about, or of the first theory that sees all the components it connects.

  \<^bold>\<open>The program and its parts.\<close> A device opens a TCP connection (\<^verbatim>\<open>src/internal/tcp/crypto_server.go\<close>) and
  sends binary frames. The read loop of its goroutine decodes them (\<^verbatim>\<open>frame.go\<close>), finds the handler of the
  command (\<^verbatim>\<open>src/internal/cmd/registry.go\<close>, \<^verbatim>\<open>middleware.go\<close>) and calls it. Command 0x65 (\<^verbatim>\<open>cmd0x65\<close>) is the
  challenge-response authorization and, after it, the time request; command 0x59 (\<^verbatim>\<open>cmd0x59\<close>) is a data
  message, which goes to all other devices through the hub (\<^verbatim>\<open>src/internal/hub/hub.go\<close>), into the
  log files of the device (\<^verbatim>\<open>framelog.go\<close>) and into the queue of measurements (\<^verbatim>\<open>src/internal/store\<close>).
  Administrators and users see devices, charts and live logs through the web interface
  (\<^verbatim>\<open>src/internal/web\<close>) over the same PostgreSQL database. Time is corrected by an NTP clock (\<^verbatim>\<open>src/internal/ntp\<close>).

  \<^bold>\<open>Theories and sources.\<close>
  \<^item> \<^verbatim>\<open>Prelude\<close>: bytes, Go strings, little-endian integers, slices, buffered channels, the
    result type (\<open>Inl\<close> an error, \<open>Inr\<close> a value), and the general interfaces: \<open>codec\<close>, \<open>bounded_queue\<close>,
    \<open>recent_window\<close>, \<open>transition_system\<close>. \<^verbatim>\<open>Go_Time\<close>: instants, durations, days, formatting. \<^verbatim>\<open>Float64\<close>:
    binary64 arithmetic on bit patterns, rounding to nearest even. \<^verbatim>\<open>Files\<close>: the file system below
    one directory, each operation with a fault the caller chooses.
  \<^item> \<^verbatim>\<open>Wire_Frame\<close> (\<^verbatim>\<open>frame.go\<close>), \<^verbatim>\<open>Frame_Reader\<close> (\<^verbatim>\<open>FrameReader\<close>), \<^verbatim>\<open>Wire_Message\<close> (\<^verbatim>\<open>message.go\<close>),
    \<^verbatim>\<open>Device_Id\<close> (identifiers on the wire and in file names), \<^verbatim>\<open>Challenge\<close> (\<^verbatim>\<open>crypto.go\<close>): the wire
    protocol. Lemmas: decoding is the inverse of encoding and accepts nothing else, a changed byte is
    detected, the reader finds every frame between noise, sanitised names are plain file names,
    challenges expire after their time to live.
  \<^item> \<^verbatim>\<open>Hub\<close> (\<^verbatim>\<open>hub.go\<close>): one definition per event of the goroutine that owns the subscribers and one per
    method, the step relation over them and its invariant; fan-out, order and loss of messages. The
    interface \<open>message_bus\<close> is what the server relies on.
  \<^item> \<^verbatim>\<open>Frame_Log\<close>, \<^verbatim>\<open>Log_Lines\<close> (\<^verbatim>\<open>framelog.go\<close>, \<^verbatim>\<open>log_cleanup.go\<close>): sessions with reference counts
    (\<open>ref_counted\<close>), day folders, parts, rotation, hex and text lines, retention.
  \<^item> \<^verbatim>\<open>Database\<close> (\<^verbatim>\<open>src/migrations/0001_init.sql\<close> and the statements), \<^verbatim>\<open>Device_Store\<close>, \<^verbatim>\<open>User_Store\<close>
    (\<^verbatim>\<open>device_store.go\<close>, \<^verbatim>\<open>user_store.go\<close>, \<^verbatim>\<open>session_store.go\<close>), \<^verbatim>\<open>Measurements\<close> (\<^verbatim>\<open>measurement_store.go\<close>): every
    query as an operation on tables with keys and references. The device store refines an abstract registry
    of devices; integrity holds in every reachable database; measurements are never invented,
    duplicated or reordered.
  \<^item> \<^verbatim>\<open>Ntp\<close> (\<^verbatim>\<open>ntp.go\<close>): rounds of queries, median, window of eight samples, linear fit, correction.
  \<^item> \<^verbatim>\<open>Server_Context\<close> (\<^verbatim>\<open>handler.go\<close>, the shared fields of \<^verbatim>\<open>CryptoServer\<close>), \<^verbatim>\<open>Cmd65\<close>, \<^verbatim>\<open>Cmd59\<close>, \<^verbatim>\<open>Dispatch\<close>,
    \<^verbatim>\<open>Connection\<close>, \<^verbatim>\<open>Connection_Loop\<close> (\<^verbatim>\<open>handleConnection\<close>): the handlers and a connection, as functions on
    the record \<open>server\<close> (the shared parts) and the record \<open>connection\<close> (the local variables).
    \<open>None\<close> is a panic or a call that never returns; \<open>cmd_handlers\<close> is the contract of a handler.
  \<^item> \<^verbatim>\<open>Authentication\<close>: the traces of a connection; who can become authenticated, what is refused before,
    how a data message reaches the others. \<^verbatim>\<open>Server_Output\<close>: what a device receives is a sequence of
    well-formed frames (\<open>frame_handlers\<close> extends the contract of a handler).
  \<^item> \<^verbatim>\<open>Device_Client\<close> (\<^verbatim>\<open>src/cmd/challenge_client/main.go\<close>) and \<^verbatim>\<open>Handshake\<close>: the device side, the equality
    of the two codecs, and the client program run against the server.
  \<^item> \<^verbatim>\<open>Web\<close> (\<^verbatim>\<open>server.go\<close>, \<^verbatim>\<open>auth.go\<close>, the handlers): routes, access rules, pages as the data they
    are rendered from. \<^verbatim>\<open>Live_Logs\<close> (\<^verbatim>\<open>logs.go\<close>, \<^verbatim>\<open>timelog.go\<close>): the two WebSocket views.
  \<^item> \<^verbatim>\<open>Config\<close> (\<^verbatim>\<open>config.go\<close>), \<^verbatim>\<open>Startup\<close> (\<^verbatim>\<open>db.go\<close>, \<^verbatim>\<open>run\<close> of \<^verbatim>\<open>src/cmd/server/main.go\<close>, the accept loop,
    \<^verbatim>\<open>src/internal/health/monitor.go\<close>), \<^verbatim>\<open>Keygen\<close> (\<^verbatim>\<open>src/cmd/keygen/main.go\<close>): settings, start and stop, tools.

  \<^bold>\<open>The main results.\<close> A connection is authenticated only after the holder of the registered key has
  signed the challenge issued on it (\<^verbatim>\<open>Authentication\<close>), and the client program that holds the key is
  authorized (\<^verbatim>\<open>Handshake\<close>); whatever arrives, the goroutine of a connection ends without a panic
  (\<^verbatim>\<open>Connection_Loop\<close>); a data message reaches exactly the other subscribed devices; a web request changes
  devices and users only with the role it needs and never removes an administrator (\<^verbatim>\<open>Web\<close>); the stores keep the
  integrity of the database (\<^verbatim>\<open>User_Store\<close>); a server that started is ready for connections (\<^verbatim>\<open>Startup\<close>).

  \<^bold>\<open>Conventions and bounds.\<close>
  \<^item> Machine integers have their width: bytes, the hub's 64-bit identifiers and counters, 16-bit
    lengths wrap around. Where a theorem needs that the identifiers of the hub have not wrapped around, it
    says so (\<open>nextID\<close>). Counters of dropped measurements are natural numbers.
  \<^item> Concurrency: the body under a mutex, and each event of the goroutine that owns a state, is one
    step. Between two frames of a connection the other goroutines change the shared server by an arbitrary
    function (\<open>meanwhile\<close>) that only has to keep the hub running; within a frame the connection runs alone.
  \<^item> No fuel is used: every loop is structural or has a termination proof. The read loop
    terminates because each frame takes at least one byte off the stream.
  \<^item> Time is a number of nanoseconds; wall and monotonic readings of one instant agree, stored
    times are not rounded to microseconds, a day of the database session has 24 hours (UTC).
  \<^item> Floating point is that of amd64, without fused multiply-add; conversions out of
    range give the least 64-bit integer.
  \<^item> Log entries for the web are values with their arguments instead of formatted texts. The standard
    log is left out.
  \<^item> Code outside the repository is a parameter: RSA, SHA-256, PEM and x509 (\<open>crypto_lib\<close>, \<open>key_lib\<close>), bcrypt,
    uuid, the random source, whether a statement, a file operation or a socket write fails, what an
    NTP server answers, what a migration script does. Each theorem that needs a law of one of them has it as a
    hypothesis (\<open>key_pair\<close>: a signature made with the private key verifies with the public one).

  \<^bold>\<open>Not modelled.\<close> HTML templates, style sheets and scripts; the router, the HTTP server and the WebSocket
  library beyond what is written to a socket; the SQL text of the migrations beyond the tables that the stores
  use; signals; the figures of the Go runtime in the health line; texts printed for a reader. These are calls of
  libraries without logic of the program.
\<close>

end
